theory Spec2Isabelle
  imports Main "HOL-Library.Word" "HOL-Library.Sublist"
begin

section \<open>oci2disk: streaming an OCI image layer onto a block device\<close>

text \<open>
  A shallow embedding of \<^verbatim>\<open>oci2disk/image/image.go\<close>.  The package talks to a
  registry, to compression libraries and to the kernel; each of these collaborators is a
  field of the record \<open>env\<close>, so every theorem below holds for all their behaviours.
  Everything the package itself decides (suffix dispatch, byte counting, the copy loop it
  drives, the layer loop, the order of opens, closes and log lines, which errors are fatal)
  is written out as HOL functions that follow the Go text statement by statement.
\<close>

subsection \<open>Bytes, 64-bit counters\<close>

type_synonym byte = "8 word"

text \<open>
  \<^verbatim>\<open>atomic.Int64\<close>, \<^verbatim>\<open>totalBytes\<close> and the descriptor's \<^verbatim>\<open>Size\<close> are 64-bit
  two's-complement integers: words of 64 bits, whose addition wraps, read with \<open>sint\<close>.
\<close>

type_synonym int64 = "64 word"

subsection \<open>Readers and writers\<close>

text \<open>
  An \<^verbatim>\<open>io.Reader\<close> is known to this package only through the results of its successive
  \<^verbatim>\<open>Read\<close> calls.  A reader is therefore the script of those results: each entry is what
  the call did to the buffer, with the count \<open>n\<close> it returned, and the error returned with
  it.  The count is a Go \<^verbatim>\<open>int\<close>.  A call that returns \<open>n \<ge> 0\<close> has placed \<open>n\<close> bytes in
  the buffer: \<open>Bytes bs\<close>, with \<open>n\<close> the length of \<open>bs\<close>.  The contract of \<^verbatim>\<open>io.Reader\<close>
  forbids a negative count, but neither \<open>Progress\<close> nor the copy loop checks it:
  \<open>Negative k\<close> is a call that returns the count \<open>-(k+1)\<close>; the loop then reads nothing
  from the buffer.  Once the script is used up the reader answers \<open>(0, io.EOF)\<close>.  The
  copy loop hands every reader a buffer of 32 KiB; a count above the buffer length makes
  the loop's slice expression panic, so entries longer than that cannot come from a run
  that returns, and nothing below depends on the bound.  A script is finite: a reader that
  never reports an error or the end of its stream, on which \<^verbatim>\<open>io.Copy\<close> would not
  return, is outside this model.
\<close>

datatype rerr = EOF | ReadErr string

datatype chunk = Bytes "byte list" | Negative nat

fun chunk_count :: "chunk \<Rightarrow> int" where
  "chunk_count (Bytes bs) = int (length bs)"
| "chunk_count (Negative k) = - int (Suc k)"

fun chunk_bytes :: "chunk \<Rightarrow> byte list" where
  "chunk_bytes (Bytes bs) = bs"
| "chunk_bytes (Negative k) = []"

type_synonym read_result = "chunk \<times> rerr option"
type_synonym reader = "read_result list"

text \<open>
  \<^verbatim>\<open>Read(buf)\<close> gives the count, the part \<^verbatim>\<open>buf[0:n]\<close> of the buffer (empty when the
  count is not positive), the error, and the reader that remains.
\<close>

definition reader_Read :: "reader \<Rightarrow> int \<times> byte list \<times> rerr option \<times> reader" where
  "reader_Read rd =
     (case rd of
        [] \<Rightarrow> (0, [], Some EOF, [])
      | (c, er) # rest \<Rightarrow> (chunk_count c, chunk_bytes c, er, rest))"

text \<open>
  An \<^verbatim>\<open>io.Writer\<close>: \<open>wr_accept\<close> answers a \<^verbatim>\<open>Write(b)\<close> call, from the bytes taken so far
  and \<open>b\<close>, with the count \<open>n\<close> it reports and its error.  The count is a Go \<^verbatim>\<open>int\<close>:
  the contract of \<^verbatim>\<open>io.Writer\<close> asks for \<open>0 \<le> n \<le> len(b)\<close>, but \<open>Progress.Write\<close> adds
  whatever count comes back, so a writer here may answer any integer.  \<open>wr_written\<close> is
  the log of the bytes the writer has taken through its \<^verbatim>\<open>Write\<close> calls, in the order of
  the calls: of each call the first \<open>n\<close> bytes of \<open>b\<close>, none when \<open>n\<close> is negative.  It
  is a record of what was written, not the content of the device behind the writer.
\<close>

record writer =
  wr_accept :: "byte list \<Rightarrow> byte list \<Rightarrow> int \<times> string option"
  wr_written :: "byte list"

definition writer_Write :: "writer \<Rightarrow> byte list \<Rightarrow> int \<times> string option \<times> writer" where
  "writer_Write wr b =
     (case wr_accept wr (wr_written wr) b of
        (n, err) \<Rightarrow> (n, err, wr\<lparr>wr_written := wr_written wr @ take (nat n) b\<rparr>))"

subsection \<open>Progress: the byte-counting wrapper\<close>

text \<open>
  \<^verbatim>\<open>type Progress struct { w io.Writer; r io.Reader; wBytes, rBytes atomic.Int64 }\<close>.
  The fields \<^verbatim>\<open>w\<close> and \<^verbatim>\<open>r\<close> are named \<open>p_w\<close> and \<open>p_r\<close> here.
\<close>

record progress =
  p_w :: writer
  p_r :: reader
  wBytes :: int64
  rBytes :: int64

definition NewProgress :: "writer \<Rightarrow> reader \<Rightarrow> progress" where
  "NewProgress wr rd = \<lparr>p_w = wr, p_r = rd, wBytes = 0, rBytes = 0\<rparr>"

text \<open>
  \<^verbatim>\<open>nu, err := p.w.Write(b); p.wBytes.Add(int64(nu)); return nu, err\<close>, and the same for
  \<^verbatim>\<open>Read\<close>: the count is added as it comes, without a test of its sign.
\<close>

definition Progress_Write :: "progress \<Rightarrow> byte list \<Rightarrow> int \<times> string option \<times> progress" where
  "Progress_Write p b =
     (case writer_Write (p_w p) b of
        (nu, err, wr') \<Rightarrow> (nu, err, p\<lparr>p_w := wr', wBytes := wBytes p + of_int nu\<rparr>))"

definition Progress_Read :: "progress \<Rightarrow> int \<times> byte list \<times> rerr option \<times> progress" where
  "Progress_Read p =
     (case reader_Read (p_r p) of
        (nu, buf, err, rd') \<Rightarrow> (nu, buf, err, p\<lparr>p_r := rd', rBytes := rBytes p + of_int nu\<rparr>))"

definition readBytes :: "progress \<Rightarrow> int64" where
  "readBytes p = rBytes p"

definition writeBytes :: "progress \<Rightarrow> int64" where
  "writeBytes p = wBytes p"

subsection \<open>The copy loop driven by Write\<close>

text \<open>
  \<^verbatim>\<open>io.Copy(progress, progress)\<close>: \<^verbatim>\<open>*Progress\<close> has neither \<^verbatim>\<open>WriteTo\<close> nor \<^verbatim>\<open>ReadFrom\<close>,
  so the standard library runs its generic loop: read a chunk, write it with a single
  \<^verbatim>\<open>Write\<close> call, stop on the first error, on a write that took fewer bytes than read
  (\<^verbatim>\<open>io.ErrShortWrite\<close>), or on end of stream.  A short write is never retried.  A write
  that reports a negative count, or more than it was given, counts for nothing and ends
  the loop (\<^verbatim>\<open>if nw < 0 || nr < nw { nw = 0; if ew == nil { ew = errInvalidWrite } }\<close>).
\<close>

datatype cerr = WriteFailed string | ReadFailed string | ErrShortWrite | ErrInvalidWrite

function io_Copy_loop :: "progress \<Rightarrow> int64 \<Rightarrow> int64 \<times> cerr option \<times> progress" where
  "io_Copy_loop p written =
     (case Progress_Read p of
        (nr, buf, er, p1) \<Rightarrow>
          if 0 < nr then
            (case Progress_Write p1 buf of
               (nw0, ew0, p2) \<Rightarrow>
                 (let invalid = (nw0 < 0 \<or> nr < nw0);
                      nw = (if invalid then 0 else nw0);
                      ew = (if invalid \<and> ew0 = None then Some ErrInvalidWrite
                            else map_option WriteFailed ew0);
                      written' = written + of_int nw
                  in if ew \<noteq> None then (written', ew, p2)
                     else if nr \<noteq> nw then (written', Some ErrShortWrite, p2)
                     else (case er of
                             None \<Rightarrow> io_Copy_loop p2 written'
                           | Some EOF \<Rightarrow> (written', None, p2)
                           | Some (ReadErr e) \<Rightarrow> (written', Some (ReadFailed e), p2))))
          else (case er of
                  None \<Rightarrow> io_Copy_loop p1 written
                | Some EOF \<Rightarrow> (written, None, p1)
                | Some (ReadErr e) \<Rightarrow> (written, Some (ReadFailed e), p1)))"
  by pat_completeness auto
termination
  by (relation "measure (\<lambda>(p, written). length (p_r p))")
     (auto simp: Progress_Read_def Progress_Write_def reader_Read_def writer_Write_def
           split: list.splits prod.splits)

definition io_Copy :: "progress \<Rightarrow> int64 \<times> cerr option \<times> progress" where
  "io_Copy p = io_Copy_loop p 0"

declare io_Copy_loop.simps [simp del]

text \<open>
  What a reader holds, for stating properties: the bytes it delivers up to and including
  the first result that carries an error, that error (end of stream when the script
  runs out), and the sum of the counts it returns up to there.  A reader keeps the
  contract when none of its counts is negative; the sum of its counts is then the
  number of its bytes.
\<close>

fun stream_bytes :: "reader \<Rightarrow> byte list" where
  "stream_bytes [] = []"
| "stream_bytes ((c, None) # rest) = chunk_bytes c @ stream_bytes rest"
| "stream_bytes ((c, Some e) # rest) = chunk_bytes c"

fun stream_end :: "reader \<Rightarrow> rerr" where
  "stream_end [] = EOF"
| "stream_end ((c, None) # rest) = stream_end rest"
| "stream_end ((c, Some e) # rest) = e"

fun stream_count :: "reader \<Rightarrow> int" where
  "stream_count [] = 0"
| "stream_count ((c, None) # rest) = chunk_count c + stream_count rest"
| "stream_count ((c, Some e) # rest) = chunk_count c"

definition counts_in_contract :: "reader \<Rightarrow> bool" where
  "counts_in_contract rd = list_all (\<lambda>r. 0 \<le> chunk_count (fst r)) rd"

text \<open>
  The error the loop returns when an iteration ends it: from the read alone, and from a
  non-empty chunk whose write reported \<open>n\<close> bytes and the error \<open>ew0\<close>.
\<close>

definition read_error :: "rerr \<Rightarrow> cerr option" where
  "read_error e = (case e of EOF \<Rightarrow> None | ReadErr m \<Rightarrow> Some (ReadFailed m))"

definition chunk_error :: "byte list \<Rightarrow> int \<Rightarrow> string option \<Rightarrow> rerr option \<Rightarrow> cerr option" where
  "chunk_error bs n ew0 er =
     (if n < 0 \<or> int (length bs) < n then
        (case ew0 of None \<Rightarrow> Some ErrInvalidWrite | Some e \<Rightarrow> Some (WriteFailed e))
      else (case ew0 of
              Some e \<Rightarrow> Some (WriteFailed e)
            | None \<Rightarrow>
                if int (length bs) \<noteq> n then Some ErrShortWrite
                else (case er of
                        None \<Rightarrow> None
                      | Some EOF \<Rightarrow> None
                      | Some (ReadErr e) \<Rightarrow> Some (ReadFailed e))))"

subsection \<open>Path helpers of the standard library\<close>

text \<open>
  \<^verbatim>\<open>filepath.Ext\<close> on Linux scans from the last byte towards the first, stops at a path
  separator, and returns the text from the first dot it meets.  The counter \<open>k\<close> is the Go
  index \<open>i\<close> plus one, so the scan ends at \<open>k = 0\<close>.
\<close>

fun Ext_scan :: "string \<Rightarrow> nat \<Rightarrow> string" where
  "Ext_scan path 0 = ''''"
| "Ext_scan path (Suc i) =
     (if path ! i = CHR ''/'' then ''''
      else if path ! i = CHR ''.'' then drop i path
      else Ext_scan path i)"

definition filepath_Ext :: "string \<Rightarrow> string" where
  "filepath_Ext path = Ext_scan path (length path)"

text \<open>
  \<^verbatim>\<open>filepath.Base\<close>: trailing separators are dropped, then the last element is taken;
  the empty path gives a dot and a path of separators gives one separator.
\<close>

definition filepath_Base :: "string \<Rightarrow> string" where
  "filepath_Base path =
     (if path = [] then ''.''
      else (let stripped = rev (dropWhile (\<lambda>c. c = CHR ''/'') (rev path));
                elem = rev (takeWhile (\<lambda>c. c \<noteq> CHR ''/'') (rev stripped))
            in if elem = [] then ''/'' else elem))"

subsection \<open>Manifest data\<close>

text \<open>
  The fields of \<^verbatim>\<open>ocispec.Descriptor\<close> and \<^verbatim>\<open>ocispec.Manifest\<close> that the package reads.
  A Go map may be \<^verbatim>\<open>nil\<close>, hence the option around the annotation map.
\<close>

record descriptor =
  MediaType :: string
  Digest :: string
  Size :: int64
  Annotations :: "(string \<rightharpoonup> string) option"

record manifest =
  Layers :: "descriptor list"

record repository =
  Reference :: string

definition AnnotationTitle :: string where
  "AnnotationTitle = ''org.opencontainers.image.title''"

definition customMediaType :: string where
  "customMediaType = ''application/vnd.oci.image.layer.v1.tar''"

definition BLKRRPART :: nat where
  "BLKRRPART = 0x125f"

text \<open>The permission bits \<^verbatim>\<open>0o644\<close> passed to \<^verbatim>\<open>os.OpenFile\<close>.\<close>

definition perm_0644 :: nat where
  "perm_0644 = 6 * 8 ^ 2 + 4 * 8 + 4"

subsection \<open>The collaborators\<close>

text \<open>
  The calls that leave the package, as functions of their arguments; \<open>Inl\<close> carries the
  text of the error.  \<open>remote_NewRepository\<close> parses the image reference; the repository
  it gives holds the tag or digest, empty when the reference has none.
  \<open>os_OpenFile_error\<close> is the error of opening a path, \<open>None\<close> when the open succeeds.
  \<open>oras_Resolve\<close> takes the target platform, \<open>content_FetchAll\<close> and \<open>json_Unmarshal\<close>
  give the manifest, \<open>repo_Fetch\<close> the stream of a layer.  \<^verbatim>\<open>bzip2.NewReader\<close> returns no
  error; the constructors of gzip, xz and zstd may.  \<open>file_Sync_error\<close> and
  \<open>unix_IoctlSetInt_error\<close> are the errors of the flush and of the ioctl.
\<close>

datatype open_flag = O_CREATE | O_WRONLY

record env =
  runtime_GOARCH :: string
  remote_NewRepository :: "string \<Rightarrow> string + repository"
  os_OpenFile_error :: "string \<Rightarrow> string option"
  oras_Resolve :: "repository \<Rightarrow> string \<Rightarrow> (string \<times> string) option \<Rightarrow> string + descriptor"
  content_FetchAll :: "repository \<Rightarrow> descriptor \<Rightarrow> string + byte list"
  json_Unmarshal :: "byte list \<Rightarrow> string + manifest"
  repo_Fetch :: "repository \<Rightarrow> descriptor \<Rightarrow> string + reader"
  bzip2_NewReader :: "reader \<Rightarrow> reader"
  gzip_NewReader :: "reader \<Rightarrow> string + reader"
  xz_NewReader :: "reader \<Rightarrow> string + reader"
  zstd_NewReader :: "reader \<Rightarrow> string + reader"
  file_Sync_error :: "string option"
  unix_IoctlSetInt_error :: "nat \<Rightarrow> int \<Rightarrow> string option"

text \<open>
  The part of the machine that outlives a call: which paths exist, and the file behind
  the destination path, with the log of the bytes written to it.  \<^verbatim>\<open>os.OpenFile\<close>
  hands out that file; what \<open>Write\<close> writes through it is appended to the log, so the
  bytes a run has written are what the log has gained.  The file is opened without
  \<^verbatim>\<open>O_APPEND\<close> and without \<^verbatim>\<open>O_TRUNC\<close>: on the device the bytes of a run go to offset
  0 and upwards, over what was there; the statements below speak of the bytes written,
  not of what the device held before.
\<close>

record world =
  paths :: "string set"
  disk :: writer

definition os_OpenFile ::
  "env \<Rightarrow> string \<Rightarrow> open_flag list \<Rightarrow> nat \<Rightarrow> world \<Rightarrow> (string + writer) \<times> world" where
  "os_OpenFile env name flags perm wld =
     (case os_OpenFile_error env name of
        Some e \<Rightarrow> (Inl e, wld)
      | None \<Rightarrow> (Inr (disk wld),
                 if O_CREATE \<in> set flags then wld\<lparr>paths := insert name (paths wld)\<rparr> else wld))"

subsection \<open>findDecompressor\<close>

text \<open>
  The result is the decompressing reader, tagged with its codec, or one of the four errors
  of the function: the three wrapped constructor errors (\<^verbatim>\<open>[ERROR] New gzip reader: %w\<close> and
  its siblings) and \<^verbatim>\<open>unknown compression suffix [%s]\<close>.
\<close>

datatype codec = Bzip2 | Gzip | Xz | Zstd

datatype derr =
    GzipInit string
  | XzInit string
  | ZstdInit string
  | UnknownSuffix string

definition findDecompressor :: "env \<Rightarrow> string \<Rightarrow> reader \<Rightarrow> derr + (codec \<times> reader)" where
  "findDecompressor env imageURL r =
     (let ext = filepath_Ext imageURL in
      if ext = ''.bzip2'' \<or> ext = ''.bz2'' then Inr (Bzip2, bzip2_NewReader env r)
      else if ext = ''.gz'' then
        (case gzip_NewReader env r of Inl err \<Rightarrow> Inl (GzipInit err) | Inr reader \<Rightarrow> Inr (Gzip, reader))
      else if ext = ''.xz'' then
        (case xz_NewReader env r of Inl err \<Rightarrow> Inl (XzInit err) | Inr reader \<Rightarrow> Inr (Xz, reader))
      else if ext = ''.zs'' \<or> ext = ''.zst'' then
        (case zstd_NewReader env r of Inl err \<Rightarrow> Inl (ZstdInit err) | Inr reader \<Rightarrow> Inr (Zstd, reader))
      else Inl (UnknownSuffix (filepath_Ext imageURL)))"

text \<open>
  The dispatch table as the specification words it: a test on how the name ends.
\<close>

definition spec_codec_of_name :: "string \<Rightarrow> codec option" where
  "spec_codec_of_name name =
     (if suffix ''.bz2'' name \<or> suffix ''.bzip2'' name then Some Bzip2
      else if suffix ''.gz'' name then Some Gzip
      else if suffix ''.xz'' name then Some Xz
      else if suffix ''.zs'' name \<or> suffix ''.zst'' name then Some Zstd
      else None)"

definition codec_open :: "env \<Rightarrow> codec \<Rightarrow> reader \<Rightarrow> derr + (codec \<times> reader)" where
  "codec_open env c r =
     (case c of
        Bzip2 \<Rightarrow> Inr (Bzip2, bzip2_NewReader env r)
      | Gzip \<Rightarrow> (case gzip_NewReader env r of Inl err \<Rightarrow> Inl (GzipInit err) | Inr rd \<Rightarrow> Inr (Gzip, rd))
      | Xz \<Rightarrow> (case xz_NewReader env r of Inl err \<Rightarrow> Inl (XzInit err) | Inr rd \<Rightarrow> Inr (Xz, rd))
      | Zstd \<Rightarrow> (case zstd_NewReader env r of Inl err \<Rightarrow> Inl (ZstdInit err) | Inr rd \<Rightarrow> Inr (Zstd, rd)))"

subsection \<open>What a run does to the outside\<close>

text \<open>
  Log lines keep their level and their arguments; byte counts are kept as numbers, since
  \<^verbatim>\<open>prettyByteSize\<close> renders them through floating point.  The progress reporter is a
  goroutine: the events record where the main goroutine starts it and where it stops the
  ticker and sends on \<^verbatim>\<open>done\<close>; the reporter's own log lines depend on the scheduler and
  are not part of the sequence.  How the two goroutines may interleave is the subject of
  the section on the progress reporter below.
\<close>

datatype level = Debug | Info | Warn

datatype logmsg =
    BeginningWrite string string
  | FilteringPlatform string string
  | SkippingLayer string
  | FetchingLayer string int64
  | SuccessfullyProcessed nat int64
  | FailedSync
  | ErrorReprobing

datatype event =
    EvOpenFile string "open_flag list" nat
  | EvLog level logmsg
  | EvResolve string
  | EvFetchManifest
  | EvFetch string
  | EvStartReporter int64
  | EvTickerStop
  | EvSendDone
  | EvCloseDecompressor codec
  | EvCloseLayerReader string
  | EvSync
  | EvIoctl nat int
  | EvCloseFile

text \<open>
  The errors \<open>Write\<close> returns, one constructor for each \<^verbatim>\<open>return\<close> that carries one, in
  the order of the source: \<^verbatim>\<open>failed to create repository\<close>, the error of \<^verbatim>\<open>os.OpenFile\<close>
  as it is, \<^verbatim>\<open>image reference format is invalid\<close>, \<^verbatim>\<open>failed to resolve manifest\<close>,
  \<^verbatim>\<open>failed to fetch manifest\<close>, \<^verbatim>\<open>failed to parse manifest\<close>, \<^verbatim>\<open>failed to fetch layer\<close>
  with the digest, \<^verbatim>\<open>failed to create decompressor\<close>, \<^verbatim>\<open>failed to write layer to device\<close>,
  \<^verbatim>\<open>no layers with media type ... found in manifest\<close>.  An argument is the wrapped cause.
\<close>

datatype error =
    CreateRepositoryFailed string
  | OpenFailed string
  | InvalidReference
  | ResolveFailed string
  | FetchManifestFailed string
  | ParseManifestFailed string
  | LayerFetchFailed string string
  | DecompressorFailed derr
  | DeviceWriteFailed cerr
  | NoMatchingLayers string

subsection \<open>Write: one layer\<close>

text \<open>
  The locals of \<^verbatim>\<open>Write\<close> that live across the layer loop.  \<^verbatim>\<open>processedLayers\<close> is a Go
  \<^verbatim>\<open>int\<close> that counts layers held in memory; it cannot wrap and is a natural number here.
\<close>

record run_state =
  totalBytes :: int64
  processedLayers :: nat
  fileOut :: writer

text \<open>
  The choice of \<^verbatim>\<open>sourceReader\<close> and \<^verbatim>\<open>decompressor\<close> for a fetched layer: the fetched
  stream itself and no decompressor, unless the annotation map is there and has a title;
  then what \<open>findDecompressor\<close> returns for the title.
\<close>

definition layer_source ::
  "env \<Rightarrow> descriptor \<Rightarrow> reader \<Rightarrow> derr + (reader \<times> codec option)" where
  "layer_source env layer layerReader =
     (case Annotations layer of
        None \<Rightarrow> Inr (layerReader, None)
      | Some ann \<Rightarrow>
          (case ann AnnotationTitle of
             None \<Rightarrow> Inr (layerReader, None)
           | Some titleAnnotation \<Rightarrow>
               (case findDecompressor env titleAnnotation layerReader of
                  Inl err \<Rightarrow> Inl err
                | Inr (c, rd) \<Rightarrow> Inr (rd, Some c))))"

text \<open>The body of the loop for a layer that passed the media-type test.\<close>

definition Write_layer ::
  "env \<Rightarrow> repository \<Rightarrow> descriptor \<Rightarrow> run_state \<Rightarrow> error option \<times> run_state \<times> event list" where
  "Write_layer env repo layer st =
     (let evFetch = [EvLog Info (FetchingLayer (Digest layer) (Size layer)), EvFetch (Digest layer)] in
      case repo_Fetch env repo layer of
        Inl err \<Rightarrow> (Some (LayerFetchFailed (Digest layer) err), st, evFetch)
      | Inr layerReader \<Rightarrow>
          (case layer_source env layer layerReader of
             Inl err \<Rightarrow>
               (Some (DecompressorFailed err), st, evFetch @ [EvCloseLayerReader (Digest layer)])
           | Inr (sourceReader, decompressor) \<Rightarrow>
               (let progress = NewProgress (fileOut st) sourceReader;
                    evs = evFetch @ [EvStartReporter (Size layer), EvTickerStop, EvSendDone]
                          @ (case decompressor of Some c \<Rightarrow> [EvCloseDecompressor c] | None \<Rightarrow> [])
                          @ [EvCloseLayerReader (Digest layer)]
                in case io_Copy progress of
                     (written, Some err, progress') \<Rightarrow>
                       (Some (DeviceWriteFailed err), st\<lparr>fileOut := p_w progress'\<rparr>, evs)
                   | (written, None, progress') \<Rightarrow>
                       (None,
                        \<lparr>totalBytes = totalBytes st + writeBytes progress',
                         processedLayers = processedLayers st + 1,
                         fileOut = p_w progress'\<rparr>,
                        evs))))"

subsection \<open>Write: the layer loop\<close>

fun Write_layers ::
  "env \<Rightarrow> repository \<Rightarrow> descriptor list \<Rightarrow> run_state \<Rightarrow> error option \<times> run_state \<times> event list" where
  "Write_layers env repo [] st = (None, st, [])"
| "Write_layers env repo (layer # layers) st =
     (if MediaType layer \<noteq> customMediaType then
        (case Write_layers env repo layers st of
           (res, st', evs) \<Rightarrow> (res, st', EvLog Debug (SkippingLayer (MediaType layer)) # evs))
      else
        (case Write_layer env repo layer st of
           (Some err, st1, ev1) \<Rightarrow> (Some err, st1, ev1)
         | (None, st1, ev1) \<Rightarrow>
             (case Write_layers env repo layers st1 of
                (res, st2, ev2) \<Rightarrow> (res, st2, ev1 @ ev2))))"

subsection \<open>Write\<close>

text \<open>
  The statements of \<^verbatim>\<open>Write\<close> that follow \<^verbatim>\<open>defer fileOut.Close()\<close>, from the first log
  line to the final \<^verbatim>\<open>return nil\<close>.
\<close>

definition Write_body ::
  "env \<Rightarrow> repository \<Rightarrow> string \<Rightarrow> string \<Rightarrow> writer \<Rightarrow> error option \<times> writer \<times> event list" where
  "Write_body env repo sourceImage destinationDevice file =
     (let evBegin = [EvLog Info (BeginningWrite (filepath_Base sourceImage) destinationDevice)];
          tagOrDigest = Reference repo
      in if tagOrDigest = '''' then (Some InvalidReference, file, evBegin)
         else
           (let platformOS = ''linux'';
                platformArch = runtime_GOARCH env;
                filtering = (platformOS \<noteq> '''' \<and> platformArch \<noteq> '''');
                target = (if filtering then Some (platformOS, platformArch) else None);
                evResolve = evBegin
                  @ (if filtering then [EvLog Info (FilteringPlatform platformOS platformArch)] else [])
                  @ [EvResolve tagOrDigest]
            in case oras_Resolve env repo tagOrDigest target of
                 Inl err \<Rightarrow> (Some (ResolveFailed err), file, evResolve)
               | Inr manifestDescriptor \<Rightarrow>
                   (case content_FetchAll env repo manifestDescriptor of
                      Inl err \<Rightarrow> (Some (FetchManifestFailed err), file, evResolve @ [EvFetchManifest])
                    | Inr manifestBytes \<Rightarrow>
                        (case json_Unmarshal env manifestBytes of
                           Inl err \<Rightarrow> (Some (ParseManifestFailed err), file, evResolve @ [EvFetchManifest])
                         | Inr m \<Rightarrow>
                             (case Write_layers env repo (Layers m)
                                     \<lparr>totalBytes = 0, processedLayers = 0, fileOut = file\<rparr> of
                                (Some err, st, evs) \<Rightarrow>
                                  (Some err, fileOut st, evResolve @ [EvFetchManifest] @ evs)
                              | (None, st, evs) \<Rightarrow>
                                  if processedLayers st = 0 then
                                    (Some (NoMatchingLayers customMediaType), fileOut st,
                                     evResolve @ [EvFetchManifest] @ evs)
                                  else
                                    (None, fileOut st,
                                     evResolve @ [EvFetchManifest] @ evs
                                     @ [EvLog Info (SuccessfullyProcessed (processedLayers st) (totalBytes st))]
                                     @ [EvSync]
                                     @ (case file_Sync_error env of
                                          Some err \<Rightarrow> [EvLog Warn FailedSync] | None \<Rightarrow> [])
                                     @ [EvIoctl BLKRRPART 0]
                                     @ (case unix_IoctlSetInt_error env BLKRRPART 0 of
                                          Some err \<Rightarrow> [EvLog Warn ErrorReprobing] | None \<Rightarrow> [])))))))"

definition Write ::
  "env \<Rightarrow> string \<Rightarrow> string \<Rightarrow> world \<Rightarrow> error option \<times> world \<times> event list" where
  "Write env sourceImage destinationDevice wld =
     (case remote_NewRepository env sourceImage of
        Inl err \<Rightarrow> (Some (CreateRepositoryFailed err), wld, [])
      | Inr repo \<Rightarrow>
          (case os_OpenFile env destinationDevice [O_CREATE, O_WRONLY] perm_0644 wld of
             (Inl err, wld1) \<Rightarrow>
               (Some (OpenFailed err), wld1, [EvOpenFile destinationDevice [O_CREATE, O_WRONLY] perm_0644])
           | (Inr file, wld1) \<Rightarrow>
               (case Write_body env repo sourceImage destinationDevice file of
                  (res, file', evs) \<Rightarrow>
                    (res, wld1\<lparr>disk := file'\<rparr>,
                     [EvOpenFile destinationDevice [O_CREATE, O_WRONLY] perm_0644] @ evs @ [EvCloseFile]))))"

subsection \<open>The progress reporter\<close>

text \<open>
  Around the copy of a layer \<open>Write\<close> runs two goroutines.  The main goroutine starts the
  reporter, copies, and then executes
  \<^verbatim>\<open>ticker.Stop(); done <- true; if decompressor != nil { decompressor.Close() }; layerReader.Close()\<close>.
  The reporter loops on
  \<^verbatim>\<open>select { case <-done: log.Infof(...); return; case <-ticker.C: log.Infof(...) }\<close>.
  Each goroutine is at one of its program points; the ticker contributes whether a tick
  is waiting to be received.  An action is a step of one goroutine, except the rendezvous
  on the unbuffered channel \<^verbatim>\<open>done\<close>, where the send of the main goroutine and the
  receive of the reporter complete together and both goroutines go on.  The ticker can
  fire until \<^verbatim>\<open>ticker.Stop()\<close> has run, and from then on no tick is received (the module
  asks for Go 1.23, where a stopped ticker leaves no stale tick behind).  \<open>step\<close> gives
  the state after an action, \<open>None\<close> when the action cannot happen in the state, and
  \<open>schedule\<close> runs a sequence of actions: the sequences on which it succeeds are the
  interleavings the Go memory model allows.
\<close>

datatype main_pc =
    M_Copy
  | M_TickerStop
  | M_SendDone
  | M_CloseDecompressor
  | M_CloseLayerReader
  | M_Released

datatype reporter_pc = R_Select | R_LogTick | R_LogFinal | R_Returned

datatype action =
    Tick
  | CopyReturns
  | StopTicker
  | ReceiveTick
  | PeriodicReport
  | DoneRendezvous
  | FinalReport
  | CloseDecompressor
  | CloseLayerReader

record goroutines =
  main_at :: main_pc
  reporter_at :: reporter_pc
  tick_waiting :: bool
  with_decompressor :: bool

definition step :: "action \<Rightarrow> goroutines \<Rightarrow> goroutines option" where
  "step a s =
     (case a of
        Tick \<Rightarrow>
          if (main_at s = M_Copy \<or> main_at s = M_TickerStop) \<and> \<not> tick_waiting s
          then Some (s\<lparr>tick_waiting := True\<rparr>) else None
      | CopyReturns \<Rightarrow>
          if main_at s = M_Copy then Some (s\<lparr>main_at := M_TickerStop\<rparr>) else None
      | StopTicker \<Rightarrow>
          if main_at s = M_TickerStop
          then Some (s\<lparr>main_at := M_SendDone, tick_waiting := False\<rparr>) else None
      | ReceiveTick \<Rightarrow>
          if reporter_at s = R_Select \<and> tick_waiting s
          then Some (s\<lparr>reporter_at := R_LogTick, tick_waiting := False\<rparr>) else None
      | PeriodicReport \<Rightarrow>
          if reporter_at s = R_LogTick then Some (s\<lparr>reporter_at := R_Select\<rparr>) else None
      | DoneRendezvous \<Rightarrow>
          if main_at s = M_SendDone \<and> reporter_at s = R_Select
          then Some (s\<lparr>main_at := (if with_decompressor s then M_CloseDecompressor
                                    else M_CloseLayerReader),
                       reporter_at := R_LogFinal\<rparr>)
          else None
      | FinalReport \<Rightarrow>
          if reporter_at s = R_LogFinal then Some (s\<lparr>reporter_at := R_Returned\<rparr>) else None
      | CloseDecompressor \<Rightarrow>
          if main_at s = M_CloseDecompressor then Some (s\<lparr>main_at := M_CloseLayerReader\<rparr>)
          else None
      | CloseLayerReader \<Rightarrow>
          if main_at s = M_CloseLayerReader then Some (s\<lparr>main_at := M_Released\<rparr>)
          else None)"

fun schedule :: "action list \<Rightarrow> goroutines \<Rightarrow> goroutines option" where
  "schedule [] s = Some s"
| "schedule (a # as) s = (case step a s of None \<Rightarrow> None | Some s1 \<Rightarrow> schedule as s1)"

text \<open>
  The state when the copy of a layer begins: the main goroutine is in \<^verbatim>\<open>io.Copy\<close>, the
  reporter waits in its \<^verbatim>\<open>select\<close>, no tick has come.
\<close>

definition layer_copy_start :: "bool \<Rightarrow> goroutines" where
  "layer_copy_start dec =
     \<lparr>main_at = M_Copy, reporter_at = R_Select, tick_waiting = False, with_decompressor = dec\<rparr>"

text \<open>
  The reporter has received the stop exactly when the main goroutine is past its send:
  the main goroutine is at or past its \<^verbatim>\<open>Close\<close> calls and the reporter has left its
  \<^verbatim>\<open>select\<close> through the \<^verbatim>\<open>done\<close> case, or neither.
\<close>

definition stop_received :: "goroutines \<Rightarrow> bool" where
  "stop_received s =
     (if main_at s = M_CloseDecompressor \<or> main_at s = M_CloseLayerReader \<or> main_at s = M_Released
      then reporter_at s = R_LogFinal \<or> reporter_at s = R_Returned
      else reporter_at s = R_Select \<or> reporter_at s = R_LogTick)"

subsection \<open>Reading a run\<close>

text \<open>
  Notions used to state properties of a run: the layers that pass the media-type test,
  the skip lines among the events, the digests fetched, in order.
\<close>

definition recognized :: "descriptor \<Rightarrow> bool" where
  "recognized layer = (MediaType layer = customMediaType)"

fun is_skip_log :: "event \<Rightarrow> bool" where
  "is_skip_log (EvLog Debug (SkippingLayer mt)) = True"
| "is_skip_log e = False"

fun fetched :: "event list \<Rightarrow> string list" where
  "fetched [] = []"
| "fetched (EvFetch d # evs) = d # fetched evs"
| "fetched (e # evs) = fetched evs"

fun skipped :: "event list \<Rightarrow> string list" where
  "skipped [] = []"
| "skipped (EvLog Debug (SkippingLayer mt) # evs) = mt # skipped evs"
| "skipped (e # evs) = skipped evs"

fun is_warning :: "event \<Rightarrow> bool" where
  "is_warning (EvLog Warn m) = True"
| "is_warning e = False"

text \<open>
  The steps of \<open>Write\<close> before the layer loop all succeed, and give the repository
  \<open>repo\<close> and the manifest \<open>m\<close>.
\<close>

definition setup_succeeds :: "env \<Rightarrow> string \<Rightarrow> string \<Rightarrow> repository \<Rightarrow> manifest \<Rightarrow> bool" where
  "setup_succeeds env sourceImage destinationDevice repo m =
     (remote_NewRepository env sourceImage = Inr repo \<and>
      os_OpenFile_error env destinationDevice = None \<and>
      Reference repo \<noteq> '''' \<and>
      (\<exists>d bs. oras_Resolve env repo (Reference repo)
                 (if runtime_GOARCH env \<noteq> '''' then Some (''linux'', runtime_GOARCH env) else None)
               = Inr d \<and>
              content_FetchAll env repo d = Inr bs \<and>
              json_Unmarshal env bs = Inr m))"

text \<open>The events of such a run before the layer loop, and those of the finalizer.\<close>

definition events_before_layers :: "env \<Rightarrow> string \<Rightarrow> string \<Rightarrow> repository \<Rightarrow> event list" where
  "events_before_layers env sourceImage destinationDevice repo =
     [EvOpenFile destinationDevice [O_CREATE, O_WRONLY] perm_0644,
      EvLog Info (BeginningWrite (filepath_Base sourceImage) destinationDevice)]
     @ (if runtime_GOARCH env \<noteq> ''''
        then [EvLog Info (FilteringPlatform ''linux'' (runtime_GOARCH env))] else [])
     @ [EvResolve (Reference repo), EvFetchManifest]"

definition events_finalize :: "env \<Rightarrow> event list" where
  "events_finalize env =
     [EvSync]
     @ (case file_Sync_error env of Some err \<Rightarrow> [EvLog Warn FailedSync] | None \<Rightarrow> [])
     @ [EvIoctl BLKRRPART 0]
     @ (case unix_IoctlSetInt_error env BLKRRPART 0 of
          Some err \<Rightarrow> [EvLog Warn ErrorReprobing] | None \<Rightarrow> [])"

subsection \<open>Sample values\<close>

text \<open>
  Concrete readers and writers on which the theorems are instantiated: a writer that
  takes every chunk whole, as a file on a healthy device does; a writer that takes one
  byte of each chunk and reports no error; a writer that answers every call with
  \<open>(-1, nil)\<close>; a source of three bytes split over its reads; a source whose first
  read returns the count \<open>-1\<close>.
\<close>

definition whole_writer :: writer where
  "whole_writer = \<lparr>wr_accept = (\<lambda>sofar b. (int (length b), None)), wr_written = []\<rparr>"

definition one_byte_writer :: writer where
  "one_byte_writer = \<lparr>wr_accept = (\<lambda>sofar b. (min 1 (int (length b)), None)), wr_written = []\<rparr>"

definition negative_writer :: writer where
  "negative_writer = \<lparr>wr_accept = (\<lambda>sofar b. (- 1, None)), wr_written = []\<rparr>"

definition negative_source :: reader where
  "negative_source = [(Negative 0, None), (Bytes [4], Some EOF)]"

definition chunked_source :: reader where
  "chunked_source = [(Bytes [1, 2], None), (Bytes [], None), (Bytes [3], Some EOF)]"

text \<open>
  Layers, in the manner of the end-to-end scenarios: a recognized layer titled
  \<open>disk.raw.gz\<close> with gzip content; a layer of another media type; a recognized layer
  titled \<open>disk.raw.xz\<close> whose content is gzip all the same; a recognized layer without
  annotations; a recognized layer without annotations whose download breaks off; a
  recognized layer whose blob the registry does not have.
\<close>

definition sample_layer_gz :: descriptor where
  "sample_layer_gz =
     \<lparr>MediaType = customMediaType, Digest = ''sha256:aa'', Size = 4,
      Annotations = Some [AnnotationTitle \<mapsto> ''disk.raw.gz'']\<rparr>"

definition sample_layer_config :: descriptor where
  "sample_layer_config =
     \<lparr>MediaType = ''application/vnd.oci.image.config.v1+json'', Digest = ''sha256:bb'', Size = 2,
      Annotations = None\<rparr>"

definition sample_layer_xz :: descriptor where
  "sample_layer_xz =
     \<lparr>MediaType = customMediaType, Digest = ''sha256:cc'', Size = 4,
      Annotations = Some [AnnotationTitle \<mapsto> ''disk.raw.xz'']\<rparr>"

definition sample_layer_raw :: descriptor where
  "sample_layer_raw =
     \<lparr>MediaType = customMediaType, Digest = ''sha256:dd'', Size = 3, Annotations = None\<rparr>"

definition sample_layer_broken :: descriptor where
  "sample_layer_broken =
     \<lparr>MediaType = customMediaType, Digest = ''sha256:ee'', Size = 9, Annotations = Some Map.empty\<rparr>"

definition sample_layer_missing :: descriptor where
  "sample_layer_missing =
     \<lparr>MediaType = customMediaType, Digest = ''sha256:ff'', Size = 5, Annotations = None\<rparr>"

text \<open>
  Collaborators for a manifest with the given layers.  The registry knows the image
  \<open>reg.example/disk\<close>; only \<open>/dev/sda\<close> can be opened; the blob \<open>sha256:ff\<close> cannot
  be fetched; gzip and xz check the first bytes of the stream; the flush and the re-read
  of the partition table both fail.
\<close>

definition sample_env :: "descriptor list \<Rightarrow> env" where
  "sample_env layers =
     \<lparr>runtime_GOARCH = ''amd64'',
      remote_NewRepository =
        (\<lambda>ref. if ref = ''reg.example/disk:v1'' then Inr \<lparr>Reference = ''v1''\<rparr>
              else if ref = ''reg.example/disk'' then Inr \<lparr>Reference = ''''\<rparr>
              else Inl ''invalid reference''),
      os_OpenFile_error = (\<lambda>name. if name = ''/dev/sda'' then None else Some ''permission denied''),
      oras_Resolve =
        (\<lambda>repo ref target.
           Inr \<lparr>MediaType = ''application/vnd.oci.image.manifest.v1+json'', Digest = ''sha256:00'',
                Size = 2, Annotations = None\<rparr>),
      content_FetchAll = (\<lambda>repo d. Inr [0x7b, 0x7d]),
      json_Unmarshal = (\<lambda>bs. Inr \<lparr>Layers = layers\<rparr>),
      repo_Fetch =
        (\<lambda>repo d. if Digest d = ''sha256:dd'' then Inr [(Bytes [1, 2], None), (Bytes [3], Some EOF)]
                 else if Digest d = ''sha256:ee''
                   then Inr [(Bytes [5, 6], None), (Bytes [7], Some (ReadErr ''connection reset''))]
                 else if Digest d = ''sha256:ff'' then Inl ''blob unknown''
                 else Inr [(Bytes [0x1f, 0x8b, 8, 0], Some EOF)]),
      bzip2_NewReader = (\<lambda>r. r),
      gzip_NewReader =
        (\<lambda>r. if take 2 (stream_bytes r) = [0x1f, 0x8b]
             then Inr [(Bytes [0x44, 0x49], None), (Bytes [0x53, 0x4b], None)]
             else Inl ''gzip: invalid header''),
      xz_NewReader =
        (\<lambda>r. if take 2 (stream_bytes r) = [0xfd, 0x37]
             then Inr [(Bytes [0x44, 0x49], None), (Bytes [0x53, 0x4b], None)]
             else Inl ''xz: invalid header''),
      zstd_NewReader = (\<lambda>r. Inr r),
      file_Sync_error = Some ''input/output error'',
      unix_IoctlSetInt_error = (\<lambda>req arg. Some ''inappropriate ioctl for device'')\<rparr>"

definition sample_world :: world where
  "sample_world = \<lparr>paths = {}, disk = whole_writer\<rparr>"

section \<open>Theorems\<close>

subsection \<open>The extension scan\<close>

lemma Ext_scan_skip:
  "k \<le> n \<Longrightarrow> \<forall>j. k \<le> j \<and> j < n \<longrightarrow> path ! j \<noteq> CHR ''.'' \<and> path ! j \<noteq> CHR ''/'' \<Longrightarrow>
   Ext_scan path n = Ext_scan path k"
proof (induction n)
  case 0
  then show ?case by simp
next
  case (Suc n)
  show ?case
  proof (cases "k = Suc n")
    case True
    then show ?thesis by simp
  next
    case False
    with Suc.prems have kn: "k \<le> n" by simp
    from Suc.prems kn have here: "path ! n \<noteq> CHR ''.'' \<and> path ! n \<noteq> CHR ''/''" by simp
    from Suc.prems have "\<forall>j. k \<le> j \<and> j < n \<longrightarrow> path ! j \<noteq> CHR ''.'' \<and> path ! j \<noteq> CHR ''/''"
      by simp
    with Suc.IH kn have "Ext_scan path n = Ext_scan path k" by blast
    with here show ?thesis by simp
  qed
qed

lemma filepath_Ext_of_suffix:
  assumes suf: "suffix (CHR ''.'' # t) path"
    and plain: "\<forall>c \<in> set t. c \<noteq> CHR ''.'' \<and> c \<noteq> CHR ''/''"
  shows "filepath_Ext path = CHR ''.'' # t"
proof -
  from suf obtain pre where path: "path = pre @ CHR ''.'' # t"
    by (auto simp: suffix_def)
  have "\<forall>j. Suc (length pre) \<le> j \<and> j < length path \<longrightarrow>
          path ! j \<noteq> CHR ''.'' \<and> path ! j \<noteq> CHR ''/''"
  proof (intro allI impI)
    fix j assume j: "Suc (length pre) \<le> j \<and> j < length path"
    then have "path ! j = t ! (j - Suc (length pre))"
      by (simp add: path nth_append nth_Cons')
    moreover from j have "j - Suc (length pre) < length t" by (auto simp: path)
    ultimately have "path ! j \<in> set t" by simp
    with plain show "path ! j \<noteq> CHR ''.'' \<and> path ! j \<noteq> CHR ''/''" by blast
  qed
  then have "Ext_scan path (length path) = Ext_scan path (Suc (length pre))"
    by (intro Ext_scan_skip) (simp_all add: path)
  also have "\<dots> = CHR ''.'' # t" by (simp add: path)
  finally show ?thesis by (simp add: filepath_Ext_def)
qed

lemma Ext_scan_suffix:
  "k \<le> length path \<Longrightarrow> Ext_scan path k = [] \<or> suffix (Ext_scan path k) path"
proof (induction k)
  case 0
  show ?case by simp
next
  case (Suc k)
  then have IH: "Ext_scan path k = [] \<or> suffix (Ext_scan path k) path" by simp
  have "suffix (drop k path) path" by (rule suffix_drop)
  with IH show ?case by (simp del: Ext_scan.simps add: Ext_scan.simps(2) [of path k])
qed

lemma filepath_Ext_suffix: "filepath_Ext path = e \<Longrightarrow> e \<noteq> [] \<Longrightarrow> suffix e path"
  using Ext_scan_suffix [of "length path" path] by (simp add: filepath_Ext_def)

lemma filepath_Ext_iff:
  assumes "\<forall>c \<in> set t. c \<noteq> CHR ''.'' \<and> c \<noteq> CHR ''/''"
  shows "filepath_Ext path = CHR ''.'' # t \<longleftrightarrow> suffix (CHR ''.'' # t) path"
proof
  assume "filepath_Ext path = CHR ''.'' # t"
  then show "suffix (CHR ''.'' # t) path" by (rule filepath_Ext_suffix) simp
next
  assume "suffix (CHR ''.'' # t) path"
  then show "filepath_Ext path = CHR ''.'' # t" using assms by (rule filepath_Ext_of_suffix)
qed

lemma Ext_bz2: "filepath_Ext n = ''.bz2'' \<longleftrightarrow> suffix ''.bz2'' n"
  by (rule filepath_Ext_iff) simp

lemma Ext_bzip2: "filepath_Ext n = ''.bzip2'' \<longleftrightarrow> suffix ''.bzip2'' n"
  by (rule filepath_Ext_iff) simp

lemma Ext_gz: "filepath_Ext n = ''.gz'' \<longleftrightarrow> suffix ''.gz'' n"
  by (rule filepath_Ext_iff) simp

lemma Ext_xz: "filepath_Ext n = ''.xz'' \<longleftrightarrow> suffix ''.xz'' n"
  by (rule filepath_Ext_iff) simp

lemma Ext_zs: "filepath_Ext n = ''.zs'' \<longleftrightarrow> suffix ''.zs'' n"
  by (rule filepath_Ext_iff) simp

lemma Ext_zst: "filepath_Ext n = ''.zst'' \<longleftrightarrow> suffix ''.zst'' n"
  by (rule filepath_Ext_iff) simp

text \<open>
  The cases of \<^verbatim>\<open>Test_findDecompressor\<close> that do not depend on the stream content.
\<close>

lemma test_unknown_extension:
  "findDecompressor env ''image.raw.abc'' r = Inl (UnknownSuffix ''.abc'')"
  by (simp add: findDecompressor_def filepath_Ext_def)

lemma test_no_extension:
  "findDecompressor env ''image.raw'' r = Inl (UnknownSuffix ''.raw'')"
  by (simp add: findDecompressor_def filepath_Ext_def)

lemma test_bzip2:
  "findDecompressor env ''image.raw.bz2'' r = Inr (Bzip2, bzip2_NewReader env r)"
  by (simp add: findDecompressor_def filepath_Ext_def)

lemma findDecompressor_by_suffix:
  "findDecompressor env name r =
     (case spec_codec_of_name name of
        Some c \<Rightarrow> codec_open env c r
      | None \<Rightarrow> Inl (UnknownSuffix (filepath_Ext name)))"
  unfolding findDecompressor_def spec_codec_of_name_def codec_open_def Let_def
  by (simp add: Ext_bz2 Ext_bzip2 Ext_gz Ext_xz Ext_zs Ext_zst)

subsection \<open>C2: suffix dispatch\<close>

text \<open>
  C2.  For every name, \<open>findDecompressor\<close> selects the codec by how the name ends, compared
  byte for byte: \<open>.bz2\<close> and \<open>.bzip2\<close> open a bzip2 reader, \<open>.gz\<close> a gzip reader, \<open>.xz\<close> an
  xz reader, \<open>.zs\<close> and \<open>.zst\<close> a zstd reader (for the last three the result is whatever the
  library constructor returns for the stream: the reader, or its error wrapped), and every
  other name, with another suffix or with none, gives the unknown-suffix error and no
  reader.  The match is case-sensitive: \<open>IMAGE.GZ\<close> is an unknown suffix.
\<close>

theorem findDecompressor_dispatch:
  "findDecompressor env name r =
     (case spec_codec_of_name name of
        Some c \<Rightarrow> codec_open env c r
      | None \<Rightarrow> Inl (UnknownSuffix (filepath_Ext name)))
   \<and> findDecompressor env ''IMAGE.GZ'' r = Inl (UnknownSuffix ''.GZ'')"
proof
  show "findDecompressor env name r =
     (case spec_codec_of_name name of
        Some c \<Rightarrow> codec_open env c r
      | None \<Rightarrow> Inl (UnknownSuffix (filepath_Ext name)))"
    by (rule findDecompressor_by_suffix)
  show "findDecompressor env ''IMAGE.GZ'' r = Inl (UnknownSuffix ''.GZ'')"
    by (simp add: findDecompressor_def filepath_Ext_def)
qed

subsection \<open>The copy loop\<close>

lemma io_Copy_loop_Nil:
  "p_r p = [] \<Longrightarrow>
   io_Copy_loop p written = (written, None, p\<lparr>p_r := []\<rparr>)"
  by (subst io_Copy_loop.simps) (simp add: Progress_Read_def reader_Read_def)

lemma io_Copy_loop_empty_continue:
  "p_r p = (c, None) # rest \<Longrightarrow> chunk_bytes c = [] \<Longrightarrow>
   io_Copy_loop p written =
     io_Copy_loop (p\<lparr>p_r := rest, rBytes := rBytes p + of_int (chunk_count c)\<rparr>) written"
  by (subst io_Copy_loop.simps) (cases c; simp add: Progress_Read_def reader_Read_def)

lemma io_Copy_loop_empty_stop:
  "p_r p = (c, Some e) # rest \<Longrightarrow> chunk_bytes c = [] \<Longrightarrow>
   io_Copy_loop p written =
     (written, read_error e, p\<lparr>p_r := rest, rBytes := rBytes p + of_int (chunk_count c)\<rparr>)"
  by (subst io_Copy_loop.simps)
     (cases c; simp add: Progress_Read_def reader_Read_def read_error_def split: rerr.splits)

lemma io_Copy_loop_chunk:
  "p_r p = (Bytes bs, er) # rest \<Longrightarrow> bs \<noteq> [] \<Longrightarrow>
   wr_accept (p_w p) (wr_written (p_w p)) bs = (n, ew0) \<Longrightarrow>
   io_Copy_loop p written =
     (let p2 = p\<lparr>p_r := rest, rBytes := rBytes p + of_nat (length bs),
                   p_w := (p_w p)\<lparr>wr_written := wr_written (p_w p) @ take (nat n) bs\<rparr>,
                   wBytes := wBytes p + of_int n\<rparr>
      in if n < 0 \<or> int (length bs) < n then
           (written,
            (case ew0 of None \<Rightarrow> Some ErrInvalidWrite | Some e \<Rightarrow> Some (WriteFailed e)), p2)
         else (case ew0 of
                 Some e \<Rightarrow> (written + of_int n, Some (WriteFailed e), p2)
               | None \<Rightarrow>
                   if int (length bs) \<noteq> n then (written + of_int n, Some ErrShortWrite, p2)
                   else (case er of
                           None \<Rightarrow> io_Copy_loop p2 (written + of_int n)
                         | Some EOF \<Rightarrow> (written + of_int n, None, p2)
                         | Some (ReadErr e) \<Rightarrow> (written + of_int n, Some (ReadFailed e), p2))))"
  by (subst io_Copy_loop.simps)
     (simp add: Progress_Read_def reader_Read_def Progress_Write_def writer_Write_def Let_def
           split: option.splits)

lemma io_Copy_loop_continue:
  assumes "p_r p = (Bytes bs, None) # rest" "bs \<noteq> []"
    and "wr_accept (p_w p) (wr_written (p_w p)) bs = (int (length bs), None)"
  shows "io_Copy_loop p written =
     io_Copy_loop (p\<lparr>p_r := rest, rBytes := rBytes p + of_nat (length bs),
                   p_w := (p_w p)\<lparr>wr_written := wr_written (p_w p) @ bs\<rparr>,
                   wBytes := wBytes p + of_nat (length bs)\<rparr>)
                  (written + of_nat (length bs))"
  using io_Copy_loop_chunk [OF assms, of written] by (simp add: Let_def)

lemma io_Copy_loop_stop:
  assumes "p_r p = (Bytes bs, er) # rest" "bs \<noteq> []"
    and "wr_accept (p_w p) (wr_written (p_w p)) bs = (n, ew0)"
    and stop: "\<not> (n = int (length bs) \<and> ew0 = None \<and> er = None)"
  shows "io_Copy_loop p written =
     (written + (if n < 0 \<or> int (length bs) < n then 0 else of_int n), chunk_error bs n ew0 er,
      p\<lparr>p_r := rest, rBytes := rBytes p + of_nat (length bs),
        p_w := (p_w p)\<lparr>wr_written := wr_written (p_w p) @ take (nat n) bs\<rparr>,
        wBytes := wBytes p + of_int n\<rparr>)"
proof (cases er)
  case None
  with stop have "n \<noteq> int (length bs) \<or> ew0 \<noteq> None" by simp
  then show ?thesis
    using io_Copy_loop_chunk [OF assms(1-3), of written] None
    by (cases ew0) (simp_all add: Let_def chunk_error_def)
next
  case (Some e)
  then show ?thesis
    using io_Copy_loop_chunk [OF assms(1-3), of written]
    by (cases ew0; cases e) (simp_all add: Let_def chunk_error_def)
qed

text \<open>
  One induction rule for every property of the loop: the five ways an iteration can go.
\<close>

lemma io_Copy_loop_induct [case_names exhausted empty_continue empty_stop continue stop]:
  assumes exhausted: "\<And>p written. p_r p = [] \<Longrightarrow>
      io_Copy_loop p written = (written, None, p\<lparr>p_r := []\<rparr>) \<Longrightarrow> P p written"
    and empty_continue: "\<And>p written c rest p1.
      p_r p = (c, None) # rest \<Longrightarrow> chunk_bytes c = [] \<Longrightarrow>
      p1 = p\<lparr>p_r := rest, rBytes := rBytes p + of_int (chunk_count c)\<rparr> \<Longrightarrow>
      io_Copy_loop p written = io_Copy_loop p1 written \<Longrightarrow> P p1 written \<Longrightarrow> P p written"
    and empty_stop: "\<And>p written c rest e.
      p_r p = (c, Some e) # rest \<Longrightarrow> chunk_bytes c = [] \<Longrightarrow>
      io_Copy_loop p written =
        (written, read_error e, p\<lparr>p_r := rest, rBytes := rBytes p + of_int (chunk_count c)\<rparr>) \<Longrightarrow>
      P p written"
    and continue: "\<And>p written bs rest p2 written2.
      p_r p = (Bytes bs, None) # rest \<Longrightarrow> bs \<noteq> [] \<Longrightarrow>
      wr_accept (p_w p) (wr_written (p_w p)) bs = (int (length bs), None) \<Longrightarrow>
      p2 = p\<lparr>p_r := rest, rBytes := rBytes p + of_nat (length bs),
              p_w := (p_w p)\<lparr>wr_written := wr_written (p_w p) @ bs\<rparr>,
              wBytes := wBytes p + of_nat (length bs)\<rparr> \<Longrightarrow>
      written2 = written + of_nat (length bs) \<Longrightarrow>
      io_Copy_loop p written = io_Copy_loop p2 written2 \<Longrightarrow>
      P p2 written2 \<Longrightarrow> P p written"
    and stop: "\<And>p written bs er rest n ew0.
      p_r p = (Bytes bs, er) # rest \<Longrightarrow> bs \<noteq> [] \<Longrightarrow>
      wr_accept (p_w p) (wr_written (p_w p)) bs = (n, ew0) \<Longrightarrow>
      \<not> (n = int (length bs) \<and> ew0 = None \<and> er = None) \<Longrightarrow>
      io_Copy_loop p written =
        (written + (if n < 0 \<or> int (length bs) < n then 0 else of_int n),
         chunk_error bs n ew0 er,
         p\<lparr>p_r := rest, rBytes := rBytes p + of_nat (length bs),
           p_w := (p_w p)\<lparr>wr_written := wr_written (p_w p) @ take (nat n) bs\<rparr>,
           wBytes := wBytes p + of_int n\<rparr>) \<Longrightarrow>
      P p written"
  shows "P p written"
proof -
  have "\<And>p written. p_r p = rd \<Longrightarrow> P p written" for rd
  proof (induction rd)
    case Nil
    then show ?case by (intro exhausted io_Copy_loop_Nil)
  next
    case (Cons x rest)
    obtain c er where x: "x = (c, er)" by (cases x)
    with Cons.prems have script: "p_r p = (c, er) # rest" by simp
    show ?case
    proof (cases "chunk_bytes c = []")
      case True
      show ?thesis
      proof (cases er)
        case None
        have scr: "p_r p = (c, None) # rest" using script None by simp
        have "P (p\<lparr>p_r := rest, rBytes := rBytes p + of_int (chunk_count c)\<rparr>) written"
          by (rule Cons.IH) simp
        then show ?thesis
          by (rule empty_continue [OF scr True refl io_Copy_loop_empty_continue [OF scr True]])
      next
        case (Some e)
        have scr: "p_r p = (c, Some e) # rest" using script Some by simp
        show ?thesis by (rule empty_stop [OF scr True io_Copy_loop_empty_stop [OF scr True]])
      qed
    next
      case False
      then obtain bs where c: "c = Bytes bs" and ne: "bs \<noteq> []" by (cases c) simp_all
      from script c have script: "p_r p = (Bytes bs, er) # rest" by simp
      obtain n ew0 where acc: "wr_accept (p_w p) (wr_written (p_w p)) bs = (n, ew0)"
        by (cases "wr_accept (p_w p) (wr_written (p_w p)) bs")
      show ?thesis
      proof (cases "n = int (length bs) \<and> ew0 = None \<and> er = None")
        case True
        let ?p2 = "p\<lparr>p_r := rest, rBytes := rBytes p + of_nat (length bs),
              p_w := (p_w p)\<lparr>wr_written := wr_written (p_w p) @ bs\<rparr>,
              wBytes := wBytes p + of_nat (length bs)\<rparr>"
        have scr: "p_r p = (Bytes bs, None) # rest" using script True by simp
        have acc': "wr_accept (p_w p) (wr_written (p_w p)) bs = (int (length bs), None)"
          using acc True by simp
        have "P ?p2 (written + of_nat (length bs))" by (rule Cons.IH) simp
        then show ?thesis
          by (rule continue [OF scr ne acc' refl refl io_Copy_loop_continue [OF scr ne acc']])
      next
        case stopping: False
        show ?thesis
          by (rule stop [OF script ne acc stopping io_Copy_loop_stop [OF script ne acc stopping]])
      qed
    qed
  qed
  then show ?thesis by simp
qed

lemma chunk_error_None:
  "chunk_error bs n ew0 er = None \<Longrightarrow> \<not> (n = int (length bs) \<and> ew0 = None \<and> er = None) \<Longrightarrow>
   n = int (length bs) \<and> ew0 = None \<and> er = Some EOF"
  by (auto simp: chunk_error_def split: if_splits option.splits rerr.splits)

lemma read_error_None: "read_error e = None \<Longrightarrow> e = EOF"
  by (simp add: read_error_def split: rerr.splits)

lemma stream_bytes_empty_chunk:
  "chunk_bytes c = [] \<Longrightarrow> stream_bytes ((c, er) # rest) = (case er of None \<Rightarrow> stream_bytes rest | Some e \<Rightarrow> [])"
  by (cases er) simp_all

text \<open>The copy only appends to the writer and leaves its behaviour alone.\<close>

lemma io_Copy_loop_frame_aux:
  "wr_accept (p_w (snd (snd (io_Copy_loop p written)))) = wr_accept (p_w p) \<and>
   prefix (wr_written (p_w p)) (wr_written (p_w (snd (snd (io_Copy_loop p written)))))"
proof (induction p written rule: io_Copy_loop_induct)
  case (continue p written bs rest p2 written2)
  then show ?case by (auto dest: append_prefixD)
qed simp_all

lemma io_Copy_loop_frame:
  "io_Copy_loop p written = (written', err, p') \<Longrightarrow>
   wr_accept (p_w p') = wr_accept (p_w p) \<and> prefix (wr_written (p_w p)) (wr_written (p_w p'))"
  using io_Copy_loop_frame_aux [of p written] by simp

text \<open>A copy that returns no error has moved the whole stream.\<close>

lemma io_Copy_loop_success_aux:
  "fst (snd (io_Copy_loop p written)) = None \<longrightarrow>
   wr_written (p_w (snd (snd (io_Copy_loop p written)))) = wr_written (p_w p) @ stream_bytes (p_r p) \<and>
   stream_end (p_r p) = EOF \<and>
   wBytes (snd (snd (io_Copy_loop p written))) = wBytes p + of_nat (length (stream_bytes (p_r p))) \<and>
   rBytes (snd (snd (io_Copy_loop p written))) = rBytes p + of_int (stream_count (p_r p))"
proof (induction p written rule: io_Copy_loop_induct)
  case (exhausted p written)
  then show ?case by simp
next
  case (empty_continue p written c rest p1)
  then show ?case by simp
next
  case (empty_stop p written c rest e)
  then show ?case by (auto dest: read_error_None)
next
  case (continue p written bs rest p2 written2)
  then show ?case by simp
next
  case (stop p written bs er rest n ew0)
  then show ?case by (auto dest!: chunk_error_None)
qed

lemma io_Copy_loop_success:
  "io_Copy_loop p written = (written', None, p') \<Longrightarrow>
   wr_written (p_w p') = wr_written (p_w p) @ stream_bytes (p_r p) \<and>
   stream_end (p_r p) = EOF \<and>
   wBytes p' = wBytes p + of_nat (length (stream_bytes (p_r p))) \<and>
   rBytes p' = rBytes p + of_int (stream_count (p_r p))"
  using io_Copy_loop_success_aux [of p written] by simp

lemma stream_count_in_contract:
  "counts_in_contract rd \<Longrightarrow> stream_count rd = int (length (stream_bytes rd))"
proof (induction rd rule: stream_count.induct)
  case (2 c rest)
  then show ?case by (cases c) (simp_all add: counts_in_contract_def)
next
  case (3 c e rest)
  then show ?case by (cases c) (simp_all add: counts_in_contract_def)
qed simp

text \<open>A writer that takes every chunk whole: the copy ends as the stream ends.\<close>

lemma chunk_error_full:
  "er \<noteq> None \<Longrightarrow> chunk_error bs (int (length bs)) None er = read_error (the er)"
  by (cases er) (auto simp: chunk_error_def read_error_def split: rerr.splits)

lemma io_Copy_loop_full_aux:
  "(\<forall>sofar b. wr_accept (p_w p) sofar b = (int (length b), None)) \<longrightarrow>
   fst (snd (io_Copy_loop p written)) = read_error (stream_end (p_r p)) \<and>
   wr_written (p_w (snd (snd (io_Copy_loop p written)))) = wr_written (p_w p) @ stream_bytes (p_r p) \<and>
   wBytes (snd (snd (io_Copy_loop p written))) = wBytes p + of_nat (length (stream_bytes (p_r p))) \<and>
   rBytes (snd (snd (io_Copy_loop p written))) = rBytes p + of_int (stream_count (p_r p))"
proof (induction p written rule: io_Copy_loop_induct)
  case (exhausted p written)
  then show ?case by (simp add: read_error_def)
next
  case (empty_continue p written c rest p1)
  then show ?case by simp
next
  case (empty_stop p written c rest e)
  then show ?case by simp
next
  case (continue p written bs rest p2 written2)
  then show ?case by simp
next
  case (stop p written bs er rest n ew0)
  show ?case
  proof
    assume full: "\<forall>sofar b. wr_accept (p_w p) sofar b = (int (length b), None)"
    with stop have n: "n = int (length bs)" "ew0 = None" by simp_all
    with stop obtain e where er: "er = Some e" by (cases er) auto
    show "fst (snd (io_Copy_loop p written)) = read_error (stream_end (p_r p)) \<and>
      wr_written (p_w (snd (snd (io_Copy_loop p written)))) = wr_written (p_w p) @ stream_bytes (p_r p) \<and>
      wBytes (snd (snd (io_Copy_loop p written))) = wBytes p + of_nat (length (stream_bytes (p_r p))) \<and>
      rBytes (snd (snd (io_Copy_loop p written))) = rBytes p + of_int (stream_count (p_r p))"
      using stop(1,5) n er by (simp add: chunk_error_full)
  qed
qed

text \<open>
  A writer whose counts keep the contract, \<open>0 \<le> n \<le> len(b)\<close>: whatever the outcome,
  the write counter has advanced by the number of bytes the writer took, and those bytes
  are the first bytes of the stream; not all of them when the copy ends on a short write.
\<close>

lemma chunk_error_short:
  "chunk_error bs n ew0 er = Some ErrShortWrite \<Longrightarrow> 0 \<le> n \<and> n < int (length bs)"
  by (auto simp: chunk_error_def read_error_def split: if_splits option.splits rerr.splits)

lemma read_error_not_short: "read_error e \<noteq> Some ErrShortWrite"
  by (simp add: read_error_def split: rerr.splits)

lemma io_Copy_loop_honest_aux:
  "(\<forall>sofar b. 0 \<le> fst (wr_accept (p_w p) sofar b) \<and>
              fst (wr_accept (p_w p) sofar b) \<le> int (length b)) \<longrightarrow>
   (\<exists>ys. wr_written (p_w (snd (snd (io_Copy_loop p written)))) = wr_written (p_w p) @ ys \<and>
         prefix ys (stream_bytes (p_r p)) \<and>
         wBytes (snd (snd (io_Copy_loop p written))) = wBytes p + of_nat (length ys) \<and>
         (fst (snd (io_Copy_loop p written)) = Some ErrShortWrite \<longrightarrow>
            length ys < length (stream_bytes (p_r p))))"
proof (induction p written rule: io_Copy_loop_induct)
  case (exhausted p written)
  then show ?case by simp
next
  case (empty_continue p written c rest p1)
  then show ?case by simp
next
  case (empty_stop p written c rest e)
  then show ?case by (simp add: read_error_not_short)
next
  case (continue p written bs rest p2 written2)
  show ?case
  proof
    assume honest: "\<forall>sofar b. 0 \<le> fst (wr_accept (p_w p) sofar b) \<and>
              fst (wr_accept (p_w p) sofar b) \<le> int (length b)"
    with continue obtain ys where
      ys: "wr_written (p_w (snd (snd (io_Copy_loop p2 written2)))) = wr_written (p_w p2) @ ys"
          "prefix ys (stream_bytes rest)"
          "wBytes (snd (snd (io_Copy_loop p2 written2))) = wBytes p2 + of_nat (length ys)"
          "fst (snd (io_Copy_loop p2 written2)) = Some ErrShortWrite \<longrightarrow>
             length ys < length (stream_bytes rest)"
      by auto
    let ?zs = "bs @ ys"
    have "wr_written (p_w (snd (snd (io_Copy_loop p written)))) = wr_written (p_w p) @ ?zs"
      using continue(4,6) ys(1) by simp
    moreover have "prefix ?zs (stream_bytes (p_r p))"
      using continue(1) ys(2) by simp
    moreover have "wBytes (snd (snd (io_Copy_loop p written))) = wBytes p + of_nat (length ?zs)"
      using continue(4,6) ys(3) by simp
    moreover have "fst (snd (io_Copy_loop p written)) = Some ErrShortWrite \<longrightarrow>
            length ?zs < length (stream_bytes (p_r p))"
      using continue(1,6) ys(4) by simp
    ultimately show "\<exists>ys. wr_written (p_w (snd (snd (io_Copy_loop p written)))) = wr_written (p_w p) @ ys \<and>
         prefix ys (stream_bytes (p_r p)) \<and>
         wBytes (snd (snd (io_Copy_loop p written))) = wBytes p + of_nat (length ys) \<and>
         (fst (snd (io_Copy_loop p written)) = Some ErrShortWrite \<longrightarrow>
            length ys < length (stream_bytes (p_r p)))"
      by blast
  qed
next
  case (stop p written bs er rest n ew0)
  show ?case
  proof
    assume honest: "\<forall>sofar b. 0 \<le> fst (wr_accept (p_w p) sofar b) \<and>
              fst (wr_accept (p_w p) sofar b) \<le> int (length b)"
    with stop(3) have n: "0 \<le> n" "n \<le> int (length bs)" by (metis fst_conv)+
    then have len: "length (take (nat n) bs) = nat n" by simp
    have whole: "prefix bs (stream_bytes (p_r p))"
      using stop(1) by (cases er) simp_all
    have pre: "prefix (take (nat n) bs) (stream_bytes (p_r p))"
    proof -
      have "prefix (take (nat n) bs) bs" by (rule take_is_prefix)
      then show ?thesis using whole by (rule prefix_order.order_trans)
    qed
    have "wr_written (p_w (snd (snd (io_Copy_loop p written)))) = wr_written (p_w p) @ take (nat n) bs"
      using stop(5) by simp
    moreover have "wBytes (snd (snd (io_Copy_loop p written)))
        = wBytes p + of_nat (length (take (nat n) bs))"
      using stop(5) n unfolding len by simp
    moreover have "fst (snd (io_Copy_loop p written)) = Some ErrShortWrite \<longrightarrow>
        length (take (nat n) bs) < length (stream_bytes (p_r p))"
    proof
      assume "fst (snd (io_Copy_loop p written)) = Some ErrShortWrite"
      with stop(5) have "chunk_error bs n ew0 er = Some ErrShortWrite" by simp
      then have "n < int (length bs)" by (auto dest: chunk_error_short)
      with n have "nat n < length bs" by simp
      moreover from whole have "length bs \<le> length (stream_bytes (p_r p))"
        by (rule prefix_length_le)
      ultimately show "length (take (nat n) bs) < length (stream_bytes (p_r p))"
        unfolding len by simp
    qed
    ultimately show "\<exists>ys. wr_written (p_w (snd (snd (io_Copy_loop p written)))) = wr_written (p_w p) @ ys \<and>
         prefix ys (stream_bytes (p_r p)) \<and>
         wBytes (snd (snd (io_Copy_loop p written))) = wBytes p + of_nat (length ys) \<and>
         (fst (snd (io_Copy_loop p written)) = Some ErrShortWrite \<longrightarrow>
            length ys < length (stream_bytes (p_r p)))"
      using pre by blast
  qed
qed

text \<open>
  A write that takes fewer bytes than it is given and reports no error ends the loop at
  once with \<^verbatim>\<open>io.ErrShortWrite\<close>: the rest of the chunk is not written again.
\<close>

lemma io_Copy_loop_short_write:
  assumes "p_r p = (Bytes bs, er) # rest"
    and "wr_accept (p_w p) (wr_written (p_w p)) bs = (n, None)"
    and "0 \<le> n" "n < int (length bs)"
  shows "io_Copy_loop p written =
     (written + of_int n, Some ErrShortWrite,
      p\<lparr>p_r := rest, rBytes := rBytes p + of_nat (length bs),
        p_w := (p_w p)\<lparr>wr_written := wr_written (p_w p) @ take (nat n) bs\<rparr>,
        wBytes := wBytes p + of_int n\<rparr>)"
proof -
  from assms(3,4) have ne: "bs \<noteq> []" by auto
  from assms(4) have stop: "\<not> (n = int (length bs) \<and> None = (None :: string option) \<and> er = None)"
    by simp
  from assms(3,4) have ce: "chunk_error bs n None er = Some ErrShortWrite"
    by (simp add: chunk_error_def)
  from io_Copy_loop_stop [OF assms(1) ne assms(2) stop, of written] assms(3,4) ce
  show ?thesis by simp
qed

subsection \<open>Reading the counters\<close>

lemma sint_of_nat_small: "n < 2 ^ 63 \<Longrightarrow> sint (of_nat n :: 64 word) = int n"
proof -
  assume n: "n < 2 ^ 63"
  then have "int n < 2 ^ 63"
    by (metis of_nat_less_iff of_nat_numeral of_nat_power)
  then show ?thesis
    by (simp add: signed_of_nat signed_take_bit_int_eq_self)
qed

lemma sint_add_int:
  "- (2 ^ 63) \<le> sint (x :: 64 word) + k \<Longrightarrow> sint x + k < 2 ^ 63 \<Longrightarrow>
   sint (x + of_int k) = sint x + k"
proof -
  assume lo: "- (2 ^ 63) \<le> sint x + k" and hi: "sint x + k < 2 ^ 63"
  have "x + of_int k = word_of_int (sint x + k)" by simp
  then have "sint (x + of_int k) = signed_take_bit 63 (sint x + k)"
    by (simp only: sint_sbintrunc') simp
  also have "\<dots> = sint x + k"
    using lo hi by (intro signed_take_bit_int_eq_self) simp_all
  finally show ?thesis .
qed

lemma Progress_Read_counts:
  "Progress_Read p = (nu, buf, e, p1) \<Longrightarrow>
   rBytes p1 = rBytes p + of_int nu \<and> wBytes p1 = wBytes p \<and> p_w p1 = p_w p"
  by (auto simp: Progress_Read_def split: prod.splits)

lemma Progress_Write_counts:
  "Progress_Write p b = (nu, e, p1) \<Longrightarrow>
   wBytes p1 = wBytes p + of_int nu \<and> rBytes p1 = rBytes p \<and>
   wr_written (p_w p1) = wr_written (p_w p) @ take (nat nu) b"
  by (auto simp: Progress_Write_def writer_Write_def split: prod.splits)

text \<open>Adding a count to a counter, read as signed numbers.\<close>

lemma counter_add:
  fixes x :: int64
  assumes "y = x + of_int nu"
  shows "(- (2 ^ 63) \<le> sint x + nu \<and> sint x + nu < 2 ^ 63 \<longrightarrow>
            sint y = sint x + nu \<and>
            (0 \<le> nu \<longrightarrow> sint x \<le> sint y) \<and> (nu < 0 \<longrightarrow> sint y < sint x))"
  using assms by (auto simp: sint_add_int)

subsection \<open>C4: the counters after a copy\<close>

text \<open>
  C4, as the code has it.  (1) When every \<^verbatim>\<open>Write\<close> of the sink takes the whole chunk
  without error and the source, whose counts keep the contract, ends with end of stream
  after delivering \<open>N < 2^63\<close> bytes, then \<^verbatim>\<open>io.Copy\<close> through a \<open>Progress\<close> returns no
  error, the read counter and the write counter both equal \<open>N\<close>, and the sink has
  received exactly the source's bytes, however the source splits them over its reads.
  (2) For a sink whose counts keep the contract \<open>0 \<le> n \<le> len(b)\<close> but which may take
  fewer bytes than it is given, the write counter still equals the number of bytes the
  sink took, and these are the first bytes of the stream; they are all of it when the
  copy returns no error, and then the read counter is the sum of the counts the source
  returned; they are not all of it when the copy returns \<^verbatim>\<open>io.ErrShortWrite\<close>.
  (3) At any point of a copy, a write that takes fewer bytes than the chunk and reports
  no error ends the copy there with \<^verbatim>\<open>io.ErrShortWrite\<close>: the loop does not write the
  rest of the chunk, nor any later chunk.  (4), (5) One \<^verbatim>\<open>Read\<close> or \<^verbatim>\<open>Write\<close> adds the
  count it returns to its own counter and leaves the other counter alone; read as
  signed 64-bit numbers and short of overflow, the counter does not decrease when the
  count is not negative, and it decreases when the count is negative, which neither
  \<open>Progress\<close> nor the copy loop excludes.
\<close>

theorem Progress_copy_counts:
  "((\<forall>sofar b. wr_accept wr sofar b = (int (length b), None)) \<and> stream_end rd = EOF \<and>
      counts_in_contract rd \<and> length (stream_bytes rd) < 2 ^ 63 \<longrightarrow>
      (case io_Copy (NewProgress wr rd) of
         (written, err, p') \<Rightarrow>
           err = None \<and>
           sint (readBytes p') = int (length (stream_bytes rd)) \<and>
           sint (writeBytes p') = int (length (stream_bytes rd)) \<and>
           wr_written (p_w p') = wr_written wr @ stream_bytes rd))
   \<and> ((\<forall>sofar b. 0 \<le> fst (wr_accept wr sofar b) \<and>
                  fst (wr_accept wr sofar b) \<le> int (length b)) \<longrightarrow>
      (case io_Copy (NewProgress wr rd) of
         (written, err, p') \<Rightarrow>
           \<exists>ys. wr_written (p_w p') = wr_written wr @ ys \<and> prefix ys (stream_bytes rd) \<and>
                writeBytes p' = of_nat (length ys) \<and>
                (err = None \<longrightarrow> ys = stream_bytes rd \<and> readBytes p' = of_int (stream_count rd)) \<and>
                (err = Some ErrShortWrite \<longrightarrow> length ys < length (stream_bytes rd))))
   \<and> (p_r p = (Bytes bs, er) # rest \<and>
      wr_accept (p_w p) (wr_written (p_w p)) bs = (n, None) \<and> 0 \<le> n \<and> n < int (length bs) \<longrightarrow>
      io_Copy_loop p written =
        (written + of_int n, Some ErrShortWrite,
         p\<lparr>p_r := rest, rBytes := rBytes p + of_nat (length bs),
           p_w := (p_w p)\<lparr>wr_written := wr_written (p_w p) @ take (nat n) bs\<rparr>,
           wBytes := wBytes p + of_int n\<rparr>))
   \<and> (case Progress_Read p of
         (nu, buf, e, p1) \<Rightarrow>
           rBytes p1 = rBytes p + of_int nu \<and> wBytes p1 = wBytes p \<and>
           (- (2 ^ 63) \<le> sint (rBytes p) + nu \<and> sint (rBytes p) + nu < 2 ^ 63 \<longrightarrow>
              sint (rBytes p1) = sint (rBytes p) + nu \<and>
              (0 \<le> nu \<longrightarrow> sint (rBytes p) \<le> sint (rBytes p1)) \<and>
              (nu < 0 \<longrightarrow> sint (rBytes p1) < sint (rBytes p))))
   \<and> (case Progress_Write p b of
         (nu, e, p1) \<Rightarrow>
           wBytes p1 = wBytes p + of_int nu \<and> rBytes p1 = rBytes p \<and>
           (- (2 ^ 63) \<le> sint (wBytes p) + nu \<and> sint (wBytes p) + nu < 2 ^ 63 \<longrightarrow>
              sint (wBytes p1) = sint (wBytes p) + nu \<and>
              (0 \<le> nu \<longrightarrow> sint (wBytes p) \<le> sint (wBytes p1)) \<and>
              (nu < 0 \<longrightarrow> sint (wBytes p1) < sint (wBytes p))))"
proof (intro conjI)
  show "(\<forall>sofar b. wr_accept wr sofar b = (int (length b), None)) \<and> stream_end rd = EOF \<and>
      counts_in_contract rd \<and> length (stream_bytes rd) < 2 ^ 63 \<longrightarrow>
      (case io_Copy (NewProgress wr rd) of
         (written, err, p') \<Rightarrow>
           err = None \<and>
           sint (readBytes p') = int (length (stream_bytes rd)) \<and>
           sint (writeBytes p') = int (length (stream_bytes rd)) \<and>
           wr_written (p_w p') = wr_written wr @ stream_bytes rd)"
  proof
    assume h: "(\<forall>sofar b. wr_accept wr sofar b = (int (length b), None)) \<and> stream_end rd = EOF \<and>
        counts_in_contract rd \<and> length (stream_bytes rd) < 2 ^ 63"
    obtain written err p' where res: "io_Copy (NewProgress wr rd) = (written, err, p')"
      by (cases "io_Copy (NewProgress wr rd)")
    from h have "\<forall>sofar b. wr_accept (p_w (NewProgress wr rd)) sofar b = (int (length b), None)"
      by (simp add: NewProgress_def)
    with io_Copy_loop_full_aux [of "NewProgress wr rd" 0] res h
    have "err = None \<and> wr_written (p_w p') = wr_written wr @ stream_bytes rd \<and>
          wBytes p' = of_nat (length (stream_bytes rd)) \<and>
          rBytes p' = of_nat (length (stream_bytes rd))"
      by (simp add: io_Copy_def NewProgress_def read_error_def stream_count_in_contract)
    with h res show "case io_Copy (NewProgress wr rd) of
           (written, err, p') \<Rightarrow>
             err = None \<and>
             sint (readBytes p') = int (length (stream_bytes rd)) \<and>
             sint (writeBytes p') = int (length (stream_bytes rd)) \<and>
             wr_written (p_w p') = wr_written wr @ stream_bytes rd"
      by (simp add: readBytes_def writeBytes_def sint_of_nat_small)
  qed
next
  show "(\<forall>sofar b. 0 \<le> fst (wr_accept wr sofar b) \<and>
                  fst (wr_accept wr sofar b) \<le> int (length b)) \<longrightarrow>
      (case io_Copy (NewProgress wr rd) of
         (written, err, p') \<Rightarrow>
           \<exists>ys. wr_written (p_w p') = wr_written wr @ ys \<and> prefix ys (stream_bytes rd) \<and>
                writeBytes p' = of_nat (length ys) \<and>
                (err = None \<longrightarrow> ys = stream_bytes rd \<and> readBytes p' = of_int (stream_count rd)) \<and>
                (err = Some ErrShortWrite \<longrightarrow> length ys < length (stream_bytes rd)))"
  proof
    assume h: "\<forall>sofar b. 0 \<le> fst (wr_accept wr sofar b) \<and>
                  fst (wr_accept wr sofar b) \<le> int (length b)"
    obtain written err p' where res: "io_Copy (NewProgress wr rd) = (written, err, p')"
      by (cases "io_Copy (NewProgress wr rd)")
    from h have "\<forall>sofar b. 0 \<le> fst (wr_accept (p_w (NewProgress wr rd)) sofar b) \<and>
        fst (wr_accept (p_w (NewProgress wr rd)) sofar b) \<le> int (length b)"
      by (simp add: NewProgress_def)
    with io_Copy_loop_honest_aux [of "NewProgress wr rd" 0] res
    obtain ys where ys: "wr_written (p_w p') = wr_written wr @ ys" "prefix ys (stream_bytes rd)"
        "wBytes p' = of_nat (length ys)"
        "err = Some ErrShortWrite \<longrightarrow> length ys < length (stream_bytes rd)"
      by (auto simp: io_Copy_def NewProgress_def)
    have "err = None \<longrightarrow> ys = stream_bytes rd \<and> rBytes p' = of_int (stream_count rd)"
    proof
      assume "err = None"
      with res have "io_Copy_loop (NewProgress wr rd) 0 = (written, None, p')"
        by (simp add: io_Copy_def)
      from io_Copy_loop_success [OF this] ys(1)
      show "ys = stream_bytes rd \<and> rBytes p' = of_int (stream_count rd)"
        by (simp add: NewProgress_def)
    qed
    with ys res show "case io_Copy (NewProgress wr rd) of
           (written, err, p') \<Rightarrow>
             \<exists>ys. wr_written (p_w p') = wr_written wr @ ys \<and> prefix ys (stream_bytes rd) \<and>
                  writeBytes p' = of_nat (length ys) \<and>
                  (err = None \<longrightarrow> ys = stream_bytes rd \<and> readBytes p' = of_int (stream_count rd)) \<and>
                  (err = Some ErrShortWrite \<longrightarrow> length ys < length (stream_bytes rd))"
      by (auto simp: readBytes_def writeBytes_def)
  qed
next
  show "p_r p = (Bytes bs, er) # rest \<and>
      wr_accept (p_w p) (wr_written (p_w p)) bs = (n, None) \<and> 0 \<le> n \<and> n < int (length bs) \<longrightarrow>
      io_Copy_loop p written =
        (written + of_int n, Some ErrShortWrite,
         p\<lparr>p_r := rest, rBytes := rBytes p + of_nat (length bs),
           p_w := (p_w p)\<lparr>wr_written := wr_written (p_w p) @ take (nat n) bs\<rparr>,
           wBytes := wBytes p + of_int n\<rparr>)"
    by (intro impI io_Copy_loop_short_write) simp_all
next
  obtain nu buf e p1 where r: "Progress_Read p = (nu, buf, e, p1)" by (cases "Progress_Read p")
  from Progress_Read_counts [OF r] have c: "rBytes p1 = rBytes p + of_int nu" "wBytes p1 = wBytes p"
    by simp_all
  from counter_add [OF c(1)] c
  show "case Progress_Read p of
         (nu, buf, e, p1) \<Rightarrow>
           rBytes p1 = rBytes p + of_int nu \<and> wBytes p1 = wBytes p \<and>
           (- (2 ^ 63) \<le> sint (rBytes p) + nu \<and> sint (rBytes p) + nu < 2 ^ 63 \<longrightarrow>
              sint (rBytes p1) = sint (rBytes p) + nu \<and>
              (0 \<le> nu \<longrightarrow> sint (rBytes p) \<le> sint (rBytes p1)) \<and>
              (nu < 0 \<longrightarrow> sint (rBytes p1) < sint (rBytes p)))"
    unfolding r by simp
next
  obtain nu e p1 where r: "Progress_Write p b = (nu, e, p1)" by (cases "Progress_Write p b")
  from Progress_Write_counts [OF r] have c: "wBytes p1 = wBytes p + of_int nu" "rBytes p1 = rBytes p"
    by simp_all
  from counter_add [OF c(1)] c
  show "case Progress_Write p b of
         (nu, e, p1) \<Rightarrow>
           wBytes p1 = wBytes p + of_int nu \<and> rBytes p1 = rBytes p \<and>
           (- (2 ^ 63) \<le> sint (wBytes p) + nu \<and> sint (wBytes p) + nu < 2 ^ 63 \<longrightarrow>
              sint (wBytes p1) = sint (wBytes p) + nu \<and>
              (0 \<le> nu \<longrightarrow> sint (wBytes p) \<le> sint (wBytes p1)) \<and>
              (nu < 0 \<longrightarrow> sint (wBytes p1) < sint (wBytes p)))"
    unfolding r by simp
qed

theorem Progress_copy_counts_witness:
  "(case io_Copy (NewProgress whole_writer chunked_source) of
      (written, err, p') \<Rightarrow>
        err = None \<and> sint (readBytes p') = 3 \<and> sint (writeBytes p') = 3 \<and>
        wr_written (p_w p') = [1, 2, 3])
   \<and> (case io_Copy (NewProgress one_byte_writer [(Bytes [1, 2], None)]) of
         (written, err, p') \<Rightarrow>
           \<exists>ys. wr_written (p_w p') = ys \<and> prefix ys [1, 2] \<and>
                writeBytes p' = of_nat (length ys) \<and> err = Some ErrShortWrite \<and> length ys < 2)
   \<and> io_Copy_loop (NewProgress one_byte_writer [(Bytes [1, 2], None)]) 0 =
        (1, Some ErrShortWrite,
         \<lparr>p_w = one_byte_writer\<lparr>wr_written := [1]\<rparr>, p_r = [], wBytes = 1, rBytes = 2\<rparr>)
   \<and> (case Progress_Read (NewProgress whole_writer chunked_source) of
         (nu, buf, e, p1) \<Rightarrow> nu = 2 \<and> sint (rBytes p1) = 2 \<and> wBytes p1 = 0)
   \<and> (case Progress_Read (NewProgress whole_writer negative_source) of
         (nu, buf, e, p1) \<Rightarrow> nu = - 1 \<and> sint (rBytes p1) = - 1 \<and> wBytes p1 = 0)
   \<and> (case Progress_Write (NewProgress whole_writer chunked_source) [9] of
         (nu, e, p1) \<Rightarrow> nu = 1 \<and> sint (wBytes p1) = 1 \<and> rBytes p1 = 0)
   \<and> (case Progress_Write (NewProgress negative_writer chunked_source) [9] of
         (nu, e, p1) \<Rightarrow> nu = - 1 \<and> sint (wBytes p1) = - 1 \<and> rBytes p1 = 0)"
proof -
  let ?two = "[(Bytes [1, 2], None)] :: reader"
  have full: "\<forall>sofar b. wr_accept whole_writer sofar b = (int (length b), None)"
    by (simp add: whole_writer_def)
  have src: "stream_end chunked_source = EOF" "stream_bytes chunked_source = [1, 2, 3]"
      "counts_in_contract chunked_source"
    by (simp_all add: chunked_source_def counts_in_contract_def)
  have w0: "wr_written whole_writer = []" by (simp add: whole_writer_def)
  have h1: "(\<forall>sofar b. wr_accept whole_writer sofar b = (int (length b), None)) \<and>
      stream_end chunked_source = EOF \<and> counts_in_contract chunked_source \<and>
      length (stream_bytes chunked_source) < 2 ^ 63"
    using full src by simp
  from Progress_copy_counts [where wr = whole_writer and rd = chunked_source,
      THEN conjunct1, THEN mp, OF h1]
  have a: "case io_Copy (NewProgress whole_writer chunked_source) of
      (written, err, p') \<Rightarrow>
        err = None \<and> sint (readBytes p') = 3 \<and> sint (writeBytes p') = 3 \<and>
        wr_written (p_w p') = [1, 2, 3]"
    by (simp add: src w0)
  have honest: "\<forall>sofar b. 0 \<le> fst (wr_accept one_byte_writer sofar b) \<and>
      fst (wr_accept one_byte_writer sofar b) \<le> int (length b)"
    by (simp add: one_byte_writer_def)
  have cp: "io_Copy (NewProgress one_byte_writer ?two) =
      (1, Some ErrShortWrite,
       \<lparr>p_w = one_byte_writer\<lparr>wr_written := [1]\<rparr>, p_r = [], wBytes = 1, rBytes = 2\<rparr>)"
    by (simp add: io_Copy_def NewProgress_def one_byte_writer_def io_Copy_loop.simps
        Progress_Read_def Progress_Write_def reader_Read_def writer_Write_def)
  from Progress_copy_counts [where wr = one_byte_writer and rd = ?two,
      THEN conjunct2, THEN conjunct1, THEN mp, OF honest]
  have b: "case io_Copy (NewProgress one_byte_writer ?two) of
         (written, err, p') \<Rightarrow>
           \<exists>ys. wr_written (p_w p') = ys \<and> prefix ys [1, 2] \<and>
                writeBytes p' = of_nat (length ys) \<and> err = Some ErrShortWrite \<and> length ys < 2"
    unfolding cp by (simp add: one_byte_writer_def)
  have h3: "p_r (NewProgress one_byte_writer ?two) = (Bytes [1, 2], None) # [] \<and>
      wr_accept (p_w (NewProgress one_byte_writer ?two))
        (wr_written (p_w (NewProgress one_byte_writer ?two))) [1, 2] = (1, None) \<and>
      (0 :: int) \<le> 1 \<and> 1 < int (length [1 :: byte, 2])"
    by (simp add: NewProgress_def one_byte_writer_def)
  from Progress_copy_counts [where p = "NewProgress one_byte_writer ?two" and bs = "[1, 2]"
      and er = None and rest = "[]" and n = 1 and written = 0,
      THEN conjunct2, THEN conjunct2, THEN conjunct1, THEN mp, OF h3]
  have c: "io_Copy_loop (NewProgress one_byte_writer ?two) 0 =
        (1, Some ErrShortWrite,
         \<lparr>p_w = one_byte_writer\<lparr>wr_written := [1]\<rparr>, p_r = [], wBytes = 1, rBytes = 2\<rparr>)"
    by (simp add: NewProgress_def one_byte_writer_def)
  have rd: "Progress_Read (NewProgress whole_writer chunked_source) =
      (2, [1, 2], None,
       \<lparr>p_w = whole_writer, p_r = [(Bytes [], None), (Bytes [3], Some EOF)], wBytes = 0, rBytes = 2\<rparr>)"
    by (simp add: Progress_Read_def reader_Read_def NewProgress_def chunked_source_def)
  have rdn: "Progress_Read (NewProgress whole_writer negative_source) =
      (- 1, [], None,
       \<lparr>p_w = whole_writer, p_r = [(Bytes [4], Some EOF)], wBytes = 0, rBytes = - 1\<rparr>)"
    by (simp add: Progress_Read_def reader_Read_def NewProgress_def negative_source_def)
  have wr: "Progress_Write (NewProgress whole_writer chunked_source) [9] =
      (1, None,
       \<lparr>p_w = whole_writer\<lparr>wr_written := [9]\<rparr>, p_r = chunked_source, wBytes = 1, rBytes = 0\<rparr>)"
    by (simp add: Progress_Write_def writer_Write_def NewProgress_def whole_writer_def)
  have wrn: "Progress_Write (NewProgress negative_writer chunked_source) [9] =
      (- 1, None,
       \<lparr>p_w = negative_writer, p_r = chunked_source, wBytes = - 1, rBytes = 0\<rparr>)"
    by (simp add: Progress_Write_def writer_Write_def NewProgress_def negative_writer_def)
  have z: "wBytes (NewProgress w r) = 0" "rBytes (NewProgress w r) = 0" for w r
    by (simp_all add: NewProgress_def)
  from Progress_copy_counts [where p = "NewProgress whole_writer chunked_source",
      THEN conjunct2, THEN conjunct2, THEN conjunct2, THEN conjunct1]
  have d: "case Progress_Read (NewProgress whole_writer chunked_source) of
         (nu, buf, e, p1) \<Rightarrow> nu = 2 \<and> sint (rBytes p1) = 2 \<and> wBytes p1 = 0"
    unfolding rd by (simp add: z)
  from Progress_copy_counts [where p = "NewProgress whole_writer negative_source",
      THEN conjunct2, THEN conjunct2, THEN conjunct2, THEN conjunct1]
  have e: "case Progress_Read (NewProgress whole_writer negative_source) of
         (nu, buf, e, p1) \<Rightarrow> nu = - 1 \<and> sint (rBytes p1) = - 1 \<and> wBytes p1 = 0"
    unfolding rdn by (simp add: z)
  from Progress_copy_counts [where p = "NewProgress whole_writer chunked_source" and b = "[9]",
      THEN conjunct2, THEN conjunct2, THEN conjunct2, THEN conjunct2]
  have f: "case Progress_Write (NewProgress whole_writer chunked_source) [9] of
         (nu, e, p1) \<Rightarrow> nu = 1 \<and> sint (wBytes p1) = 1 \<and> rBytes p1 = 0"
    unfolding wr by (simp add: z)
  from Progress_copy_counts [where p = "NewProgress negative_writer chunked_source" and b = "[9]",
      THEN conjunct2, THEN conjunct2, THEN conjunct2, THEN conjunct2]
  have g: "case Progress_Write (NewProgress negative_writer chunked_source) [9] of
         (nu, e, p1) \<Rightarrow> nu = - 1 \<and> sint (wBytes p1) = - 1 \<and> rBytes p1 = 0"
    unfolding wrn by (simp add: z)
  from a b c d e f g show ?thesis by (intro conjI)
qed

theorem short_write_counterexample:
  "length (stream_bytes [(Bytes [1, 2], None)]) = 2 \<and>
   io_Copy (NewProgress one_byte_writer [(Bytes [1, 2], None)]) =
     (1, Some ErrShortWrite,
      \<lparr>p_w = one_byte_writer\<lparr>wr_written := [1]\<rparr>, p_r = [], wBytes = 1, rBytes = 2\<rparr>) \<and>
   writeBytes (snd (snd (io_Copy (NewProgress one_byte_writer [(Bytes [1, 2], None)])))) \<noteq> 2 \<and>
   sint (wBytes (NewProgress negative_writer [])) = 0 \<and>
   Progress_Write (NewProgress negative_writer []) [9] =
     (- 1, None, \<lparr>p_w = negative_writer, p_r = [], wBytes = - 1, rBytes = 0\<rparr>) \<and>
   sint (wBytes (snd (snd (Progress_Write (NewProgress negative_writer []) [9])))) = - 1"
  by (simp add: io_Copy_def NewProgress_def one_byte_writer_def negative_writer_def
      io_Copy_loop.simps Progress_Read_def Progress_Write_def reader_Read_def writer_Write_def
      writeBytes_def)

subsection \<open>One layer\<close>

lemma io_Copy_frame:
  "io_Copy p = (written, err, p') \<Longrightarrow>
   wr_accept (p_w p') = wr_accept (p_w p) \<and> prefix (wr_written (p_w p)) (wr_written (p_w p'))"
  unfolding io_Copy_def by (rule io_Copy_loop_frame)

lemma io_Copy_success:
  "io_Copy (NewProgress wr rd) = (written, None, p') \<Longrightarrow>
   wr_written (p_w p') = wr_written wr @ stream_bytes rd \<and> stream_end rd = EOF \<and>
   wBytes p' = of_nat (length (stream_bytes rd)) \<and> rBytes p' = of_int (stream_count rd)"
  unfolding io_Copy_def using io_Copy_loop_success [of "NewProgress wr rd" 0 written p']
  by (simp add: NewProgress_def)

text \<open>The three ways the body of the loop can end.\<close>

lemma Write_layer_cases [consumes 1, case_names fetch_failed decompressor_failed copied]:
  assumes run: "Write_layer env repo layer st = (res, st', evs)"
    and fetch_failed: "\<And>err. repo_Fetch env repo layer = Inl err \<Longrightarrow>
      res = Some (LayerFetchFailed (Digest layer) err) \<Longrightarrow> st' = st \<Longrightarrow>
      evs = [EvLog Info (FetchingLayer (Digest layer) (Size layer)), EvFetch (Digest layer)] \<Longrightarrow> P"
    and decompressor_failed: "\<And>layerReader err. repo_Fetch env repo layer = Inr layerReader \<Longrightarrow>
      layer_source env layer layerReader = Inl err \<Longrightarrow>
      res = Some (DecompressorFailed err) \<Longrightarrow> st' = st \<Longrightarrow>
      evs = [EvLog Info (FetchingLayer (Digest layer) (Size layer)), EvFetch (Digest layer),
             EvCloseLayerReader (Digest layer)] \<Longrightarrow> P"
    and copied: "\<And>layerReader sourceReader decompressor written err progress'.
      repo_Fetch env repo layer = Inr layerReader \<Longrightarrow>
      layer_source env layer layerReader = Inr (sourceReader, decompressor) \<Longrightarrow>
      io_Copy (NewProgress (fileOut st) sourceReader) = (written, err, progress') \<Longrightarrow>
      res = map_option DeviceWriteFailed err \<Longrightarrow>
      st' = (if err = None
             then \<lparr>totalBytes = totalBytes st + writeBytes progress',
                   processedLayers = processedLayers st + 1, fileOut = p_w progress'\<rparr>
             else st\<lparr>fileOut := p_w progress'\<rparr>) \<Longrightarrow>
      evs = [EvLog Info (FetchingLayer (Digest layer) (Size layer)), EvFetch (Digest layer),
             EvStartReporter (Size layer), EvTickerStop, EvSendDone]
            @ (case decompressor of Some c \<Rightarrow> [EvCloseDecompressor c] | None \<Rightarrow> [])
            @ [EvCloseLayerReader (Digest layer)] \<Longrightarrow> P"
  shows P
proof (cases "repo_Fetch env repo layer")
  case (Inl err)
  with run show ?thesis by (intro fetch_failed [of err]) (simp_all add: Write_layer_def)
next
  case (Inr layerReader)
  show ?thesis
  proof (cases "layer_source env layer layerReader")
    case (Inl err)
    with run Inr show ?thesis
      by (intro decompressor_failed [of layerReader err]) (simp_all add: Write_layer_def)
  next
    case src: (Inr sd)
    obtain sourceReader decompressor where sd: "sd = (sourceReader, decompressor)" by (cases sd)
    obtain written err progress' where
      cp: "io_Copy (NewProgress (fileOut st) sourceReader) = (written, err, progress')"
      by (cases "io_Copy (NewProgress (fileOut st) sourceReader)")
    show ?thesis
    proof (cases err)
      case None
      with run Inr src sd cp show ?thesis
        by (intro copied [of layerReader sourceReader decompressor written err progress'])
           (simp_all add: Write_layer_def)
    next
      case (Some e)
      with run Inr src sd cp show ?thesis
        by (intro copied [of layerReader sourceReader decompressor written err progress'])
           (simp_all add: Write_layer_def)
    qed
  qed
qed

lemma Write_layer_frame:
  assumes "Write_layer env repo layer st = (res, st', evs)"
  shows "wr_accept (fileOut st') = wr_accept (fileOut st) \<and>
         prefix (wr_written (fileOut st)) (wr_written (fileOut st'))"
  using assms
proof (cases rule: Write_layer_cases)
  case (copied layerReader sourceReader decompressor written err progress')
  from io_Copy_frame [OF copied(3)] copied(5) show ?thesis
    by (simp add: NewProgress_def)
qed simp_all

lemma Write_layer_success:
  assumes "Write_layer env repo layer st = (None, st', evs)"
  shows "\<exists>ys. wr_written (fileOut st') = wr_written (fileOut st) @ ys \<and>
              totalBytes st' = totalBytes st + of_nat (length ys) \<and>
              processedLayers st' = processedLayers st + 1"
  using assms
proof (cases rule: Write_layer_cases)
  case (copied layerReader sourceReader decompressor written err progress')
  then have "err = None" by simp
  with copied(3) have "io_Copy (NewProgress (fileOut st) sourceReader) = (written, None, progress')"
    by simp
  from io_Copy_success [OF this] copied(5) \<open>err = None\<close> show ?thesis
    by (simp add: writeBytes_def)
qed simp_all

lemma Write_layer_events:
  assumes "Write_layer env repo layer st = (res, st', evs)"
  shows "filter (\<lambda>e. \<not> is_skip_log e) evs = evs \<and> fetched evs = [Digest layer] \<and>
         filter is_skip_log evs = []"
  using assms
proof (cases rule: Write_layer_cases)
  case (copied layerReader sourceReader decompressor written err progress')
  then show ?thesis by (cases decompressor) simp_all
qed simp_all

subsection \<open>The layer loop\<close>

lemma Write_layers_skip:
  "\<not> recognized layer \<Longrightarrow>
   Write_layers env repo (layer # layers) st =
     (case Write_layers env repo layers st of
        (res, st', evs) \<Rightarrow> (res, st', EvLog Debug (SkippingLayer (MediaType layer)) # evs))"
  by (simp add: recognized_def)

lemma Write_layers_take:
  "recognized layer \<Longrightarrow>
   Write_layers env repo (layer # layers) st =
     (case Write_layer env repo layer st of
        (Some err, st1, ev1) \<Rightarrow> (Some err, st1, ev1)
      | (None, st1, ev1) \<Rightarrow>
          (case Write_layers env repo layers st1 of
             (res, st2, ev2) \<Rightarrow> (res, st2, ev1 @ ev2)))"
  by (simp add: recognized_def)

lemma Write_layers_append:
  "Write_layers env repo (xs @ ys) st =
     (case Write_layers env repo xs st of
        (Some err, st1, ev1) \<Rightarrow> (Some err, st1, ev1)
      | (None, st1, ev1) \<Rightarrow>
          (case Write_layers env repo ys st1 of
             (res, st2, ev2) \<Rightarrow> (res, st2, ev1 @ ev2)))"
proof (induction xs arbitrary: st)
  case Nil
  show ?case by (simp split: prod.splits)
next
  case (Cons layer xs)
  show ?case
  proof (cases "recognized layer")
    case False
    then show ?thesis
      by (simp add: Write_layers_skip Cons.IH del: Write_layers.simps split: prod.splits option.splits)
  next
    case True
    obtain res st1 ev1 where one: "Write_layer env repo layer st = (res, st1, ev1)"
      by (cases "Write_layer env repo layer st")
    show ?thesis
    proof (cases res)
      case None
      with one True show ?thesis
        by (simp add: Write_layers_take Cons.IH del: Write_layers.simps
            split: prod.splits option.splits)
    next
      case (Some e)
      with one True show ?thesis
        by (simp add: Write_layers_take del: Write_layers.simps)
    qed
  qed
qed

lemma Write_layers_frame:
  "Write_layers env repo layers st = (res, st', evs) \<Longrightarrow>
   wr_accept (fileOut st') = wr_accept (fileOut st) \<and>
   prefix (wr_written (fileOut st)) (wr_written (fileOut st'))"
proof (induction layers arbitrary: st res st' evs)
  case Nil
  then show ?case by simp
next
  case (Cons layer layers)
  show ?case
  proof (cases "recognized layer")
    case False
    with Cons.prems obtain evs0 where "Write_layers env repo layers st = (res, st', evs0)"
      by (auto simp: Write_layers_skip simp del: Write_layers.simps split: prod.splits)
    then show ?thesis by (rule Cons.IH)
  next
    case True
    obtain r1 st1 ev1 where one: "Write_layer env repo layer st = (r1, st1, ev1)"
      by (cases "Write_layer env repo layer st")
    note f1 = Write_layer_frame [OF one]
    show ?thesis
    proof (cases r1)
      case (Some e)
      with one True Cons.prems have "st' = st1"
        by (simp add: Write_layers_take del: Write_layers.simps)
      with f1 show ?thesis by simp
    next
      case None
      with one True Cons.prems obtain ev2 where "Write_layers env repo layers st1 = (res, st', ev2)"
        by (auto simp: Write_layers_take simp del: Write_layers.simps split: prod.splits)
      from Cons.IH [OF this] f1 show ?thesis
        by (metis prefix_order.order_trans)
    qed
  qed
qed

text \<open>
  Running the loop on a manifest and running it on the recognized layers alone differ
  only by the skip lines.
\<close>

lemma Write_layers_filter:
  "Write_layers env repo (filter recognized layers) st =
     (case Write_layers env repo layers st of
        (res, st', evs) \<Rightarrow> (res, st', filter (\<lambda>e. \<not> is_skip_log e) evs))"
proof (induction layers arbitrary: st)
  case Nil
  show ?case by simp
next
  case (Cons layer layers)
  show ?case
  proof (cases "recognized layer")
    case False
    then show ?thesis
      by (simp add: Write_layers_skip Cons.IH del: Write_layers.simps split: prod.splits)
  next
    case True
    obtain r1 st1 ev1 where one: "Write_layer env repo layer st = (r1, st1, ev1)"
      by (cases "Write_layer env repo layer st")
    from Write_layer_events [OF one] have keep: "filter (\<lambda>e. \<not> is_skip_log e) ev1 = ev1" by simp
    show ?thesis
    proof (cases r1)
      case (Some e)
      with one True keep show ?thesis
        by (simp add: Write_layers_take del: Write_layers.simps)
    next
      case None
      with one True keep show ?thesis
        by (simp add: Write_layers_take Cons.IH del: Write_layers.simps split: prod.splits)
    qed
  qed
qed

lemma fetched_append: "fetched (xs @ ys) = fetched xs @ fetched ys"
  by (induction xs rule: fetched.induct) simp_all

lemma skipped_append: "skipped (xs @ ys) = skipped xs @ skipped ys"
  by (induction xs rule: skipped.induct) simp_all

lemma Write_layer_skipped:
  assumes "Write_layer env repo layer st = (res, st', evs)"
  shows "skipped evs = []"
  using assms
proof (cases rule: Write_layer_cases)
  case (copied layerReader sourceReader decompressor written err progress')
  then show ?thesis by (cases decompressor) simp_all
qed simp_all

text \<open>
  The fetches of a run are the recognized layers, in manifest order, up to the layer at
  which the run stopped.
\<close>

lemma Write_layers_fetched_prefix:
  "Write_layers env repo layers st = (res, st', evs) \<Longrightarrow>
   \<exists>k. fetched evs = map Digest (take k (filter recognized layers))"
proof (induction layers arbitrary: st res st' evs)
  case Nil
  then show ?case by simp
next
  case (Cons layer layers)
  show ?case
  proof (cases "recognized layer")
    case False
    with Cons.prems obtain evs0 where
      run: "Write_layers env repo layers st = (res, st', evs0)"
      and evs: "evs = EvLog Debug (SkippingLayer (MediaType layer)) # evs0"
      by (auto simp: Write_layers_skip simp del: Write_layers.simps split: prod.splits)
    from Cons.IH [OF run] evs False show ?thesis by simp
  next
    case True
    obtain r1 st1 ev1 where one: "Write_layer env repo layer st = (r1, st1, ev1)"
      by (cases "Write_layer env repo layer st")
    from Write_layer_events [OF one] have f1: "fetched ev1 = [Digest layer]" by simp
    show ?thesis
    proof (cases r1)
      case (Some e)
      with one True Cons.prems have "evs = ev1"
        by (simp add: Write_layers_take del: Write_layers.simps)
      with f1 True have "fetched evs = map Digest (take 1 (filter recognized (layer # layers)))"
        by simp
      then show ?thesis by blast
    next
      case None
      with one True Cons.prems obtain ev2 where
        run: "Write_layers env repo layers st1 = (res, st', ev2)" and evs: "evs = ev1 @ ev2"
        by (auto simp: Write_layers_take simp del: Write_layers.simps split: prod.splits)
      from Cons.IH [OF run] obtain k where
        "fetched ev2 = map Digest (take k (filter recognized layers))" by blast
      with f1 evs True
      have "fetched evs = map Digest (take (Suc k) (filter recognized (layer # layers)))"
        by (simp add: fetched_append)
      then show ?thesis by blast
    qed
  qed
qed

text \<open>
  When the loop ends without error every recognized layer was fetched and counted, every
  other layer left one skip line, and the total is the number of bytes the file took.
\<close>

lemma Write_layers_success:
  "Write_layers env repo layers st = (None, st', evs) \<Longrightarrow>
   fetched evs = map Digest (filter recognized layers) \<and>
   skipped evs = map MediaType (filter (\<lambda>l. \<not> recognized l) layers) \<and>
   processedLayers st' = processedLayers st + length (filter recognized layers) \<and>
   (\<exists>ys. wr_written (fileOut st') = wr_written (fileOut st) @ ys \<and>
         totalBytes st' = totalBytes st + of_nat (length ys))"
proof (induction layers arbitrary: st st' evs)
  case Nil
  then show ?case by simp
next
  case (Cons layer layers)
  show ?case
  proof (cases "recognized layer")
    case False
    with Cons.prems obtain evs0 where
      run: "Write_layers env repo layers st = (None, st', evs0)"
      and evs: "evs = EvLog Debug (SkippingLayer (MediaType layer)) # evs0"
      by (auto simp: Write_layers_skip simp del: Write_layers.simps split: prod.splits)
    from Cons.IH [OF run] evs False show ?thesis by simp
  next
    case True
    obtain r1 st1 ev1 where one: "Write_layer env repo layer st = (r1, st1, ev1)"
      by (cases "Write_layer env repo layer st")
    from Write_layer_events [OF one] have f1: "fetched ev1 = [Digest layer]" by simp
    from Write_layer_skipped [OF one] have s1: "skipped ev1 = []" .
    have r1: "r1 = None"
    proof (cases r1)
      case (Some e)
      with one True Cons.prems show ?thesis
        by (simp add: Write_layers_take del: Write_layers.simps)
    qed simp
    with one True Cons.prems obtain ev2 where
      run: "Write_layers env repo layers st1 = (None, st', ev2)" and evs: "evs = ev1 @ ev2"
      by (auto simp: Write_layers_take simp del: Write_layers.simps split: prod.splits)
    from one r1 have "Write_layer env repo layer st = (None, st1, ev1)" by simp
    from Write_layer_success [OF this] obtain ys1 where
      ys1: "wr_written (fileOut st1) = wr_written (fileOut st) @ ys1"
           "totalBytes st1 = totalBytes st + of_nat (length ys1)"
           "processedLayers st1 = processedLayers st + 1"
      by blast
    from Cons.IH [OF run] obtain ys2 where
      ih: "fetched ev2 = map Digest (filter recognized layers)"
          "skipped ev2 = map MediaType (filter (\<lambda>l. \<not> recognized l) layers)"
          "processedLayers st' = processedLayers st1 + length (filter recognized layers)"
          "wr_written (fileOut st') = wr_written (fileOut st1) @ ys2"
          "totalBytes st' = totalBytes st1 + of_nat (length ys2)"
      by blast
    have "wr_written (fileOut st') = wr_written (fileOut st) @ (ys1 @ ys2) \<and>
          totalBytes st' = totalBytes st + of_nat (length (ys1 @ ys2))"
      using ys1 ih by simp
    then have "\<exists>ys. wr_written (fileOut st') = wr_written (fileOut st) @ ys \<and>
          totalBytes st' = totalBytes st + of_nat (length ys)"
      by blast
    with f1 s1 evs True ys1 ih show ?thesis
      by (simp add: fetched_append skipped_append)
  qed
qed

lemma Write_layers_none_recognized:
  "filter recognized layers = [] \<Longrightarrow>
   Write_layers env repo layers st =
     (None, st, map (\<lambda>l. EvLog Debug (SkippingLayer (MediaType l))) layers)"
  by (induction layers) (simp_all add: recognized_def split: if_splits)

subsection \<open>Evaluating the sample runs\<close>

lemmas sample_eval =
  Write_layer_def layer_source_def findDecompressor_def filepath_Ext_def
  sample_env_def sample_layer_gz_def sample_layer_config_def sample_layer_xz_def
  sample_layer_raw_def sample_layer_broken_def sample_layer_missing_def
  AnnotationTitle_def customMediaType_def
  io_Copy_def io_Copy_loop.simps NewProgress_def Progress_Read_def Progress_Write_def
  reader_Read_def writer_Write_def whole_writer_def writeBytes_def

lemma sample_run_gz:
  "Write_layers (sample_env [sample_layer_gz, sample_layer_config]) repo
     [sample_layer_gz, sample_layer_config]
     \<lparr>totalBytes = 0, processedLayers = 0, fileOut = whole_writer\<rparr> =
   (None,
    \<lparr>totalBytes = 4, processedLayers = 1, fileOut = whole_writer\<lparr>wr_written := [0x44, 0x49, 0x53, 0x4b]\<rparr>\<rparr>,
    [EvLog Info (FetchingLayer ''sha256:aa'' 4), EvFetch ''sha256:aa'', EvStartReporter 4,
     EvTickerStop, EvSendDone, EvCloseDecompressor Gzip, EvCloseLayerReader ''sha256:aa'',
     EvLog Debug (SkippingLayer ''application/vnd.oci.image.config.v1+json'')])"
  by (simp add: sample_eval)

lemma sample_recognized:
  "recognized sample_layer_gz" "\<not> recognized sample_layer_config" "recognized sample_layer_xz"
  "recognized sample_layer_raw" "recognized sample_layer_broken" "recognized sample_layer_missing"
  by (simp_all add: recognized_def sample_eval)

subsection \<open>C1: the media type selects the layers\<close>

text \<open>
  C1.  A layer is processed exactly when its media type is
  \<open>application/vnd.oci.image.layer.v1.tar\<close>.  For every manifest and every behaviour of
  the collaborators: (1) the run over the manifest has the same outcome, leaves the same
  state and produces the same events as the run over its recognized layers alone, once
  the skip lines are taken out; (2) the layers fetched are recognized layers, in manifest
  order, up to where the run stopped, and when the loop ends without error they are all
  the recognized layers, each counted once, while every other layer has left one skip
  line; (3) a layer of another media type alone changes nothing and produces a single
  line, at debug level; (4) the constant is the one named.
\<close>

theorem Write_layers_media_type:
  "Write_layers env repo (filter recognized layers) st =
     (case Write_layers env repo layers st of
        (res, st', evs) \<Rightarrow> (res, st', filter (\<lambda>e. \<not> is_skip_log e) evs))
   \<and> (case Write_layers env repo layers st of
        (res, st', evs) \<Rightarrow>
          (\<exists>k. fetched evs = map Digest (take k (filter recognized layers))) \<and>
          (res = None \<longrightarrow>
             fetched evs = map Digest (filter recognized layers) \<and>
             skipped evs = map MediaType (filter (\<lambda>l. \<not> recognized l) layers) \<and>
             processedLayers st' = processedLayers st + length (filter recognized layers)))
   \<and> (\<not> recognized layer \<longrightarrow>
        Write_layers env repo [layer] st =
          (None, st, [EvLog Debug (SkippingLayer (MediaType layer))]))
   \<and> recognized layer = (MediaType layer = ''application/vnd.oci.image.layer.v1.tar'')"
proof (intro conjI)
  show "Write_layers env repo (filter recognized layers) st =
     (case Write_layers env repo layers st of
        (res, st', evs) \<Rightarrow> (res, st', filter (\<lambda>e. \<not> is_skip_log e) evs))"
    by (rule Write_layers_filter)
next
  obtain res st' evs where run: "Write_layers env repo layers st = (res, st', evs)"
    by (cases "Write_layers env repo layers st")
  have "res = None \<longrightarrow>
          fetched evs = map Digest (filter recognized layers) \<and>
          skipped evs = map MediaType (filter (\<lambda>l. \<not> recognized l) layers) \<and>
          processedLayers st' = processedLayers st + length (filter recognized layers)"
    using Write_layers_success [of env repo layers st st' evs] run by simp
  with Write_layers_fetched_prefix [OF run] run
  show "case Write_layers env repo layers st of
        (res, st', evs) \<Rightarrow>
          (\<exists>k. fetched evs = map Digest (take k (filter recognized layers))) \<and>
          (res = None \<longrightarrow>
             fetched evs = map Digest (filter recognized layers) \<and>
             skipped evs = map MediaType (filter (\<lambda>l. \<not> recognized l) layers) \<and>
             processedLayers st' = processedLayers st + length (filter recognized layers))"
    by simp
next
  show "\<not> recognized layer \<longrightarrow>
        Write_layers env repo [layer] st =
          (None, st, [EvLog Debug (SkippingLayer (MediaType layer))])"
    by (simp add: recognized_def)
next
  show "recognized layer = (MediaType layer = ''application/vnd.oci.image.layer.v1.tar'')"
    by (simp add: recognized_def customMediaType_def)
qed

theorem Write_layers_media_type_witness:
  "Write_layers (sample_env [sample_layer_gz, sample_layer_config]) \<lparr>Reference = ''v1''\<rparr>
     [sample_layer_gz]
     \<lparr>totalBytes = 0, processedLayers = 0, fileOut = whole_writer\<rparr> =
     (None,
      \<lparr>totalBytes = 4, processedLayers = 1,
       fileOut = whole_writer\<lparr>wr_written := [0x44, 0x49, 0x53, 0x4b]\<rparr>\<rparr>,
      [EvLog Info (FetchingLayer ''sha256:aa'' 4), EvFetch ''sha256:aa'', EvStartReporter 4,
       EvTickerStop, EvSendDone, EvCloseDecompressor Gzip, EvCloseLayerReader ''sha256:aa''])
   \<and> fetched (snd (snd (Write_layers (sample_env [sample_layer_gz, sample_layer_config])
         \<lparr>Reference = ''v1''\<rparr> [sample_layer_gz, sample_layer_config]
         \<lparr>totalBytes = 0, processedLayers = 0, fileOut = whole_writer\<rparr>))) = [''sha256:aa'']
   \<and> skipped (snd (snd (Write_layers (sample_env [sample_layer_gz, sample_layer_config])
         \<lparr>Reference = ''v1''\<rparr> [sample_layer_gz, sample_layer_config]
         \<lparr>totalBytes = 0, processedLayers = 0, fileOut = whole_writer\<rparr>)))
       = [''application/vnd.oci.image.config.v1+json'']
   \<and> Write_layers (sample_env [sample_layer_gz, sample_layer_config]) \<lparr>Reference = ''v1''\<rparr>
        [sample_layer_config] \<lparr>totalBytes = 0, processedLayers = 0, fileOut = whole_writer\<rparr> =
        (None, \<lparr>totalBytes = 0, processedLayers = 0, fileOut = whole_writer\<rparr>,
         [EvLog Debug (SkippingLayer ''application/vnd.oci.image.config.v1+json'')])"
proof -
  let ?E = "sample_env [sample_layer_gz, sample_layer_config]"
  let ?r = "\<lparr>Reference = ''v1''\<rparr>"
  let ?st = "\<lparr>totalBytes = 0, processedLayers = 0, fileOut = whole_writer\<rparr>"
  let ?L = "[sample_layer_gz, sample_layer_config]"
  note T = Write_layers_media_type [of ?E ?r ?L ?st sample_layer_config]
  have mt: "MediaType sample_layer_config = ''application/vnd.oci.image.config.v1+json''"
    by (simp add: sample_layer_config_def)
  have rec: "filter recognized ?L = [sample_layer_gz]"
    using sample_recognized by simp
  have run: "Write_layers ?E ?r ?L ?st =
     (None,
      \<lparr>totalBytes = 4, processedLayers = 1,
       fileOut = whole_writer\<lparr>wr_written := [0x44, 0x49, 0x53, 0x4b]\<rparr>\<rparr>,
      [EvLog Info (FetchingLayer ''sha256:aa'' 4), EvFetch ''sha256:aa'', EvStartReporter 4,
       EvTickerStop, EvSendDone, EvCloseDecompressor Gzip, EvCloseLayerReader ''sha256:aa'',
       EvLog Debug (SkippingLayer ''application/vnd.oci.image.config.v1+json'')])"
    by (rule sample_run_gz)
  from T have "Write_layers ?E ?r (filter recognized ?L) ?st =
     (case Write_layers ?E ?r ?L ?st of
        (res, st', evs) \<Rightarrow> (res, st', filter (\<lambda>e. \<not> is_skip_log e) evs))"
    by (rule conjunct1)
  then have a: "Write_layers ?E ?r [sample_layer_gz] ?st =
     (None,
      \<lparr>totalBytes = 4, processedLayers = 1,
       fileOut = whole_writer\<lparr>wr_written := [0x44, 0x49, 0x53, 0x4b]\<rparr>\<rparr>,
      [EvLog Info (FetchingLayer ''sha256:aa'' 4), EvFetch ''sha256:aa'', EvStartReporter 4,
       EvTickerStop, EvSendDone, EvCloseDecompressor Gzip, EvCloseLayerReader ''sha256:aa''])"
    unfolding rec run by simp
  from T have "case Write_layers ?E ?r ?L ?st of
        (res, st', evs) \<Rightarrow>
          (\<exists>k. fetched evs = map Digest (take k (filter recognized ?L))) \<and>
          (res = None \<longrightarrow>
             fetched evs = map Digest (filter recognized ?L) \<and>
             skipped evs = map MediaType (filter (\<lambda>l. \<not> recognized l) ?L) \<and>
             processedLayers st' = processedLayers ?st + length (filter recognized ?L))"
    by (rule conjunct2 [THEN conjunct1])
  then have b: "fetched (snd (snd (Write_layers ?E ?r ?L ?st))) = map Digest [sample_layer_gz]
      \<and> skipped (snd (snd (Write_layers ?E ?r ?L ?st))) = map MediaType [sample_layer_config]"
    unfolding rec run using sample_recognized by simp
  from T have "\<not> recognized sample_layer_config \<longrightarrow>
        Write_layers ?E ?r [sample_layer_config] ?st =
          (None, ?st, [EvLog Debug (SkippingLayer (MediaType sample_layer_config))])"
    by (rule conjunct2 [THEN conjunct2, THEN conjunct1])
  with sample_recognized(2) have c: "Write_layers ?E ?r [sample_layer_config] ?st =
          (None, ?st, [EvLog Debug (SkippingLayer ''application/vnd.oci.image.config.v1+json'')])"
    unfolding mt by blast
  have d: "map Digest [sample_layer_gz] = [''sha256:aa'']"
    by (simp add: sample_layer_gz_def)
  from a b c show ?thesis unfolding d by (simp only: list.map mt simp_thms)
qed

subsection \<open>Write, once the manifest is there\<close>

lemma Write_after_setup:
  assumes "setup_succeeds env sourceImage destinationDevice repo m"
  shows "Write env sourceImage destinationDevice wld =
     (case Write_layers env repo (Layers m)
             \<lparr>totalBytes = 0, processedLayers = 0, fileOut = disk wld\<rparr> of
        (res, st, evs) \<Rightarrow>
          (if res = None \<and> processedLayers st = 0
           then Some (NoMatchingLayers customMediaType) else res,
           wld\<lparr>paths := insert destinationDevice (paths wld), disk := fileOut st\<rparr>,
           events_before_layers env sourceImage destinationDevice repo @ evs
           @ (if res = None \<and> 0 < processedLayers st
              then EvLog Info (SuccessfullyProcessed (processedLayers st) (totalBytes st))
                   # events_finalize env
              else [])
           @ [EvCloseFile]))"
proof -
  from assms obtain d bs where
    repo: "remote_NewRepository env sourceImage = Inr repo"
    and op: "os_OpenFile_error env destinationDevice = None"
    and ref: "Reference repo \<noteq> ''''"
    and res: "oras_Resolve env repo (Reference repo)
                 (if runtime_GOARCH env \<noteq> '''' then Some (''linux'', runtime_GOARCH env) else None)
               = Inr d"
    and fa: "content_FetchAll env repo d = Inr bs"
    and um: "json_Unmarshal env bs = Inr m"
    by (auto simp: setup_succeeds_def)
  obtain r st evs where run: "Write_layers env repo (Layers m)
             \<lparr>totalBytes = 0, processedLayers = 0, fileOut = disk wld\<rparr> = (r, st, evs)"
    by (cases "Write_layers env repo (Layers m)
             \<lparr>totalBytes = 0, processedLayers = 0, fileOut = disk wld\<rparr>")
  have body: "Write_body env repo sourceImage destinationDevice (disk wld) =
     (if r = None \<and> processedLayers st = 0
           then Some (NoMatchingLayers customMediaType) else r,
      fileOut st,
      tl (events_before_layers env sourceImage destinationDevice repo) @ evs
           @ (if r = None \<and> 0 < processedLayers st
              then EvLog Info (SuccessfullyProcessed (processedLayers st) (totalBytes st))
                   # events_finalize env
              else []))"
  proof (cases "runtime_GOARCH env = ''''")
    case True
    with ref res fa um run show ?thesis
      by (cases r) (simp_all add: Write_body_def events_before_layers_def events_finalize_def)
  next
    case False
    with ref res fa um run show ?thesis
      by (cases r) (simp_all add: Write_body_def events_before_layers_def events_finalize_def)
  qed
  show ?thesis
    by (simp add: Write_def os_OpenFile_def repo op body run events_before_layers_def)
qed

lemma sample_setup:
  "setup_succeeds (sample_env L) ''reg.example/disk:v1'' ''/dev/sda''
     \<lparr>Reference = ''v1''\<rparr> \<lparr>Layers = L\<rparr>"
  by (simp add: setup_succeeds_def sample_env_def)

lemma sample_before:
  "events_before_layers (sample_env L) ''reg.example/disk:v1'' ''/dev/sda'' \<lparr>Reference = ''v1''\<rparr> =
     [EvOpenFile ''/dev/sda'' [O_CREATE, O_WRONLY] 420,
      EvLog Info (BeginningWrite ''disk:v1'' ''/dev/sda''),
      EvLog Info (FilteringPlatform ''linux'' ''amd64''), EvResolve ''v1'', EvFetchManifest]"
  by (simp add: events_before_layers_def sample_env_def filepath_Base_def perm_0644_def)

lemma sample_finalize:
  "events_finalize (sample_env L) =
     [EvSync, EvLog Warn FailedSync, EvIoctl 4703 0, EvLog Warn ErrorReprobing]"
  by (simp add: events_finalize_def sample_env_def BLKRRPART_def)

subsection \<open>C5: no recognized layer, or a summary\<close>

text \<open>
  C5.  Take a run whose steps before the layer loop succeed.  (1) If no layer of the
  manifest has the recognized media type, \<open>Write\<close> fails with the no-matching-layers
  error, nothing is fetched, and the destination file is exactly as it was: no byte has
  been written to it.  The events are the opening steps, one skip line per layer, and
  the close of the file.  (2) If the manifest has a recognized layer and the loop ends
  without error, \<open>Write\<close> returns no error and logs one summary line, after the
  layers' events and before the finalizer; the count it carries is the number of
  recognized layers and the total is the number of bytes the destination file took
  during the run.
\<close>

theorem Write_no_matching_layers:
  "(setup_succeeds env sourceImage destinationDevice repo m \<and>
    (\<forall>l \<in> set (Layers m). MediaType l \<noteq> customMediaType) \<longrightarrow>
      (case Write env sourceImage destinationDevice wld of
         (res, wld', evs) \<Rightarrow>
           res = Some (NoMatchingLayers ''application/vnd.oci.image.layer.v1.tar'') \<and>
           disk wld' = disk wld \<and> fetched evs = [] \<and>
           evs = events_before_layers env sourceImage destinationDevice repo
                 @ map (\<lambda>l. EvLog Debug (SkippingLayer (MediaType l))) (Layers m)
                 @ [EvCloseFile]))
   \<and> (setup_succeeds env sourceImage destinationDevice repo m \<and>
      (\<exists>l \<in> set (Layers m). MediaType l = customMediaType) \<and>
      Write_layers env repo (Layers m)
        \<lparr>totalBytes = 0, processedLayers = 0, fileOut = disk wld\<rparr> = (None, st, evl) \<longrightarrow>
      (case Write env sourceImage destinationDevice wld of
         (res, wld', evs) \<Rightarrow>
           res = None \<and>
           evs = events_before_layers env sourceImage destinationDevice repo @ evl
                 @ [EvLog Info (SuccessfullyProcessed (processedLayers st) (totalBytes st))]
                 @ events_finalize env @ [EvCloseFile] \<and>
           processedLayers st = length (filter recognized (Layers m)) \<and>
           (\<exists>ys. wr_written (disk wld') = wr_written (disk wld) @ ys \<and>
                 totalBytes st = of_nat (length ys))))"
proof (intro conjI impI)
  assume h: "setup_succeeds env sourceImage destinationDevice repo m \<and>
    (\<forall>l \<in> set (Layers m). MediaType l \<noteq> customMediaType)"
  then have none: "filter recognized (Layers m) = []"
    by (simp add: filter_empty_conv recognized_def)
  have ev_pre: "fetched (events_before_layers env sourceImage destinationDevice repo) = []"
    by (simp add: events_before_layers_def)
  have skips: "fetched (map (\<lambda>l. EvLog Debug (SkippingLayer (MediaType l))) ls) = []" for ls
    by (induction ls) simp_all
  from h have su: "setup_succeeds env sourceImage destinationDevice repo m" by simp
  show "case Write env sourceImage destinationDevice wld of
         (res, wld', evs) \<Rightarrow>
           res = Some (NoMatchingLayers ''application/vnd.oci.image.layer.v1.tar'') \<and>
           disk wld' = disk wld \<and> fetched evs = [] \<and>
           evs = events_before_layers env sourceImage destinationDevice repo
                 @ map (\<lambda>l. EvLog Debug (SkippingLayer (MediaType l))) (Layers m)
                 @ [EvCloseFile]"
    by (simp add: Write_after_setup [OF su] Write_layers_none_recognized [OF none]
        fetched_append ev_pre skips customMediaType_def)
next
  assume h: "setup_succeeds env sourceImage destinationDevice repo m \<and>
      (\<exists>l \<in> set (Layers m). MediaType l = customMediaType) \<and>
      Write_layers env repo (Layers m)
        \<lparr>totalBytes = 0, processedLayers = 0, fileOut = disk wld\<rparr> = (None, st, evl)"
  then have su: "setup_succeeds env sourceImage destinationDevice repo m"
    and run: "Write_layers env repo (Layers m)
        \<lparr>totalBytes = 0, processedLayers = 0, fileOut = disk wld\<rparr> = (None, st, evl)"
    by simp_all
  from h have some: "filter recognized (Layers m) \<noteq> []"
    by (auto simp: filter_empty_conv recognized_def)
  from Write_layers_success [OF run] obtain ys where
    n: "processedLayers st = length (filter recognized (Layers m))"
    and ys: "wr_written (fileOut st) = wr_written (disk wld) @ ys" "totalBytes st = of_nat (length ys)"
    by auto
  from n some have pos: "0 < processedLayers st" by simp
  from ys have "\<exists>ys. wr_written (fileOut st) = wr_written (disk wld) @ ys \<and>
      totalBytes st = of_nat (length ys)" by blast
  with n pos show "case Write env sourceImage destinationDevice wld of
         (res, wld', evs) \<Rightarrow>
           res = None \<and>
           evs = events_before_layers env sourceImage destinationDevice repo @ evl
                 @ [EvLog Info (SuccessfullyProcessed (processedLayers st) (totalBytes st))]
                 @ events_finalize env @ [EvCloseFile] \<and>
           processedLayers st = length (filter recognized (Layers m)) \<and>
           (\<exists>ys. wr_written (disk wld') = wr_written (disk wld) @ ys \<and>
                 totalBytes st = of_nat (length ys))"
    by (simp add: Write_after_setup [OF su] run)
qed


theorem Write_no_matching_layers_witness:
  "fst (Write (sample_env [sample_layer_config]) ''reg.example/disk:v1'' ''/dev/sda'' sample_world)
     = Some (NoMatchingLayers ''application/vnd.oci.image.layer.v1.tar'')
   \<and> wr_written (disk (fst (snd (Write (sample_env [sample_layer_config])
          ''reg.example/disk:v1'' ''/dev/sda'' sample_world)))) = []
   \<and> snd (snd (Write (sample_env [sample_layer_config]) ''reg.example/disk:v1'' ''/dev/sda''
          sample_world)) =
       [EvOpenFile ''/dev/sda'' [O_CREATE, O_WRONLY] 420,
        EvLog Info (BeginningWrite ''disk:v1'' ''/dev/sda''),
        EvLog Info (FilteringPlatform ''linux'' ''amd64''), EvResolve ''v1'', EvFetchManifest,
        EvLog Debug (SkippingLayer ''application/vnd.oci.image.config.v1+json''),
        EvCloseFile]
   \<and> fst (Write (sample_env [sample_layer_gz, sample_layer_config]) ''reg.example/disk:v1''
          ''/dev/sda'' sample_world) = None
   \<and> snd (snd (Write (sample_env [sample_layer_gz, sample_layer_config]) ''reg.example/disk:v1''
          ''/dev/sda'' sample_world)) =
       [EvOpenFile ''/dev/sda'' [O_CREATE, O_WRONLY] 420,
        EvLog Info (BeginningWrite ''disk:v1'' ''/dev/sda''),
        EvLog Info (FilteringPlatform ''linux'' ''amd64''), EvResolve ''v1'', EvFetchManifest,
        EvLog Info (FetchingLayer ''sha256:aa'' 4), EvFetch ''sha256:aa'', EvStartReporter 4,
        EvTickerStop, EvSendDone, EvCloseDecompressor Gzip, EvCloseLayerReader ''sha256:aa'',
        EvLog Debug (SkippingLayer ''application/vnd.oci.image.config.v1+json''),
        EvLog Info (SuccessfullyProcessed 1 4),
        EvSync, EvLog Warn FailedSync, EvIoctl 4703 0, EvLog Warn ErrorReprobing, EvCloseFile]"
proof -
  let ?img = "''reg.example/disk:v1''" and ?dev = "''/dev/sda''"
  let ?r = "\<lparr>Reference = ''v1''\<rparr>"
  let ?E0 = "sample_env [sample_layer_config]"
  let ?E1 = "sample_env [sample_layer_gz, sample_layer_config]"
  have mt: "MediaType sample_layer_config = ''application/vnd.oci.image.config.v1+json''"
    by (simp add: sample_layer_config_def)
  have h0: "setup_succeeds ?E0 ?img ?dev ?r \<lparr>Layers = [sample_layer_config]\<rparr> \<and>
      (\<forall>l \<in> set (Layers \<lparr>Layers = [sample_layer_config]\<rparr>). MediaType l \<noteq> customMediaType)"
    using sample_setup [of "[sample_layer_config]"] sample_recognized(2)
    by (simp add: recognized_def)
  have "case Write ?E0 ?img ?dev sample_world of
         (res, wld', evs) \<Rightarrow>
           res = Some (NoMatchingLayers ''application/vnd.oci.image.layer.v1.tar'') \<and>
           disk wld' = disk sample_world \<and> fetched evs = [] \<and>
           evs = events_before_layers ?E0 ?img ?dev ?r
                 @ map (\<lambda>l. EvLog Debug (SkippingLayer (MediaType l)))
                     (Layers \<lparr>Layers = [sample_layer_config]\<rparr>)
                 @ [EvCloseFile]"
    by (rule Write_no_matching_layers
      [of ?E0 ?img ?dev ?r "\<lparr>Layers = [sample_layer_config]\<rparr>" sample_world,
       THEN conjunct1, THEN mp, OF h0])
  then have a: "fst (Write ?E0 ?img ?dev sample_world)
        = Some (NoMatchingLayers ''application/vnd.oci.image.layer.v1.tar'')
      \<and> wr_written (disk (fst (snd (Write ?E0 ?img ?dev sample_world)))) = []
      \<and> snd (snd (Write ?E0 ?img ?dev sample_world)) =
       [EvOpenFile ''/dev/sda'' [O_CREATE, O_WRONLY] 420,
        EvLog Info (BeginningWrite ''disk:v1'' ''/dev/sda''),
        EvLog Info (FilteringPlatform ''linux'' ''amd64''), EvResolve ''v1'', EvFetchManifest,
        EvLog Debug (SkippingLayer ''application/vnd.oci.image.config.v1+json''),
        EvCloseFile]"
    by (simp add: sample_before mt sample_world_def whole_writer_def split: prod.splits)
  let ?st = "\<lparr>totalBytes = 4, processedLayers = 1,
       fileOut = whole_writer\<lparr>wr_written := [0x44, 0x49, 0x53, 0x4b]\<rparr>\<rparr>"
  let ?evl = "[EvLog Info (FetchingLayer ''sha256:aa'' 4), EvFetch ''sha256:aa'', EvStartReporter 4,
     EvTickerStop, EvSendDone, EvCloseDecompressor Gzip, EvCloseLayerReader ''sha256:aa'',
     EvLog Debug (SkippingLayer ''application/vnd.oci.image.config.v1+json'')]"
  have h1: "setup_succeeds ?E1 ?img ?dev ?r \<lparr>Layers = [sample_layer_gz, sample_layer_config]\<rparr> \<and>
      (\<exists>l \<in> set (Layers \<lparr>Layers = [sample_layer_gz, sample_layer_config]\<rparr>).
          MediaType l = customMediaType) \<and>
      Write_layers ?E1 ?r (Layers \<lparr>Layers = [sample_layer_gz, sample_layer_config]\<rparr>)
        \<lparr>totalBytes = 0, processedLayers = 0, fileOut = disk sample_world\<rparr> = (None, ?st, ?evl)"
    using sample_setup [of "[sample_layer_gz, sample_layer_config]"] sample_recognized(1)
      sample_run_gz [of ?r]
    by (simp add: recognized_def sample_world_def del: Write_layers.simps)
  have "case Write ?E1 ?img ?dev sample_world of
         (res, wld', evs) \<Rightarrow>
           res = None \<and>
           evs = events_before_layers ?E1 ?img ?dev ?r @ ?evl
                 @ [EvLog Info (SuccessfullyProcessed (processedLayers ?st) (totalBytes ?st))]
                 @ events_finalize ?E1 @ [EvCloseFile] \<and>
           processedLayers ?st
             = length (filter recognized (Layers \<lparr>Layers = [sample_layer_gz, sample_layer_config]\<rparr>)) \<and>
           (\<exists>ys. wr_written (disk wld') = wr_written (disk sample_world) @ ys \<and>
                 totalBytes ?st = of_nat (length ys))"
    by (rule Write_no_matching_layers
      [of ?E1 ?img ?dev ?r "\<lparr>Layers = [sample_layer_gz, sample_layer_config]\<rparr>" sample_world
          ?st ?evl, THEN conjunct2, THEN mp, OF h1])
  then have b: "fst (Write ?E1 ?img ?dev sample_world) = None
      \<and> snd (snd (Write ?E1 ?img ?dev sample_world)) =
       [EvOpenFile ''/dev/sda'' [O_CREATE, O_WRONLY] 420,
        EvLog Info (BeginningWrite ''disk:v1'' ''/dev/sda''),
        EvLog Info (FilteringPlatform ''linux'' ''amd64''), EvResolve ''v1'', EvFetchManifest,
        EvLog Info (FetchingLayer ''sha256:aa'' 4), EvFetch ''sha256:aa'', EvStartReporter 4,
        EvTickerStop, EvSendDone, EvCloseDecompressor Gzip, EvCloseLayerReader ''sha256:aa'',
        EvLog Debug (SkippingLayer ''application/vnd.oci.image.config.v1+json''),
        EvLog Info (SuccessfullyProcessed 1 4),
        EvSync, EvLog Warn FailedSync, EvIoctl 4703 0, EvLog Warn ErrorReprobing, EvCloseFile]"
    by (simp add: sample_before sample_finalize split: prod.splits)
  from a b show ?thesis by blast
qed

lemma layer_source_passthrough:
  "Annotations layer = None \<or> (\<exists>ann. Annotations layer = Some ann \<and> ann AnnotationTitle = None) \<Longrightarrow>
   layer_source env layer layerReader = Inr (layerReader, None)"
  by (auto simp: layer_source_def)

lemma Write_layers_single:
  "recognized layer \<Longrightarrow> Write_layers env repo [layer] st = Write_layer env repo layer st"
  by (cases "Write_layer env repo layer st")
     (auto simp: recognized_def split: option.splits)

lemma io_Copy_full:
  assumes "\<forall>sofar b. wr_accept wr sofar b = (int (length b), None)"
    and "io_Copy (NewProgress wr rd) = (written, err, p')"
  shows "err = read_error (stream_end rd) \<and> wr_written (p_w p') = wr_written wr @ stream_bytes rd"
  using io_Copy_loop_full_aux [of "NewProgress wr rd" 0] assms
  by (simp add: io_Copy_def NewProgress_def)

subsection \<open>C3: a layer without title is passed through\<close>

text \<open>
  C3.  For a layer of the recognized media type whose annotation map is absent, or is
  there without a title entry, and whose fetch succeeds: no decompressor is chosen, the
  reader handed to the copy is the fetched stream itself, no decompressor is closed, and
  the run of the layer is the copy of that stream to the file.  When the file takes every
  chunk whole, the bytes it receives are exactly the bytes of the fetched stream, in
  order, and the layer fails only if the stream ends with a read error.
\<close>

theorem Write_layer_passthrough:
  "recognized layer \<and>
   (Annotations layer = None \<or> (\<exists>ann. Annotations layer = Some ann \<and> ann AnnotationTitle = None)) \<and>
   repo_Fetch env repo layer = Inr layerReader \<longrightarrow>
     layer_source env layer layerReader = Inr (layerReader, None) \<and>
     Write_layers env repo [layer] st =
       (case io_Copy (NewProgress (fileOut st) layerReader) of
          (written, err, progress') \<Rightarrow>
            (map_option DeviceWriteFailed err,
             (if err = None
              then \<lparr>totalBytes = totalBytes st + writeBytes progress',
                    processedLayers = processedLayers st + 1, fileOut = p_w progress'\<rparr>
              else st\<lparr>fileOut := p_w progress'\<rparr>),
             [EvLog Info (FetchingLayer (Digest layer) (Size layer)), EvFetch (Digest layer),
              EvStartReporter (Size layer), EvTickerStop, EvSendDone,
              EvCloseLayerReader (Digest layer)])) \<and>
     ((\<forall>sofar b. wr_accept (fileOut st) sofar b = (int (length b), None)) \<longrightarrow>
        (case Write_layers env repo [layer] st of
           (res, st', evs) \<Rightarrow>
             wr_written (fileOut st') = wr_written (fileOut st) @ stream_bytes layerReader \<and>
             res = map_option DeviceWriteFailed (read_error (stream_end layerReader))))"
proof (intro impI)
  assume h: "recognized layer \<and>
   (Annotations layer = None \<or> (\<exists>ann. Annotations layer = Some ann \<and> ann AnnotationTitle = None)) \<and>
   repo_Fetch env repo layer = Inr layerReader"
  then have src: "layer_source env layer layerReader = Inr (layerReader, None)"
    by (intro layer_source_passthrough) simp
  obtain written err progress' where
    cp: "io_Copy (NewProgress (fileOut st) layerReader) = (written, err, progress')"
    by (cases "io_Copy (NewProgress (fileOut st) layerReader)")
  have one: "Write_layers env repo [layer] st =
       (map_option DeviceWriteFailed err,
        (if err = None
         then \<lparr>totalBytes = totalBytes st + writeBytes progress',
               processedLayers = processedLayers st + 1, fileOut = p_w progress'\<rparr>
         else st\<lparr>fileOut := p_w progress'\<rparr>),
        [EvLog Info (FetchingLayer (Digest layer) (Size layer)), EvFetch (Digest layer),
         EvStartReporter (Size layer), EvTickerStop, EvSendDone,
         EvCloseLayerReader (Digest layer)])"
    using h src cp
    by (cases err) (simp_all add: Write_layers_single Write_layer_def del: Write_layers.simps)
  have full: "(\<forall>sofar b. wr_accept (fileOut st) sofar b = (int (length b), None)) \<longrightarrow>
        (case Write_layers env repo [layer] st of
           (res, st', evs) \<Rightarrow>
             wr_written (fileOut st') = wr_written (fileOut st) @ stream_bytes layerReader \<and>
             res = map_option DeviceWriteFailed (read_error (stream_end layerReader)))"
  proof
    assume "\<forall>sofar b. wr_accept (fileOut st) sofar b = (int (length b), None)"
    from io_Copy_full [OF this cp] show "case Write_layers env repo [layer] st of
           (res, st', evs) \<Rightarrow>
             wr_written (fileOut st') = wr_written (fileOut st) @ stream_bytes layerReader \<and>
             res = map_option DeviceWriteFailed (read_error (stream_end layerReader))"
      unfolding one by simp
  qed
  from src one full cp show "layer_source env layer layerReader = Inr (layerReader, None) \<and>
     Write_layers env repo [layer] st =
       (case io_Copy (NewProgress (fileOut st) layerReader) of
          (written, err, progress') \<Rightarrow>
            (map_option DeviceWriteFailed err,
             (if err = None
              then \<lparr>totalBytes = totalBytes st + writeBytes progress',
                    processedLayers = processedLayers st + 1, fileOut = p_w progress'\<rparr>
              else st\<lparr>fileOut := p_w progress'\<rparr>),
             [EvLog Info (FetchingLayer (Digest layer) (Size layer)), EvFetch (Digest layer),
              EvStartReporter (Size layer), EvTickerStop, EvSendDone,
              EvCloseLayerReader (Digest layer)])) \<and>
     ((\<forall>sofar b. wr_accept (fileOut st) sofar b = (int (length b), None)) \<longrightarrow>
        (case Write_layers env repo [layer] st of
           (res, st', evs) \<Rightarrow>
             wr_written (fileOut st') = wr_written (fileOut st) @ stream_bytes layerReader \<and>
             res = map_option DeviceWriteFailed (read_error (stream_end layerReader))))"
    by (simp del: Write_layers.simps)
qed


theorem Write_layer_passthrough_witness:
  "Write_layers (sample_env [sample_layer_raw]) \<lparr>Reference = ''v1''\<rparr> [sample_layer_raw]
      \<lparr>totalBytes = 0, processedLayers = 0, fileOut = whole_writer\<rparr> =
     (None,
      \<lparr>totalBytes = 3, processedLayers = 1, fileOut = whole_writer\<lparr>wr_written := [1, 2, 3]\<rparr>\<rparr>,
      [EvLog Info (FetchingLayer ''sha256:dd'' 3), EvFetch ''sha256:dd'', EvStartReporter 3,
       EvTickerStop, EvSendDone, EvCloseLayerReader ''sha256:dd''])
   \<and> fst (Write_layers (sample_env [sample_layer_broken]) \<lparr>Reference = ''v1''\<rparr>
          [sample_layer_broken] \<lparr>totalBytes = 0, processedLayers = 0, fileOut = whole_writer\<rparr>)
       = Some (DeviceWriteFailed (ReadFailed ''connection reset''))
   \<and> wr_written (fileOut (fst (snd (Write_layers (sample_env [sample_layer_broken])
          \<lparr>Reference = ''v1''\<rparr> [sample_layer_broken]
          \<lparr>totalBytes = 0, processedLayers = 0, fileOut = whole_writer\<rparr>)))) = [5, 6, 7]"
proof -
  let ?r = "\<lparr>Reference = ''v1''\<rparr>"
  let ?st = "\<lparr>totalBytes = 0, processedLayers = 0, fileOut = whole_writer\<rparr>"
  let ?raw = "[(Bytes [1, 2], None), (Bytes [3], Some EOF)] :: reader"
  let ?broken = "[(Bytes [5, 6], None), (Bytes [7], Some (ReadErr ''connection reset''))] :: reader"
  have full: "\<forall>sofar b. wr_accept (fileOut ?st) sofar b = (int (length b), None)"
    by (simp add: whole_writer_def)
  have h1: "recognized sample_layer_raw \<and>
     (Annotations sample_layer_raw = None \<or>
      (\<exists>ann. Annotations sample_layer_raw = Some ann \<and> ann AnnotationTitle = None)) \<and>
     repo_Fetch (sample_env [sample_layer_raw]) ?r sample_layer_raw = Inr ?raw"
    using sample_recognized(4) by (simp add: sample_layer_raw_def sample_env_def)
  have cp: "io_Copy (NewProgress whole_writer ?raw) =
      (3, None, \<lparr>p_w = whole_writer\<lparr>wr_written := [1, 2, 3]\<rparr>, p_r = [], wBytes = 3, rBytes = 3\<rparr>)"
    by (simp add: sample_eval)
  have d1: "Digest sample_layer_raw = ''sha256:dd''" "Size sample_layer_raw = 3"
    by (simp_all add: sample_layer_raw_def)
  from Write_layer_passthrough
    [of sample_layer_raw "sample_env [sample_layer_raw]" ?r ?raw ?st, THEN mp, OF h1]
  have a: "Write_layers (sample_env [sample_layer_raw]) ?r [sample_layer_raw] ?st =
     (None,
      \<lparr>totalBytes = 3, processedLayers = 1, fileOut = whole_writer\<lparr>wr_written := [1, 2, 3]\<rparr>\<rparr>,
      [EvLog Info (FetchingLayer ''sha256:dd'' 3), EvFetch ''sha256:dd'', EvStartReporter 3,
       EvTickerStop, EvSendDone, EvCloseLayerReader ''sha256:dd''])"
    by (simp add: cp d1 writeBytes_def del: Write_layers.simps)
  have h2: "recognized sample_layer_broken \<and>
     (Annotations sample_layer_broken = None \<or>
      (\<exists>ann. Annotations sample_layer_broken = Some ann \<and> ann AnnotationTitle = None)) \<and>
     repo_Fetch (sample_env [sample_layer_broken]) ?r sample_layer_broken = Inr ?broken"
    using sample_recognized(5) by (simp add: sample_layer_broken_def sample_env_def)
  have sb: "stream_bytes ?broken = [5, 6, 7]" "stream_end ?broken = ReadErr ''connection reset''"
    by simp_all
  from Write_layer_passthrough
    [of sample_layer_broken "sample_env [sample_layer_broken]" ?r ?broken ?st, THEN mp, OF h2,
     THEN conjunct2, THEN conjunct2, THEN mp, OF full]
  have "case Write_layers (sample_env [sample_layer_broken]) ?r [sample_layer_broken] ?st of
           (res, st', evs) \<Rightarrow>
             wr_written (fileOut st') = wr_written (fileOut ?st) @ stream_bytes ?broken \<and>
             res = map_option DeviceWriteFailed (read_error (stream_end ?broken))" .
  then have b: "fst (Write_layers (sample_env [sample_layer_broken]) ?r [sample_layer_broken] ?st)
       = Some (DeviceWriteFailed (ReadFailed ''connection reset''))
     \<and> wr_written (fileOut (fst (snd (Write_layers (sample_env [sample_layer_broken]) ?r
          [sample_layer_broken] ?st)))) = [5, 6, 7]"
    unfolding sb by (simp add: read_error_def whole_writer_def split: prod.splits del: Write_layers.simps)
  from a b show ?thesis by blast
qed

lemma sample_run_raw:
  "Write_layers (sample_env L) repo [sample_layer_raw]
     \<lparr>totalBytes = 0, processedLayers = 0, fileOut = whole_writer\<rparr> =
   (None,
    \<lparr>totalBytes = 3, processedLayers = 1, fileOut = whole_writer\<lparr>wr_written := [1, 2, 3]\<rparr>\<rparr>,
    [EvLog Info (FetchingLayer ''sha256:dd'' 3), EvFetch ''sha256:dd'', EvStartReporter 3,
     EvTickerStop, EvSendDone, EvCloseLayerReader ''sha256:dd''])"
  by (simp add: sample_eval)

lemma Write_layers_stops:
  assumes pre: "Write_layers env repo pre st = (None, st1, ev1)"
    and rec: "recognized layer"
    and one: "Write_layer env repo layer st1 = (Some err, st2, ev2)"
  shows "Write_layers env repo (pre @ layer # post) st = (Some err, st2, ev1 @ ev2)"
  using assms
  by (simp add: Write_layers_append Write_layers_take del: Write_layers.simps)

subsection \<open>C6: a decompressor that cannot be opened\<close>

text \<open>
  C6.  Take a run whose steps before the layer loop succeed and whose layers before
  \<open>layer\<close> are processed without error.  If \<open>layer\<close> is recognized, carries a title,
  is fetched, and \<open>findDecompressor\<close> fails on the title and the fetched stream with
  \<open>cause\<close>, then \<open>Write\<close> fails with the decompressor error wrapping \<open>cause\<close>; the
  events of the layer are its fetch and the close of the fetched stream, the close of
  the destination file follows as the last event, and the file is as the earlier layers
  left it: no byte of this layer is written.  When the title has a suffix of the table,
  \<open>cause\<close> is the error of that codec's constructor, wrapped.
\<close>

theorem Write_decompressor_failure:
  "setup_succeeds env sourceImage destinationDevice repo m \<and>
   Layers m = pre @ layer # post \<and>
   Write_layers env repo pre \<lparr>totalBytes = 0, processedLayers = 0, fileOut = disk wld\<rparr>
     = (None, st1, ev1) \<and>
   recognized layer \<and> Annotations layer = Some ann \<and> ann AnnotationTitle = Some title \<and>
   repo_Fetch env repo layer = Inr layerReader \<and>
   findDecompressor env title layerReader = Inl cause \<longrightarrow>
     (case Write env sourceImage destinationDevice wld of
        (res, wld', evs) \<Rightarrow>
          res = Some (DecompressorFailed cause) \<and>
          disk wld' = fileOut st1 \<and>
          evs = events_before_layers env sourceImage destinationDevice repo @ ev1
                @ [EvLog Info (FetchingLayer (Digest layer) (Size layer)), EvFetch (Digest layer),
                   EvCloseLayerReader (Digest layer), EvCloseFile]) \<and>
     (case spec_codec_of_name title of
        Some c \<Rightarrow> codec_open env c layerReader = Inl cause
      | None \<Rightarrow> cause = UnknownSuffix (filepath_Ext title))"
proof (intro impI)
  assume h: "setup_succeeds env sourceImage destinationDevice repo m \<and>
   Layers m = pre @ layer # post \<and>
   Write_layers env repo pre \<lparr>totalBytes = 0, processedLayers = 0, fileOut = disk wld\<rparr>
     = (None, st1, ev1) \<and>
   recognized layer \<and> Annotations layer = Some ann \<and> ann AnnotationTitle = Some title \<and>
   repo_Fetch env repo layer = Inr layerReader \<and>
   findDecompressor env title layerReader = Inl cause"
  then have su: "setup_succeeds env sourceImage destinationDevice repo m"
    and layers: "Layers m = pre @ layer # post"
    and pre: "Write_layers env repo pre \<lparr>totalBytes = 0, processedLayers = 0, fileOut = disk wld\<rparr>
        = (None, st1, ev1)"
    and rec: "recognized layer"
    and fd: "findDecompressor env title layerReader = Inl cause"
    by simp_all
  from h have "layer_source env layer layerReader = Inl cause"
    by (simp add: layer_source_def)
  with h have one: "Write_layer env repo layer st1 =
      (Some (DecompressorFailed cause), st1,
       [EvLog Info (FetchingLayer (Digest layer) (Size layer)), EvFetch (Digest layer),
        EvCloseLayerReader (Digest layer)])"
    by (simp add: Write_layer_def)
  note run = Write_layers_stops [OF pre rec one, of post]
  have w: "case Write env sourceImage destinationDevice wld of
        (res, wld', evs) \<Rightarrow>
          res = Some (DecompressorFailed cause) \<and>
          disk wld' = fileOut st1 \<and>
          evs = events_before_layers env sourceImage destinationDevice repo @ ev1
                @ [EvLog Info (FetchingLayer (Digest layer) (Size layer)), EvFetch (Digest layer),
                   EvCloseLayerReader (Digest layer), EvCloseFile]"
    by (simp add: Write_after_setup [OF su] layers run)
  have c: "case spec_codec_of_name title of
        Some c \<Rightarrow> codec_open env c layerReader = Inl cause
      | None \<Rightarrow> cause = UnknownSuffix (filepath_Ext title)"
    using fd findDecompressor_by_suffix [of env title layerReader]
    by (auto split: option.splits)
  from w c show "(case Write env sourceImage destinationDevice wld of
        (res, wld', evs) \<Rightarrow>
          res = Some (DecompressorFailed cause) \<and>
          disk wld' = fileOut st1 \<and>
          evs = events_before_layers env sourceImage destinationDevice repo @ ev1
                @ [EvLog Info (FetchingLayer (Digest layer) (Size layer)), EvFetch (Digest layer),
                   EvCloseLayerReader (Digest layer), EvCloseFile]) \<and>
     (case spec_codec_of_name title of
        Some c \<Rightarrow> codec_open env c layerReader = Inl cause
      | None \<Rightarrow> cause = UnknownSuffix (filepath_Ext title))"
    by (rule conjI)
qed

theorem Write_decompressor_failure_witness:
  "fst (Write (sample_env [sample_layer_raw, sample_layer_xz, sample_layer_gz])
          ''reg.example/disk:v1'' ''/dev/sda'' sample_world)
     = Some (DecompressorFailed (XzInit ''xz: invalid header''))
   \<and> disk (fst (snd (Write (sample_env [sample_layer_raw, sample_layer_xz, sample_layer_gz])
          ''reg.example/disk:v1'' ''/dev/sda'' sample_world)))
     = whole_writer\<lparr>wr_written := [1, 2, 3]\<rparr>
   \<and> snd (snd (Write (sample_env [sample_layer_raw, sample_layer_xz, sample_layer_gz])
          ''reg.example/disk:v1'' ''/dev/sda'' sample_world)) =
       [EvOpenFile ''/dev/sda'' [O_CREATE, O_WRONLY] 420,
        EvLog Info (BeginningWrite ''disk:v1'' ''/dev/sda''),
        EvLog Info (FilteringPlatform ''linux'' ''amd64''), EvResolve ''v1'', EvFetchManifest,
        EvLog Info (FetchingLayer ''sha256:dd'' 3), EvFetch ''sha256:dd'', EvStartReporter 3,
        EvTickerStop, EvSendDone, EvCloseLayerReader ''sha256:dd'',
        EvLog Info (FetchingLayer ''sha256:cc'' 4), EvFetch ''sha256:cc'',
        EvCloseLayerReader ''sha256:cc'', EvCloseFile]
   \<and> codec_open (sample_env [sample_layer_raw, sample_layer_xz, sample_layer_gz]) Xz
        [(Bytes [0x1f, 0x8b, 8, 0], Some EOF)] = Inl (XzInit ''xz: invalid header'')"
proof -
  let ?L = "[sample_layer_raw, sample_layer_xz, sample_layer_gz]"
  let ?E = "sample_env ?L"
  let ?img = "''reg.example/disk:v1''" and ?dev = "''/dev/sda''"
  let ?r = "\<lparr>Reference = ''v1''\<rparr>"
  let ?gz = "[(Bytes [0x1f, 0x8b, 8, 0], Some EOF)] :: reader"
  let ?st1 = "\<lparr>totalBytes = 3, processedLayers = 1,
                fileOut = whole_writer\<lparr>wr_written := [1, 2, 3]\<rparr>\<rparr>"
  let ?ev1 = "[EvLog Info (FetchingLayer ''sha256:dd'' 3), EvFetch ''sha256:dd'', EvStartReporter 3,
     EvTickerStop, EvSendDone, EvCloseLayerReader ''sha256:dd'']"
  have fd: "findDecompressor ?E ''disk.raw.xz'' ?gz = Inl (XzInit ''xz: invalid header'')"
    by (simp add: findDecompressor_def filepath_Ext_def sample_env_def)
  have sc: "spec_codec_of_name ''disk.raw.xz'' = Some Xz"
    by (simp add: spec_codec_of_name_def suffix_def)
  have h: "setup_succeeds ?E ?img ?dev ?r \<lparr>Layers = ?L\<rparr> \<and>
     Layers \<lparr>Layers = ?L\<rparr> = [sample_layer_raw] @ sample_layer_xz # [sample_layer_gz] \<and>
     Write_layers ?E ?r [sample_layer_raw]
       \<lparr>totalBytes = 0, processedLayers = 0, fileOut = disk sample_world\<rparr> = (None, ?st1, ?ev1) \<and>
     recognized sample_layer_xz \<and>
     Annotations sample_layer_xz = Some [AnnotationTitle \<mapsto> ''disk.raw.xz''] \<and>
     [AnnotationTitle \<mapsto> ''disk.raw.xz''] AnnotationTitle = Some ''disk.raw.xz'' \<and>
     repo_Fetch ?E ?r sample_layer_xz = Inr ?gz \<and>
     findDecompressor ?E ''disk.raw.xz'' ?gz = Inl (XzInit ''xz: invalid header'')"
    using sample_setup [of ?L] sample_run_raw [of ?L ?r] sample_recognized(3) fd
    by (simp add: sample_world_def sample_layer_xz_def sample_env_def del: Write_layers.simps)
  have d: "Digest sample_layer_xz = ''sha256:cc''" "Size sample_layer_xz = 4"
    by (simp_all add: sample_layer_xz_def)
  from Write_decompressor_failure
    [of ?E ?img ?dev ?r "\<lparr>Layers = ?L\<rparr>" "[sample_layer_raw]" sample_layer_xz
        "[sample_layer_gz]" sample_world ?st1 ?ev1 "[AnnotationTitle \<mapsto> ''disk.raw.xz'']"
        "''disk.raw.xz''" ?gz "XzInit ''xz: invalid header''", THEN mp, OF h]
  show ?thesis
    unfolding sc d by (simp add: sample_before split: prod.splits)
qed

subsection \<open>The finalizer\<close>

lemma findDecompressor_finalizer_indep:
  "findDecompressor (env\<lparr>file_Sync_error := s, unix_IoctlSetInt_error := i\<rparr>) title rd =
   findDecompressor env title rd"
  by (simp add: findDecompressor_def Let_def cong: if_cong)

lemma layer_source_finalizer_indep:
  "layer_source (env\<lparr>file_Sync_error := s, unix_IoctlSetInt_error := i\<rparr>) layer rd =
   layer_source env layer rd"
  by (simp add: layer_source_def findDecompressor_finalizer_indep cong: option.case_cong)

lemma Write_layer_finalizer_indep:
  "Write_layer (env\<lparr>file_Sync_error := s, unix_IoctlSetInt_error := i\<rparr>) repo layer st =
   Write_layer env repo layer st"
  by (simp add: Write_layer_def Let_def layer_source_finalizer_indep cong: sum.case_cong)

lemma Write_layers_finalizer_indep:
  "Write_layers (env\<lparr>file_Sync_error := s, unix_IoctlSetInt_error := i\<rparr>) repo layers st =
   Write_layers env repo layers st"
proof (induction layers arbitrary: st)
  case Nil
  show ?case by simp
next
  case (Cons layer layers)
  show ?case
    by (cases "Write_layer env repo layer st")
       (simp add: Write_layer_finalizer_indep Cons.IH split: option.splits)
qed

lemma events_finalize_no_warning:
  "filter (\<lambda>e. \<not> is_warning e) (events_finalize env) = [EvSync, EvIoctl BLKRRPART 0]"
  by (simp add: events_finalize_def split: option.splits)

text \<open>\<open>Write_body\<close> with its local definitions expanded.\<close>

lemma Write_body_closed:
  "Write_body env repo sourceImage destinationDevice file =
     (if Reference repo = '''' then
        (Some InvalidReference, file,
         [EvLog Info (BeginningWrite (filepath_Base sourceImage) destinationDevice)])
      else
        (case oras_Resolve env repo (Reference repo)
                (if runtime_GOARCH env \<noteq> '''' then Some (''linux'', runtime_GOARCH env) else None) of
           Inl err \<Rightarrow>
             (Some (ResolveFailed err), file,
              butlast (tl (events_before_layers env sourceImage destinationDevice repo)))
         | Inr manifestDescriptor \<Rightarrow>
             (case content_FetchAll env repo manifestDescriptor of
                Inl err \<Rightarrow>
                  (Some (FetchManifestFailed err), file,
                   tl (events_before_layers env sourceImage destinationDevice repo))
              | Inr manifestBytes \<Rightarrow>
                  (case json_Unmarshal env manifestBytes of
                     Inl err \<Rightarrow>
                       (Some (ParseManifestFailed err), file,
                        tl (events_before_layers env sourceImage destinationDevice repo))
                   | Inr m \<Rightarrow>
                       (case Write_layers env repo (Layers m)
                               \<lparr>totalBytes = 0, processedLayers = 0, fileOut = file\<rparr> of
                          (Some err, st, evs) \<Rightarrow>
                            (Some err, fileOut st,
                             tl (events_before_layers env sourceImage destinationDevice repo) @ evs)
                        | (None, st, evs) \<Rightarrow>
                            if processedLayers st = 0 then
                              (Some (NoMatchingLayers customMediaType), fileOut st,
                               tl (events_before_layers env sourceImage destinationDevice repo) @ evs)
                            else
                              (None, fileOut st,
                               tl (events_before_layers env sourceImage destinationDevice repo) @ evs
                               @ [EvLog Info
                                    (SuccessfullyProcessed (processedLayers st) (totalBytes st))]
                               @ events_finalize env))))))"
proof (cases "Reference repo = ''''")
  case True
  then show ?thesis by (simp add: Write_body_def)
next
  case ref: False
  show ?thesis
  proof (cases "runtime_GOARCH env = ''''")
    case True
    with ref show ?thesis
      by (simp add: Write_body_def Let_def events_before_layers_def events_finalize_def
          cong: sum.case_cong prod.case_cong option.case_cong if_cong)
  next
    case False
    with ref show ?thesis
      by (simp add: Write_body_def Let_def events_before_layers_def events_finalize_def
          cong: sum.case_cong prod.case_cong option.case_cong if_cong)
  qed
qed

lemma events_before_layers_finalizer_indep:
  "events_before_layers (env\<lparr>file_Sync_error := s, unix_IoctlSetInt_error := i\<rparr>) img dev repo
     = events_before_layers env img dev repo"
  by (simp add: events_before_layers_def)

lemma no_warning_before:
  "filter (\<lambda>e. \<not> is_warning e) (events_before_layers env img dev repo)
     = events_before_layers env img dev repo"
  by (simp add: events_before_layers_def)

text \<open>
  The answers of the flush and of the ioctl change neither the error returned, nor the
  file, nor any event other than the two warnings.
\<close>

lemma Write_body_finalizer_indep:
  "fst (Write_body (env\<lparr>file_Sync_error := s, unix_IoctlSetInt_error := i\<rparr>) repo img dev f0)
     = fst (Write_body env repo img dev f0) \<and>
   fst (snd (Write_body (env\<lparr>file_Sync_error := s, unix_IoctlSetInt_error := i\<rparr>) repo img dev f0))
     = fst (snd (Write_body env repo img dev f0)) \<and>
   filter (\<lambda>e. \<not> is_warning e)
     (snd (snd (Write_body (env\<lparr>file_Sync_error := s, unix_IoctlSetInt_error := i\<rparr>) repo img dev f0)))
     = filter (\<lambda>e. \<not> is_warning e) (snd (snd (Write_body env repo img dev f0)))"
proof (cases "Reference repo = ''''")
  case True
  then show ?thesis by (simp add: Write_body_closed)
next
  case ref: False
  let ?env' = "env\<lparr>file_Sync_error := s, unix_IoctlSetInt_error := i\<rparr>"
  define target where
    "target = (if runtime_GOARCH env \<noteq> '''' then Some (''linux'', runtime_GOARCH env) else None)"
  have t: "(if runtime_GOARCH env \<noteq> '''' then Some (''linux'', runtime_GOARCH env) else None)
      = target"
    by (simp add: target_def)
  have t': "(if runtime_GOARCH ?env' \<noteq> '''' then Some (''linux'', runtime_GOARCH ?env') else None)
      = target"
    by (simp add: target_def)
  note base = Write_body_closed [of env, unfolded t] Write_body_closed [of ?env', unfolded t']
    events_before_layers_finalizer_indep Write_layers_finalizer_indep
  show ?thesis
  proof (cases "oras_Resolve env repo (Reference repo) target")
    case (Inl err)
    with ref show ?thesis by (simp add: base)
  next
    case res: (Inr d)
    show ?thesis
    proof (cases "content_FetchAll env repo d")
      case (Inl err)
      with ref res show ?thesis by (simp add: base)
    next
      case fa: (Inr bs)
      show ?thesis
      proof (cases "json_Unmarshal env bs")
        case (Inl err)
        with ref res fa show ?thesis by (simp add: base)
      next
        case um: (Inr m)
        obtain r st evs where run: "Write_layers env repo (Layers m)
            \<lparr>totalBytes = 0, processedLayers = 0, fileOut = f0\<rparr> = (r, st, evs)"
          by (cases "Write_layers env repo (Layers m)
            \<lparr>totalBytes = 0, processedLayers = 0, fileOut = f0\<rparr>")
        show ?thesis
        proof (cases r)
          case (Some e)
          with ref res fa um run show ?thesis by (simp add: base)
        next
          case None
          with ref res fa um run show ?thesis
            by (cases "processedLayers st = 0")
               (simp_all add: base events_finalize_no_warning)
        qed
      qed
    qed
  qed
qed

lemma Write_finalizer_indep:
  "fst (Write (env\<lparr>file_Sync_error := s, unix_IoctlSetInt_error := i\<rparr>) img dev wld)
     = fst (Write env img dev wld) \<and>
   fst (snd (Write (env\<lparr>file_Sync_error := s, unix_IoctlSetInt_error := i\<rparr>) img dev wld))
     = fst (snd (Write env img dev wld)) \<and>
   filter (\<lambda>e. \<not> is_warning e)
     (snd (snd (Write (env\<lparr>file_Sync_error := s, unix_IoctlSetInt_error := i\<rparr>) img dev wld)))
     = filter (\<lambda>e. \<not> is_warning e) (snd (snd (Write env img dev wld)))"
proof (cases "remote_NewRepository env img")
  case (Inl err)
  then show ?thesis by (simp add: Write_def)
next
  case (Inr repo)
  show ?thesis
  proof (cases "os_OpenFile_error env dev")
    case (Some e)
    with Inr show ?thesis by (simp add: Write_def os_OpenFile_def)
  next
    case None
    obtain r f evs where b: "Write_body env repo img dev (disk wld) = (r, f, evs)"
      by (cases "Write_body env repo img dev (disk wld)")
    obtain r' f' evs' where b': "Write_body (env\<lparr>file_Sync_error := s,
        unix_IoctlSetInt_error := i\<rparr>) repo img dev (disk wld) = (r', f', evs')"
      by (cases "Write_body (env\<lparr>file_Sync_error := s,
        unix_IoctlSetInt_error := i\<rparr>) repo img dev (disk wld)")
    from Write_body_finalizer_indep [where env = env and s = s and i = i and repo = repo and img = img
        and dev = dev and ?f0.0 = "disk wld"] b b'
    have "r' = r" "f' = f"
      "filter (\<lambda>e. \<not> is_warning e) evs' = filter (\<lambda>e. \<not> is_warning e) evs"
      by simp_all
    with Inr None b b' show ?thesis by (simp add: Write_def os_OpenFile_def)
  qed
qed

subsection \<open>C7: flush and re-read failures are warnings\<close>

text \<open>
  C7.  (1) Whatever the flush and the partition-table ioctl answer, \<open>Write\<close> returns the
  same error or success, leaves the same world, and produces the same events apart from
  warning lines: replacing the two answers by any others changes nothing else.
  (2) In a run whose steps before the loop succeed and whose loop ends without error
  after processing at least one layer, \<open>Write\<close> returns no error; after the summary come
  the flush, a warning if and only if the flush failed, the ioctl with request
  \<open>BLKRRPART\<close> and argument 0, a warning if and only if it failed, and the close of
  the file.
\<close>

theorem Write_finalizer_warnings:
  "fst (Write (env\<lparr>file_Sync_error := s, unix_IoctlSetInt_error := i\<rparr>)
          sourceImage destinationDevice wld)
     = fst (Write env sourceImage destinationDevice wld)
   \<and> fst (snd (Write (env\<lparr>file_Sync_error := s, unix_IoctlSetInt_error := i\<rparr>)
          sourceImage destinationDevice wld))
     = fst (snd (Write env sourceImage destinationDevice wld))
   \<and> filter (\<lambda>e. \<not> is_warning e)
       (snd (snd (Write (env\<lparr>file_Sync_error := s, unix_IoctlSetInt_error := i\<rparr>)
          sourceImage destinationDevice wld)))
     = filter (\<lambda>e. \<not> is_warning e) (snd (snd (Write env sourceImage destinationDevice wld)))
   \<and> (setup_succeeds env sourceImage destinationDevice repo m \<and>
      Write_layers env repo (Layers m)
        \<lparr>totalBytes = 0, processedLayers = 0, fileOut = disk wld\<rparr> = (None, st, evl) \<and>
      0 < processedLayers st \<longrightarrow>
        (case Write env sourceImage destinationDevice wld of
           (res, wld', evs) \<Rightarrow>
             res = None \<and> disk wld' = fileOut st \<and>
             evs = events_before_layers env sourceImage destinationDevice repo @ evl
                   @ [EvLog Info (SuccessfullyProcessed (processedLayers st) (totalBytes st)),
                      EvSync]
                   @ (if file_Sync_error env = None then [] else [EvLog Warn FailedSync])
                   @ [EvIoctl BLKRRPART 0]
                   @ (if unix_IoctlSetInt_error env BLKRRPART 0 = None then []
                      else [EvLog Warn ErrorReprobing])
                   @ [EvCloseFile]))"
proof -
  have fin: "events_finalize env =
      [EvSync] @ (if file_Sync_error env = None then [] else [EvLog Warn FailedSync])
      @ [EvIoctl BLKRRPART 0]
      @ (if unix_IoctlSetInt_error env BLKRRPART 0 = None then []
         else [EvLog Warn ErrorReprobing])"
    by (simp add: events_finalize_def split: option.splits)
  have "setup_succeeds env sourceImage destinationDevice repo m \<and>
      Write_layers env repo (Layers m)
        \<lparr>totalBytes = 0, processedLayers = 0, fileOut = disk wld\<rparr> = (None, st, evl) \<and>
      0 < processedLayers st \<longrightarrow>
        (case Write env sourceImage destinationDevice wld of
           (res, wld', evs) \<Rightarrow>
             res = None \<and> disk wld' = fileOut st \<and>
             evs = events_before_layers env sourceImage destinationDevice repo @ evl
                   @ [EvLog Info (SuccessfullyProcessed (processedLayers st) (totalBytes st)),
                      EvSync]
                   @ (if file_Sync_error env = None then [] else [EvLog Warn FailedSync])
                   @ [EvIoctl BLKRRPART 0]
                   @ (if unix_IoctlSetInt_error env BLKRRPART 0 = None then []
                      else [EvLog Warn ErrorReprobing])
                   @ [EvCloseFile])"
  proof
    assume h: "setup_succeeds env sourceImage destinationDevice repo m \<and>
      Write_layers env repo (Layers m)
        \<lparr>totalBytes = 0, processedLayers = 0, fileOut = disk wld\<rparr> = (None, st, evl) \<and>
      0 < processedLayers st"
    then have su: "setup_succeeds env sourceImage destinationDevice repo m" by simp
    from h show "case Write env sourceImage destinationDevice wld of
           (res, wld', evs) \<Rightarrow>
             res = None \<and> disk wld' = fileOut st \<and>
             evs = events_before_layers env sourceImage destinationDevice repo @ evl
                   @ [EvLog Info (SuccessfullyProcessed (processedLayers st) (totalBytes st)),
                      EvSync]
                   @ (if file_Sync_error env = None then [] else [EvLog Warn FailedSync])
                   @ [EvIoctl BLKRRPART 0]
                   @ (if unix_IoctlSetInt_error env BLKRRPART 0 = None then []
                      else [EvLog Warn ErrorReprobing])
                   @ [EvCloseFile]"
      by (simp add: Write_after_setup [OF su] fin)
  qed
  with Write_finalizer_indep [of i s env sourceImage destinationDevice wld]
  show ?thesis by (intro conjI) simp_all
qed

theorem Write_finalizer_warnings_witness:
  "fst (Write (sample_env [sample_layer_raw]) ''reg.example/disk:v1'' ''/dev/sda'' sample_world)
     = None
   \<and> snd (snd (Write (sample_env [sample_layer_raw]) ''reg.example/disk:v1'' ''/dev/sda''
        sample_world)) =
       [EvOpenFile ''/dev/sda'' [O_CREATE, O_WRONLY] 420,
        EvLog Info (BeginningWrite ''disk:v1'' ''/dev/sda''),
        EvLog Info (FilteringPlatform ''linux'' ''amd64''), EvResolve ''v1'', EvFetchManifest,
        EvLog Info (FetchingLayer ''sha256:dd'' 3), EvFetch ''sha256:dd'', EvStartReporter 3,
        EvTickerStop, EvSendDone, EvCloseLayerReader ''sha256:dd'',
        EvLog Info (SuccessfullyProcessed 1 3),
        EvSync, EvLog Warn FailedSync, EvIoctl 4703 0, EvLog Warn ErrorReprobing, EvCloseFile]
   \<and> fst (Write ((sample_env [sample_layer_raw])
                 \<lparr>file_Sync_error := None, unix_IoctlSetInt_error := (\<lambda>req arg. None)\<rparr>)
          ''reg.example/disk:v1'' ''/dev/sda'' sample_world) = None"
proof -
  let ?E = "sample_env [sample_layer_raw]"
  let ?img = "''reg.example/disk:v1''" and ?dev = "''/dev/sda''"
  let ?r = "\<lparr>Reference = ''v1''\<rparr>"
  let ?st = "\<lparr>totalBytes = 3, processedLayers = 1,
               fileOut = whole_writer\<lparr>wr_written := [1, 2, 3]\<rparr>\<rparr>"
  let ?evl = "[EvLog Info (FetchingLayer ''sha256:dd'' 3), EvFetch ''sha256:dd'', EvStartReporter 3,
     EvTickerStop, EvSendDone, EvCloseLayerReader ''sha256:dd'']"
  note T = Write_finalizer_warnings
    [where env = ?E and s = None and i = "\<lambda>req arg. None" and sourceImage = ?img
       and destinationDevice = ?dev and wld = sample_world and repo = ?r
       and m = "\<lparr>Layers = [sample_layer_raw]\<rparr>" and st = ?st and evl = ?evl]
  have h: "setup_succeeds ?E ?img ?dev ?r \<lparr>Layers = [sample_layer_raw]\<rparr> \<and>
      Write_layers ?E ?r (Layers \<lparr>Layers = [sample_layer_raw]\<rparr>)
        \<lparr>totalBytes = 0, processedLayers = 0, fileOut = disk sample_world\<rparr> = (None, ?st, ?evl) \<and>
      0 < processedLayers ?st"
    using sample_setup [of "[sample_layer_raw]"] sample_run_raw [of "[sample_layer_raw]" ?r]
    by (simp add: sample_world_def del: Write_layers.simps)
  have fails: "file_Sync_error ?E \<noteq> None" "unix_IoctlSetInt_error ?E BLKRRPART 0 \<noteq> None"
    by (simp_all add: sample_env_def)
  from T [THEN conjunct2, THEN conjunct2, THEN conjunct2, THEN mp, OF h]
  have a: "fst (Write ?E ?img ?dev sample_world) = None
    \<and> snd (snd (Write ?E ?img ?dev sample_world)) =
       [EvOpenFile ''/dev/sda'' [O_CREATE, O_WRONLY] 420,
        EvLog Info (BeginningWrite ''disk:v1'' ''/dev/sda''),
        EvLog Info (FilteringPlatform ''linux'' ''amd64''), EvResolve ''v1'', EvFetchManifest,
        EvLog Info (FetchingLayer ''sha256:dd'' 3), EvFetch ''sha256:dd'', EvStartReporter 3,
        EvTickerStop, EvSendDone, EvCloseLayerReader ''sha256:dd'',
        EvLog Info (SuccessfullyProcessed 1 3),
        EvSync, EvLog Warn FailedSync, EvIoctl 4703 0, EvLog Warn ErrorReprobing, EvCloseFile]"
    using fails by (simp add: sample_before BLKRRPART_def split: prod.splits)
  from T [THEN conjunct1] a
  have "fst (Write (?E\<lparr>file_Sync_error := None, unix_IoctlSetInt_error := (\<lambda>req arg. None)\<rparr>)
          ?img ?dev sample_world) = None"
    by simp
  with a show ?thesis by blast
qed

subsection \<open>What the rendezvous guarantees\<close>

text \<open>
  What the rendezvous does guarantee.  The reporter writes its final line at most once:
  along any sequence of actions that can happen, the number of final reports is 1 if the
  reporter has returned and 0 if it has not.
\<close>

lemma step_reporter_returned:
  "step a s = Some s1 \<Longrightarrow>
   (a = FinalReport \<longrightarrow> reporter_at s \<noteq> R_Returned \<and> reporter_at s1 = R_Returned) \<and>
   (a \<noteq> FinalReport \<longrightarrow> (reporter_at s1 = R_Returned) = (reporter_at s = R_Returned))"
  by (cases a) (auto simp: step_def split: if_splits)

lemma schedule_final_report_once:
  "schedule as s = Some s' \<Longrightarrow>
   count_list as FinalReport + (if reporter_at s = R_Returned then 1 else 0)
     = (if reporter_at s' = R_Returned then 1 else 0)"
proof (induction as arbitrary: s)
  case Nil
  then show ?case by simp
next
  case (Cons a as)
  then obtain s1 where st: "step a s = Some s1" and rest: "schedule as s1 = Some s'"
    by (auto split: option.splits)
  from Cons.IH [OF rest] step_reporter_returned [OF st] show ?case
    by (cases "a = FinalReport") (simp_all split: if_splits)
qed

text \<open>
  And the main goroutine passes \<^verbatim>\<open>done <- true\<close> only once the reporter has received:
  whenever the main goroutine is at or past its \<^verbatim>\<open>Close\<close> calls, the reporter has left
  its \<^verbatim>\<open>select\<close> through the \<^verbatim>\<open>done\<close> case.  It need not have written its line yet.
\<close>

lemma step_stop_received: "step a s = Some s1 \<Longrightarrow> stop_received s \<Longrightarrow> stop_received s1"
  by (cases a) (auto simp: step_def stop_received_def split: if_splits)

lemma schedule_stop_received:
  "schedule as s = Some s' \<Longrightarrow> stop_received s \<Longrightarrow> stop_received s'"
proof (induction as arbitrary: s)
  case Nil
  then show ?case by simp
next
  case (Cons a as)
  then obtain s1 where st: "step a s = Some s1" and rest: "schedule as s1 = Some s'"
    by (auto split: option.splits)
  from Cons.IH [OF rest step_stop_received [OF st Cons.prems(2)]] show ?case .
qed

lemma layer_copy_reporter:
  "schedule as (layer_copy_start dec) = Some s' \<Longrightarrow>
   count_list as FinalReport = (if reporter_at s' = R_Returned then 1 else 0) \<and>
   stop_received s'"
  using schedule_final_report_once [of as "layer_copy_start dec" s']
    schedule_stop_received [of as "layer_copy_start dec" s']
  by (simp add: layer_copy_start_def stop_received_def)

subsection \<open>C8: the final report and the release of the streams\<close>

text \<open>
  C8.  Stopping the reporter is to be awaited until the final report is out, so that
  the report precedes the release of the decompressor and of the fetched stream.  The
  code does not do this: it awaits the receive on \<^verbatim>\<open>done\<close> and nothing after it.  For
  a copy that returns before the first tick, with a decompressor:
  (1) after \<^verbatim>\<open>ticker.Stop()\<close>, the rendezvous, \<^verbatim>\<open>decompressor.Close()\<close> and
  \<^verbatim>\<open>layerReader.Close()\<close> the main goroutine has released both streams while the reporter
  has yet to write its final line;
  (2) the final line then comes after both \<^verbatim>\<open>Close\<close> calls;
  (3) the same without a decompressor;
  (4) the order the claim describes, report first, is one more schedule that can happen.
  Which one happens is left to the scheduler.
\<close>

theorem final_report_after_release:
  "schedule [CopyReturns, StopTicker, DoneRendezvous, CloseDecompressor, CloseLayerReader]
      (layer_copy_start True) =
     Some \<lparr>main_at = M_Released, reporter_at = R_LogFinal, tick_waiting = False,
           with_decompressor = True\<rparr>
   \<and> schedule [CopyReturns, StopTicker, DoneRendezvous, CloseDecompressor, CloseLayerReader,
                FinalReport]
        (layer_copy_start True) =
       Some \<lparr>main_at = M_Released, reporter_at = R_Returned, tick_waiting = False,
             with_decompressor = True\<rparr>
   \<and> schedule [CopyReturns, StopTicker, DoneRendezvous, CloseLayerReader, FinalReport]
        (layer_copy_start False) =
       Some \<lparr>main_at = M_Released, reporter_at = R_Returned, tick_waiting = False,
             with_decompressor = False\<rparr>
   \<and> schedule [CopyReturns, StopTicker, DoneRendezvous, FinalReport, CloseDecompressor,
                CloseLayerReader]
        (layer_copy_start True) =
       Some \<lparr>main_at = M_Released, reporter_at = R_Returned, tick_waiting = False,
             with_decompressor = True\<rparr>"
  by (simp add: step_def layer_copy_start_def)

subsection \<open>C9: the file is opened before the reference is checked\<close>

text \<open>
  C9.  \<open>Write\<close> opens the destination with \<open>O_CREATE|O_WRONLY\<close> and mode \<open>0o644\<close>
  (420) right after the repository is created and before it looks at the tag or digest.
  With a reference that has neither: (1) if the open succeeds, \<open>Write\<close> returns the
  invalid-reference error, and by then the file has been opened, the path exists, whether
  or not it existed before, the first log line is written and the file is closed again;
  (2) if the open fails, \<open>Write\<close> returns the error of the open, not the
  invalid-reference error.
\<close>

theorem Write_opens_before_reference_check:
  "(remote_NewRepository env sourceImage = Inr repo \<and> Reference repo = '''' \<and>
    os_OpenFile_error env destinationDevice = None \<longrightarrow>
      Write env sourceImage destinationDevice wld =
        (Some InvalidReference,
         wld\<lparr>paths := insert destinationDevice (paths wld)\<rparr>,
         [EvOpenFile destinationDevice [O_CREATE, O_WRONLY] 420,
          EvLog Info (BeginningWrite (filepath_Base sourceImage) destinationDevice),
          EvCloseFile]) \<and>
      destinationDevice \<in> paths (fst (snd (Write env sourceImage destinationDevice wld))))
   \<and> (remote_NewRepository env sourceImage = Inr repo \<and> Reference repo = '''' \<and>
      os_OpenFile_error env destinationDevice = Some e \<longrightarrow>
      Write env sourceImage destinationDevice wld =
        (Some (OpenFailed e), wld, [EvOpenFile destinationDevice [O_CREATE, O_WRONLY] 420]))"
  by (simp add: Write_def os_OpenFile_def Write_body_def perm_0644_def)

theorem Write_opens_before_reference_check_witness:
  "Write (sample_env []) ''reg.example/disk'' ''/dev/sda'' sample_world =
     (Some InvalidReference, sample_world\<lparr>paths := {''/dev/sda''}\<rparr>,
      [EvOpenFile ''/dev/sda'' [O_CREATE, O_WRONLY] 420,
       EvLog Info (BeginningWrite ''disk'' ''/dev/sda''), EvCloseFile])
   \<and> ''/dev/sda'' \<in> paths (fst (snd (Write (sample_env []) ''reg.example/disk'' ''/dev/sda''
        sample_world)))
   \<and> ''/dev/sda'' \<notin> paths sample_world
   \<and> Write (sample_env []) ''reg.example/disk'' ''/dev/sdb'' sample_world =
       (Some (OpenFailed ''permission denied''), sample_world,
        [EvOpenFile ''/dev/sdb'' [O_CREATE, O_WRONLY] 420])"
proof -
  let ?E = "sample_env []"
  have h1: "remote_NewRepository ?E ''reg.example/disk'' = Inr \<lparr>Reference = ''''\<rparr> \<and>
      Reference \<lparr>Reference = ''''\<rparr> = '''' \<and> os_OpenFile_error ?E ''/dev/sda'' = None"
    by (simp add: sample_env_def)
  have h2: "remote_NewRepository ?E ''reg.example/disk'' = Inr \<lparr>Reference = ''''\<rparr> \<and>
      Reference \<lparr>Reference = ''''\<rparr> = '''' \<and>
      os_OpenFile_error ?E ''/dev/sdb'' = Some ''permission denied''"
    by (simp add: sample_env_def)
  have b: "filepath_Base ''reg.example/disk'' = ''disk''" by (simp add: filepath_Base_def)
  have p: "paths sample_world = {}" by (simp add: sample_world_def)
  from Write_opens_before_reference_check
    [of ?E "''reg.example/disk''" "\<lparr>Reference = ''''\<rparr>" "''/dev/sda''" sample_world,
     THEN conjunct1, THEN mp, OF h1]
    Write_opens_before_reference_check
    [of ?E "''reg.example/disk''" "\<lparr>Reference = ''''\<rparr>" "''/dev/sdb''" sample_world
        "''permission denied''",
     THEN conjunct2, THEN mp, OF h2]
  show ?thesis unfolding b p by simp
qed

lemma io_Copy_honest:
  assumes "\<forall>sofar b. 0 \<le> fst (wr_accept wr sofar b) \<and> fst (wr_accept wr sofar b) \<le> int (length b)"
    and "io_Copy (NewProgress wr rd) = (written, err, p')"
  shows "\<exists>ys. wr_written (p_w p') = wr_written wr @ ys \<and> prefix ys (stream_bytes rd) \<and>
              writeBytes p' = of_nat (length ys)"
proof -
  from assms(1) have "\<forall>sofar b. 0 \<le> fst (wr_accept (p_w (NewProgress wr rd)) sofar b) \<and>
      fst (wr_accept (p_w (NewProgress wr rd)) sofar b) \<le> int (length b)"
    by (simp add: NewProgress_def)
  with io_Copy_loop_honest_aux [of "NewProgress wr rd" 0] assms(2)
  show ?thesis by (auto simp: io_Copy_def NewProgress_def writeBytes_def)
qed

subsection \<open>C10: no rollback\<close>

text \<open>
  C10.  Take a run whose steps before the layer loop succeed and whose layers before
  \<open>layer\<close> are processed without error, leaving the state \<open>st1\<close>; \<open>layer\<close> is
  recognized.  By then the log of the bytes written through the destination file has
  gained \<open>ys1\<close>, the bytes of the earlier layers, which the total counts.  Then, for
  each of the three ways \<open>layer\<close> can fail:
  (1) if its fetch fails, \<open>Write\<close> returns the layer-fetch error and the file is as the
  earlier layers left it;
  (2) if its decompressor cannot be opened, \<open>Write\<close> returns the decompressor error and
  the file is as the earlier layers left it;
  (3) if its copy ends with the error \<open>cerr\<close>, \<open>Write\<close> returns the device-write error
  wrapping \<open>cerr\<close>, and the file is the one the copy left behind: its log is the log
  after the earlier layers, followed by the bytes \<open>ys2\<close> that the writes of the failing
  copy took.
  When the counts of the file keep the contract of \<^verbatim>\<open>io.Writer\<close>, \<open>ys2\<close> is a first part
  of the layer's stream and its length is the write counter of the copy; when the file
  takes every chunk whole, the copy can only have failed on a read error, and \<open>ys2\<close> is
  everything the source delivered before that error.
  In all three cases nothing written is taken back (the log only grows, and the file
  handed back to the world is the one the run last wrote through), no later layer is
  fetched, and the only event after the failing layer's own is the close of the file.
  The log records what was written, from the start of the file on; what the device held
  before the run beyond these bytes is not part of the statement.
\<close>

theorem Write_no_rollback:
  "setup_succeeds env sourceImage destinationDevice repo m \<and>
   Layers m = pre @ layer # post \<and>
   Write_layers env repo pre \<lparr>totalBytes = 0, processedLayers = 0, fileOut = disk wld\<rparr>
     = (None, st1, ev1) \<and>
   recognized layer \<longrightarrow>
     (\<exists>ys1. wr_written (fileOut st1) = wr_written (disk wld) @ ys1 \<and>
            totalBytes st1 = of_nat (length ys1)) \<and>
     fetched ev1 = map Digest (filter recognized pre) \<and>
     (repo_Fetch env repo layer = Inl e \<longrightarrow>
        Write env sourceImage destinationDevice wld =
          (Some (LayerFetchFailed (Digest layer) e),
           wld\<lparr>paths := insert destinationDevice (paths wld), disk := fileOut st1\<rparr>,
           events_before_layers env sourceImage destinationDevice repo @ ev1
           @ [EvLog Info (FetchingLayer (Digest layer) (Size layer)), EvFetch (Digest layer),
              EvCloseFile])) \<and>
     (repo_Fetch env repo layer = Inr layerReader \<and>
      layer_source env layer layerReader = Inl cause \<longrightarrow>
        Write env sourceImage destinationDevice wld =
          (Some (DecompressorFailed cause),
           wld\<lparr>paths := insert destinationDevice (paths wld), disk := fileOut st1\<rparr>,
           events_before_layers env sourceImage destinationDevice repo @ ev1
           @ [EvLog Info (FetchingLayer (Digest layer) (Size layer)), EvFetch (Digest layer),
              EvCloseLayerReader (Digest layer), EvCloseFile])) \<and>
     (repo_Fetch env repo layer = Inr layerReader \<and>
      layer_source env layer layerReader = Inr (sourceReader, decompressor) \<and>
      io_Copy (NewProgress (fileOut st1) sourceReader) = (written, Some cerr, progress') \<longrightarrow>
        Write env sourceImage destinationDevice wld =
          (Some (DeviceWriteFailed cerr),
           wld\<lparr>paths := insert destinationDevice (paths wld), disk := p_w progress'\<rparr>,
           events_before_layers env sourceImage destinationDevice repo @ ev1
           @ [EvLog Info (FetchingLayer (Digest layer) (Size layer)), EvFetch (Digest layer),
              EvStartReporter (Size layer), EvTickerStop, EvSendDone]
           @ (case decompressor of Some c \<Rightarrow> [EvCloseDecompressor c] | None \<Rightarrow> [])
           @ [EvCloseLayerReader (Digest layer), EvCloseFile]) \<and>
        (\<exists>ys2. wr_written (p_w progress') = wr_written (fileOut st1) @ ys2) \<and>
        ((\<forall>sofar b. 0 \<le> fst (wr_accept (disk wld) sofar b) \<and>
                    fst (wr_accept (disk wld) sofar b) \<le> int (length b)) \<longrightarrow>
           (\<exists>ys2. wr_written (p_w progress') = wr_written (fileOut st1) @ ys2 \<and>
                  prefix ys2 (stream_bytes sourceReader) \<and>
                  writeBytes progress' = of_nat (length ys2))) \<and>
        ((\<forall>sofar b. wr_accept (disk wld) sofar b = (int (length b), None)) \<longrightarrow>
           wr_written (p_w progress') = wr_written (fileOut st1) @ stream_bytes sourceReader \<and>
           (\<exists>e. stream_end sourceReader = ReadErr e \<and> cerr = ReadFailed e)))"
proof (intro impI)
  assume h: "setup_succeeds env sourceImage destinationDevice repo m \<and>
   Layers m = pre @ layer # post \<and>
   Write_layers env repo pre \<lparr>totalBytes = 0, processedLayers = 0, fileOut = disk wld\<rparr>
     = (None, st1, ev1) \<and>
   recognized layer"
  then have su: "setup_succeeds env sourceImage destinationDevice repo m"
    and layers: "Layers m = pre @ layer # post"
    and pre: "Write_layers env repo pre \<lparr>totalBytes = 0, processedLayers = 0, fileOut = disk wld\<rparr>
        = (None, st1, ev1)"
    and rec: "recognized layer"
    by simp_all
  from Write_layers_frame [OF pre]
  have acc: "wr_accept (fileOut st1) = wr_accept (disk wld)" by simp
  from Write_layers_success [OF pre]
  have c1: "\<exists>ys1. wr_written (fileOut st1) = wr_written (disk wld) @ ys1 \<and>
            totalBytes st1 = of_nat (length ys1)"
    and c2: "fetched ev1 = map Digest (filter recognized pre)"
    by simp_all
  have c3: "repo_Fetch env repo layer = Inl e \<longrightarrow>
        Write env sourceImage destinationDevice wld =
          (Some (LayerFetchFailed (Digest layer) e),
           wld\<lparr>paths := insert destinationDevice (paths wld), disk := fileOut st1\<rparr>,
           events_before_layers env sourceImage destinationDevice repo @ ev1
           @ [EvLog Info (FetchingLayer (Digest layer) (Size layer)), EvFetch (Digest layer),
              EvCloseFile])"
  proof
    assume "repo_Fetch env repo layer = Inl e"
    then have one: "Write_layer env repo layer st1 =
        (Some (LayerFetchFailed (Digest layer) e), st1,
         [EvLog Info (FetchingLayer (Digest layer) (Size layer)), EvFetch (Digest layer)])"
      by (simp add: Write_layer_def)
    note run = Write_layers_stops [OF pre rec one, of post]
    show "Write env sourceImage destinationDevice wld =
          (Some (LayerFetchFailed (Digest layer) e),
           wld\<lparr>paths := insert destinationDevice (paths wld), disk := fileOut st1\<rparr>,
           events_before_layers env sourceImage destinationDevice repo @ ev1
           @ [EvLog Info (FetchingLayer (Digest layer) (Size layer)), EvFetch (Digest layer),
              EvCloseFile])"
      by (simp add: Write_after_setup [OF su] layers run)
  qed
  have c4: "repo_Fetch env repo layer = Inr layerReader \<and>
      layer_source env layer layerReader = Inl cause \<longrightarrow>
        Write env sourceImage destinationDevice wld =
          (Some (DecompressorFailed cause),
           wld\<lparr>paths := insert destinationDevice (paths wld), disk := fileOut st1\<rparr>,
           events_before_layers env sourceImage destinationDevice repo @ ev1
           @ [EvLog Info (FetchingLayer (Digest layer) (Size layer)), EvFetch (Digest layer),
              EvCloseLayerReader (Digest layer), EvCloseFile])"
  proof
    assume "repo_Fetch env repo layer = Inr layerReader \<and>
      layer_source env layer layerReader = Inl cause"
    then have one: "Write_layer env repo layer st1 =
        (Some (DecompressorFailed cause), st1,
         [EvLog Info (FetchingLayer (Digest layer) (Size layer)), EvFetch (Digest layer),
          EvCloseLayerReader (Digest layer)])"
      by (simp add: Write_layer_def)
    note run = Write_layers_stops [OF pre rec one, of post]
    show "Write env sourceImage destinationDevice wld =
          (Some (DecompressorFailed cause),
           wld\<lparr>paths := insert destinationDevice (paths wld), disk := fileOut st1\<rparr>,
           events_before_layers env sourceImage destinationDevice repo @ ev1
           @ [EvLog Info (FetchingLayer (Digest layer) (Size layer)), EvFetch (Digest layer),
              EvCloseLayerReader (Digest layer), EvCloseFile])"
      by (simp add: Write_after_setup [OF su] layers run)
  qed
  have c5: "repo_Fetch env repo layer = Inr layerReader \<and>
      layer_source env layer layerReader = Inr (sourceReader, decompressor) \<and>
      io_Copy (NewProgress (fileOut st1) sourceReader) = (written, Some cerr, progress') \<longrightarrow>
        Write env sourceImage destinationDevice wld =
          (Some (DeviceWriteFailed cerr),
           wld\<lparr>paths := insert destinationDevice (paths wld), disk := p_w progress'\<rparr>,
           events_before_layers env sourceImage destinationDevice repo @ ev1
           @ [EvLog Info (FetchingLayer (Digest layer) (Size layer)), EvFetch (Digest layer),
              EvStartReporter (Size layer), EvTickerStop, EvSendDone]
           @ (case decompressor of Some c \<Rightarrow> [EvCloseDecompressor c] | None \<Rightarrow> [])
           @ [EvCloseLayerReader (Digest layer), EvCloseFile]) \<and>
        (\<exists>ys2. wr_written (p_w progress') = wr_written (fileOut st1) @ ys2) \<and>
        ((\<forall>sofar b. 0 \<le> fst (wr_accept (disk wld) sofar b) \<and>
                    fst (wr_accept (disk wld) sofar b) \<le> int (length b)) \<longrightarrow>
           (\<exists>ys2. wr_written (p_w progress') = wr_written (fileOut st1) @ ys2 \<and>
                  prefix ys2 (stream_bytes sourceReader) \<and>
                  writeBytes progress' = of_nat (length ys2))) \<and>
        ((\<forall>sofar b. wr_accept (disk wld) sofar b = (int (length b), None)) \<longrightarrow>
           wr_written (p_w progress') = wr_written (fileOut st1) @ stream_bytes sourceReader \<and>
           (\<exists>e. stream_end sourceReader = ReadErr e \<and> cerr = ReadFailed e))"
  proof (intro impI)
    assume a: "repo_Fetch env repo layer = Inr layerReader \<and>
      layer_source env layer layerReader = Inr (sourceReader, decompressor) \<and>
      io_Copy (NewProgress (fileOut st1) sourceReader) = (written, Some cerr, progress')"
    then have cp: "io_Copy (NewProgress (fileOut st1) sourceReader) = (written, Some cerr, progress')"
      by simp
    from a have one: "Write_layer env repo layer st1 =
        (Some (DeviceWriteFailed cerr), st1\<lparr>fileOut := p_w progress'\<rparr>,
         [EvLog Info (FetchingLayer (Digest layer) (Size layer)), EvFetch (Digest layer),
          EvStartReporter (Size layer), EvTickerStop, EvSendDone]
         @ (case decompressor of Some c \<Rightarrow> [EvCloseDecompressor c] | None \<Rightarrow> [])
         @ [EvCloseLayerReader (Digest layer)])"
      by (simp add: Write_layer_def)
    note run = Write_layers_stops [OF pre rec one, of post]
    have w: "Write env sourceImage destinationDevice wld =
          (Some (DeviceWriteFailed cerr),
           wld\<lparr>paths := insert destinationDevice (paths wld), disk := p_w progress'\<rparr>,
           events_before_layers env sourceImage destinationDevice repo @ ev1
           @ [EvLog Info (FetchingLayer (Digest layer) (Size layer)), EvFetch (Digest layer),
              EvStartReporter (Size layer), EvTickerStop, EvSendDone]
           @ (case decompressor of Some c \<Rightarrow> [EvCloseDecompressor c] | None \<Rightarrow> [])
           @ [EvCloseLayerReader (Digest layer), EvCloseFile])"
      by (simp add: Write_after_setup [OF su] layers run)
    from io_Copy_frame [OF cp]
    have "prefix (wr_written (fileOut st1)) (wr_written (p_w progress'))"
      by (simp add: NewProgress_def)
    then have any: "\<exists>ys2. wr_written (p_w progress') = wr_written (fileOut st1) @ ys2"
      by (simp add: prefix_def)
    have honest: "(\<forall>sofar b. 0 \<le> fst (wr_accept (disk wld) sofar b) \<and>
                    fst (wr_accept (disk wld) sofar b) \<le> int (length b)) \<longrightarrow>
           (\<exists>ys2. wr_written (p_w progress') = wr_written (fileOut st1) @ ys2 \<and>
                  prefix ys2 (stream_bytes sourceReader) \<and>
                  writeBytes progress' = of_nat (length ys2))"
    proof
      assume "\<forall>sofar b. 0 \<le> fst (wr_accept (disk wld) sofar b) \<and>
                    fst (wr_accept (disk wld) sofar b) \<le> int (length b)"
      then have "\<forall>sofar b. 0 \<le> fst (wr_accept (fileOut st1) sofar b) \<and>
                    fst (wr_accept (fileOut st1) sofar b) \<le> int (length b)"
        by (simp add: acc)
      then show "\<exists>ys2. wr_written (p_w progress') = wr_written (fileOut st1) @ ys2 \<and>
                  prefix ys2 (stream_bytes sourceReader) \<and>
                  writeBytes progress' = of_nat (length ys2)"
        using cp by (rule io_Copy_honest)
    qed
    have full: "(\<forall>sofar b. wr_accept (disk wld) sofar b = (int (length b), None)) \<longrightarrow>
           wr_written (p_w progress') = wr_written (fileOut st1) @ stream_bytes sourceReader \<and>
           (\<exists>e. stream_end sourceReader = ReadErr e \<and> cerr = ReadFailed e)"
    proof
      assume "\<forall>sofar b. wr_accept (disk wld) sofar b = (int (length b), None)"
      then have "\<forall>sofar b. wr_accept (fileOut st1) sofar b = (int (length b), None)"
        by (simp add: acc)
      from io_Copy_full [OF this cp]
      show "wr_written (p_w progress') = wr_written (fileOut st1) @ stream_bytes sourceReader \<and>
           (\<exists>e. stream_end sourceReader = ReadErr e \<and> cerr = ReadFailed e)"
        by (cases "stream_end sourceReader") (simp_all add: read_error_def)
    qed
    from w any honest full
    show "Write env sourceImage destinationDevice wld =
          (Some (DeviceWriteFailed cerr),
           wld\<lparr>paths := insert destinationDevice (paths wld), disk := p_w progress'\<rparr>,
           events_before_layers env sourceImage destinationDevice repo @ ev1
           @ [EvLog Info (FetchingLayer (Digest layer) (Size layer)), EvFetch (Digest layer),
              EvStartReporter (Size layer), EvTickerStop, EvSendDone]
           @ (case decompressor of Some c \<Rightarrow> [EvCloseDecompressor c] | None \<Rightarrow> [])
           @ [EvCloseLayerReader (Digest layer), EvCloseFile]) \<and>
        (\<exists>ys2. wr_written (p_w progress') = wr_written (fileOut st1) @ ys2) \<and>
        ((\<forall>sofar b. 0 \<le> fst (wr_accept (disk wld) sofar b) \<and>
                    fst (wr_accept (disk wld) sofar b) \<le> int (length b)) \<longrightarrow>
           (\<exists>ys2. wr_written (p_w progress') = wr_written (fileOut st1) @ ys2 \<and>
                  prefix ys2 (stream_bytes sourceReader) \<and>
                  writeBytes progress' = of_nat (length ys2))) \<and>
        ((\<forall>sofar b. wr_accept (disk wld) sofar b = (int (length b), None)) \<longrightarrow>
           wr_written (p_w progress') = wr_written (fileOut st1) @ stream_bytes sourceReader \<and>
           (\<exists>e. stream_end sourceReader = ReadErr e \<and> cerr = ReadFailed e))"
      by (intro conjI)
  qed
  from c1 c2 c3 c4 c5
  show "(\<exists>ys1. wr_written (fileOut st1) = wr_written (disk wld) @ ys1 \<and>
            totalBytes st1 = of_nat (length ys1)) \<and>
     fetched ev1 = map Digest (filter recognized pre) \<and>
     (repo_Fetch env repo layer = Inl e \<longrightarrow>
        Write env sourceImage destinationDevice wld =
          (Some (LayerFetchFailed (Digest layer) e),
           wld\<lparr>paths := insert destinationDevice (paths wld), disk := fileOut st1\<rparr>,
           events_before_layers env sourceImage destinationDevice repo @ ev1
           @ [EvLog Info (FetchingLayer (Digest layer) (Size layer)), EvFetch (Digest layer),
              EvCloseFile])) \<and>
     (repo_Fetch env repo layer = Inr layerReader \<and>
      layer_source env layer layerReader = Inl cause \<longrightarrow>
        Write env sourceImage destinationDevice wld =
          (Some (DecompressorFailed cause),
           wld\<lparr>paths := insert destinationDevice (paths wld), disk := fileOut st1\<rparr>,
           events_before_layers env sourceImage destinationDevice repo @ ev1
           @ [EvLog Info (FetchingLayer (Digest layer) (Size layer)), EvFetch (Digest layer),
              EvCloseLayerReader (Digest layer), EvCloseFile])) \<and>
     (repo_Fetch env repo layer = Inr layerReader \<and>
      layer_source env layer layerReader = Inr (sourceReader, decompressor) \<and>
      io_Copy (NewProgress (fileOut st1) sourceReader) = (written, Some cerr, progress') \<longrightarrow>
        Write env sourceImage destinationDevice wld =
          (Some (DeviceWriteFailed cerr),
           wld\<lparr>paths := insert destinationDevice (paths wld), disk := p_w progress'\<rparr>,
           events_before_layers env sourceImage destinationDevice repo @ ev1
           @ [EvLog Info (FetchingLayer (Digest layer) (Size layer)), EvFetch (Digest layer),
              EvStartReporter (Size layer), EvTickerStop, EvSendDone]
           @ (case decompressor of Some c \<Rightarrow> [EvCloseDecompressor c] | None \<Rightarrow> [])
           @ [EvCloseLayerReader (Digest layer), EvCloseFile]) \<and>
        (\<exists>ys2. wr_written (p_w progress') = wr_written (fileOut st1) @ ys2) \<and>
        ((\<forall>sofar b. 0 \<le> fst (wr_accept (disk wld) sofar b) \<and>
                    fst (wr_accept (disk wld) sofar b) \<le> int (length b)) \<longrightarrow>
           (\<exists>ys2. wr_written (p_w progress') = wr_written (fileOut st1) @ ys2 \<and>
                  prefix ys2 (stream_bytes sourceReader) \<and>
                  writeBytes progress' = of_nat (length ys2))) \<and>
        ((\<forall>sofar b. wr_accept (disk wld) sofar b = (int (length b), None)) \<longrightarrow>
           wr_written (p_w progress') = wr_written (fileOut st1) @ stream_bytes sourceReader \<and>
           (\<exists>e. stream_end sourceReader = ReadErr e \<and> cerr = ReadFailed e)))"
    by (intro conjI)
qed

theorem Write_no_rollback_witness:
  "Write (sample_env [sample_layer_raw, sample_layer_missing, sample_layer_gz])
      ''reg.example/disk:v1'' ''/dev/sda'' sample_world =
     (Some (LayerFetchFailed ''sha256:ff'' ''blob unknown''),
      sample_world\<lparr>paths := {''/dev/sda''}, disk := whole_writer\<lparr>wr_written := [1, 2, 3]\<rparr>\<rparr>,
      [EvOpenFile ''/dev/sda'' [O_CREATE, O_WRONLY] 420,
       EvLog Info (BeginningWrite ''disk:v1'' ''/dev/sda''),
       EvLog Info (FilteringPlatform ''linux'' ''amd64''), EvResolve ''v1'', EvFetchManifest,
       EvLog Info (FetchingLayer ''sha256:dd'' 3), EvFetch ''sha256:dd'', EvStartReporter 3,
       EvTickerStop, EvSendDone, EvCloseLayerReader ''sha256:dd'',
       EvLog Info (FetchingLayer ''sha256:ff'' 5), EvFetch ''sha256:ff'', EvCloseFile])
   \<and> Write (sample_env [sample_layer_raw, sample_layer_xz, sample_layer_gz])
        ''reg.example/disk:v1'' ''/dev/sda'' sample_world =
     (Some (DecompressorFailed (XzInit ''xz: invalid header'')),
      sample_world\<lparr>paths := {''/dev/sda''}, disk := whole_writer\<lparr>wr_written := [1, 2, 3]\<rparr>\<rparr>,
      [EvOpenFile ''/dev/sda'' [O_CREATE, O_WRONLY] 420,
       EvLog Info (BeginningWrite ''disk:v1'' ''/dev/sda''),
       EvLog Info (FilteringPlatform ''linux'' ''amd64''), EvResolve ''v1'', EvFetchManifest,
       EvLog Info (FetchingLayer ''sha256:dd'' 3), EvFetch ''sha256:dd'', EvStartReporter 3,
       EvTickerStop, EvSendDone, EvCloseLayerReader ''sha256:dd'',
       EvLog Info (FetchingLayer ''sha256:cc'' 4), EvFetch ''sha256:cc'',
       EvCloseLayerReader ''sha256:cc'', EvCloseFile])
   \<and> Write (sample_env [sample_layer_raw, sample_layer_broken, sample_layer_gz])
        ''reg.example/disk:v1'' ''/dev/sda'' sample_world =
     (Some (DeviceWriteFailed (ReadFailed ''connection reset'')),
      sample_world\<lparr>paths := {''/dev/sda''},
                    disk := whole_writer\<lparr>wr_written := [1, 2, 3, 5, 6, 7]\<rparr>\<rparr>,
      [EvOpenFile ''/dev/sda'' [O_CREATE, O_WRONLY] 420,
       EvLog Info (BeginningWrite ''disk:v1'' ''/dev/sda''),
       EvLog Info (FilteringPlatform ''linux'' ''amd64''), EvResolve ''v1'', EvFetchManifest,
       EvLog Info (FetchingLayer ''sha256:dd'' 3), EvFetch ''sha256:dd'', EvStartReporter 3,
       EvTickerStop, EvSendDone, EvCloseLayerReader ''sha256:dd'',
       EvLog Info (FetchingLayer ''sha256:ee'' 9), EvFetch ''sha256:ee'', EvStartReporter 9,
       EvTickerStop, EvSendDone, EvCloseLayerReader ''sha256:ee'', EvCloseFile])
   \<and> stream_bytes [(Bytes [5, 6], None), (Bytes [7], Some (ReadErr ''connection reset''))]
       = [5, 6, 7]"
proof -
  let ?img = "''reg.example/disk:v1''" and ?dev = "''/dev/sda''"
  let ?r = "\<lparr>Reference = ''v1''\<rparr>"
  let ?st1 = "\<lparr>totalBytes = 3, processedLayers = 1,
                fileOut = whole_writer\<lparr>wr_written := [1, 2, 3]\<rparr>\<rparr>"
  let ?ev1 = "[EvLog Info (FetchingLayer ''sha256:dd'' 3), EvFetch ''sha256:dd'', EvStartReporter 3,
     EvTickerStop, EvSendDone, EvCloseLayerReader ''sha256:dd'']"
  let ?gz = "[(Bytes [0x1f, 0x8b, 8, 0], Some EOF)] :: reader"
  let ?broken = "[(Bytes [5, 6], None), (Bytes [7], Some (ReadErr ''connection reset''))] :: reader"
  let ?p' = "\<lparr>p_w = whole_writer\<lparr>wr_written := [1, 2, 3, 5, 6, 7]\<rparr>, p_r = [],
              wBytes = 3, rBytes = 3\<rparr>"
  have h: "setup_succeeds (sample_env ([sample_layer_raw] @ l # [sample_layer_gz])) ?img ?dev ?r
       \<lparr>Layers = [sample_layer_raw] @ l # [sample_layer_gz]\<rparr> \<and>
     Layers \<lparr>Layers = [sample_layer_raw] @ l # [sample_layer_gz]\<rparr>
       = [sample_layer_raw] @ l # [sample_layer_gz] \<and>
     Write_layers (sample_env ([sample_layer_raw] @ l # [sample_layer_gz])) ?r [sample_layer_raw]
       \<lparr>totalBytes = 0, processedLayers = 0, fileOut = disk sample_world\<rparr> = (None, ?st1, ?ev1) \<and>
     recognized l" if "recognized l" for l
    using sample_setup [of "[sample_layer_raw] @ l # [sample_layer_gz]"]
      sample_run_raw [of "[sample_layer_raw] @ l # [sample_layer_gz]" ?r] that
    by (simp add: sample_world_def del: Write_layers.simps)
  have pw: "sample_world\<lparr>paths := insert ?dev (paths sample_world), disk := d\<rparr>
      = sample_world\<lparr>paths := {''/dev/sda''}, disk := d\<rparr>" for d
    by (simp add: sample_world_def)
  have fm: "repo_Fetch (sample_env L) ?r sample_layer_missing = Inl ''blob unknown''" for L
    by (simp add: sample_env_def sample_layer_missing_def)
  have dm: "Digest sample_layer_missing = ''sha256:ff''" "Size sample_layer_missing = 5"
    by (simp_all add: sample_layer_missing_def)
  from Write_no_rollback
    [where env = "sample_env ([sample_layer_raw] @ sample_layer_missing # [sample_layer_gz])"
       and sourceImage = ?img and destinationDevice = ?dev and repo = ?r
       and m = "\<lparr>Layers = [sample_layer_raw] @ sample_layer_missing # [sample_layer_gz]\<rparr>"
       and pre = "[sample_layer_raw]" and layer = sample_layer_missing
       and post = "[sample_layer_gz]" and wld = sample_world and ?st1.0 = ?st1 and ?ev1.0 = ?ev1
       and e = "''blob unknown''",
     THEN mp, OF h [OF sample_recognized(6)],
     THEN conjunct2, THEN conjunct2, THEN conjunct1, THEN mp, OF fm]
  have a: "Write (sample_env [sample_layer_raw, sample_layer_missing, sample_layer_gz])
      ?img ?dev sample_world =
     (Some (LayerFetchFailed ''sha256:ff'' ''blob unknown''),
      sample_world\<lparr>paths := {''/dev/sda''}, disk := whole_writer\<lparr>wr_written := [1, 2, 3]\<rparr>\<rparr>,
      [EvOpenFile ''/dev/sda'' [O_CREATE, O_WRONLY] 420,
       EvLog Info (BeginningWrite ''disk:v1'' ''/dev/sda''),
       EvLog Info (FilteringPlatform ''linux'' ''amd64''), EvResolve ''v1'', EvFetchManifest,
       EvLog Info (FetchingLayer ''sha256:dd'' 3), EvFetch ''sha256:dd'', EvStartReporter 3,
       EvTickerStop, EvSendDone, EvCloseLayerReader ''sha256:dd'',
       EvLog Info (FetchingLayer ''sha256:ff'' 5), EvFetch ''sha256:ff'', EvCloseFile])"
    unfolding pw dm by (simp add: sample_before)
  have fx: "repo_Fetch (sample_env L) ?r sample_layer_xz = Inr ?gz \<and>
      layer_source (sample_env L) sample_layer_xz ?gz = Inl (XzInit ''xz: invalid header'')" for L
    by (simp add: sample_env_def sample_layer_xz_def layer_source_def findDecompressor_def
        filepath_Ext_def AnnotationTitle_def)
  have dx: "Digest sample_layer_xz = ''sha256:cc''" "Size sample_layer_xz = 4"
    by (simp_all add: sample_layer_xz_def)
  from Write_no_rollback
    [where env = "sample_env ([sample_layer_raw] @ sample_layer_xz # [sample_layer_gz])"
       and sourceImage = ?img and destinationDevice = ?dev and repo = ?r
       and m = "\<lparr>Layers = [sample_layer_raw] @ sample_layer_xz # [sample_layer_gz]\<rparr>"
       and pre = "[sample_layer_raw]" and layer = sample_layer_xz
       and post = "[sample_layer_gz]" and wld = sample_world and ?st1.0 = ?st1 and ?ev1.0 = ?ev1
       and layerReader = ?gz and cause = "XzInit ''xz: invalid header''",
     THEN mp, OF h [OF sample_recognized(3)],
     THEN conjunct2, THEN conjunct2, THEN conjunct2, THEN conjunct1, THEN mp, OF fx]
  have b: "Write (sample_env [sample_layer_raw, sample_layer_xz, sample_layer_gz])
        ?img ?dev sample_world =
     (Some (DecompressorFailed (XzInit ''xz: invalid header'')),
      sample_world\<lparr>paths := {''/dev/sda''}, disk := whole_writer\<lparr>wr_written := [1, 2, 3]\<rparr>\<rparr>,
      [EvOpenFile ''/dev/sda'' [O_CREATE, O_WRONLY] 420,
       EvLog Info (BeginningWrite ''disk:v1'' ''/dev/sda''),
       EvLog Info (FilteringPlatform ''linux'' ''amd64''), EvResolve ''v1'', EvFetchManifest,
       EvLog Info (FetchingLayer ''sha256:dd'' 3), EvFetch ''sha256:dd'', EvStartReporter 3,
       EvTickerStop, EvSendDone, EvCloseLayerReader ''sha256:dd'',
       EvLog Info (FetchingLayer ''sha256:cc'' 4), EvFetch ''sha256:cc'',
       EvCloseLayerReader ''sha256:cc'', EvCloseFile])"
    unfolding pw dx by (simp add: sample_before)
  have fb: "repo_Fetch (sample_env L) ?r sample_layer_broken = Inr ?broken \<and>
      layer_source (sample_env L) sample_layer_broken ?broken = Inr (?broken, None) \<and>
      io_Copy (NewProgress (fileOut ?st1) ?broken)
        = (3, Some (ReadFailed ''connection reset''), ?p')" for L
    by (simp add: sample_eval)
  have db: "Digest sample_layer_broken = ''sha256:ee''" "Size sample_layer_broken = 9"
    by (simp_all add: sample_layer_broken_def)
  from Write_no_rollback
    [where env = "sample_env ([sample_layer_raw] @ sample_layer_broken # [sample_layer_gz])"
       and sourceImage = ?img and destinationDevice = ?dev and repo = ?r
       and m = "\<lparr>Layers = [sample_layer_raw] @ sample_layer_broken # [sample_layer_gz]\<rparr>"
       and pre = "[sample_layer_raw]" and layer = sample_layer_broken
       and post = "[sample_layer_gz]" and wld = sample_world and ?st1.0 = ?st1 and ?ev1.0 = ?ev1
       and layerReader = ?broken and sourceReader = ?broken and decompressor = None
       and written = 3 and cerr = "ReadFailed ''connection reset''" and progress' = ?p',
     THEN mp, OF h [OF sample_recognized(5)],
     THEN conjunct2, THEN conjunct2, THEN conjunct2, THEN conjunct2, THEN mp, OF fb,
     THEN conjunct1]
  have c: "Write (sample_env [sample_layer_raw, sample_layer_broken, sample_layer_gz])
        ?img ?dev sample_world =
     (Some (DeviceWriteFailed (ReadFailed ''connection reset'')),
      sample_world\<lparr>paths := {''/dev/sda''},
                    disk := whole_writer\<lparr>wr_written := [1, 2, 3, 5, 6, 7]\<rparr>\<rparr>,
      [EvOpenFile ''/dev/sda'' [O_CREATE, O_WRONLY] 420,
       EvLog Info (BeginningWrite ''disk:v1'' ''/dev/sda''),
       EvLog Info (FilteringPlatform ''linux'' ''amd64''), EvResolve ''v1'', EvFetchManifest,
       EvLog Info (FetchingLayer ''sha256:dd'' 3), EvFetch ''sha256:dd'', EvStartReporter 3,
       EvTickerStop, EvSendDone, EvCloseLayerReader ''sha256:dd'',
       EvLog Info (FetchingLayer ''sha256:ee'' 9), EvFetch ''sha256:ee'', EvStartReporter 9,
       EvTickerStop, EvSendDone, EvCloseLayerReader ''sha256:ee'', EvCloseFile])"
    unfolding pw db by (simp add: sample_before)
  have d: "stream_bytes ?broken = [5, 6, 7]" by simp
  from a b c d show ?thesis by (intro conjI)
qed

end
